(* ===== verification/Prelude.thy ===== *)
theory Prelude
  imports Complex_Main "HOL-Library.Sublist" "HOL-Library.Multiset"
begin

section \<open>Prelude: results, time, and the lemmas every component shares\<close>

text \<open>
  What the component theories have in common.
  \<^item> A C++ function that may throw is a function into \<open>exn + 'a\<close>: \<open>Inl\<close> carries the
    exception, \<open>Inr\<close> the returned value. The \<open>what\<close> text of an exception is data, because the
    gateway classifies rejects by searching it. \<open>GatewayError\<close> is the exception type of the
    gateway interface; its kind is one of the enumerators the gateway uses.
  \<^item> A steady-clock or system-clock reading is an \<open>int\<close> in nanoseconds or milliseconds, as the
    component says; \<open>ms\<close> and \<open>secs\<close> convert durations to nanoseconds.
  \<^item> Generic lemmas on lists and on sequences of time stamps, used by the limiter, the lane and
    the session.
\<close>

subsection \<open>Exceptions and results\<close>

datatype RejectKind =
    Throttled
  | PositionClosed
  | BenignPostOnlyCross
  | Hard
  | MinNotional
  | Permanent

datatype exn =
    RuntimeError string
  | GatewayError RejectKind string
  | OtherError string

fun what :: "exn \<Rightarrow> string" where
  "what (RuntimeError m) = m"
| "what (GatewayError k m) = m"
| "what (OtherError m) = m"

type_synonym 'a result = "exn + 'a"

fun rbind :: "'a result \<Rightarrow> ('a \<Rightarrow> 'b result) \<Rightarrow> 'b result" where
  "rbind (Inl e) f = Inl e"
| "rbind (Inr a) f = f a"

lemma rbind_Inr_iff [simp]: "rbind m f = Inr b \<longleftrightarrow> (\<exists>a. m = Inr a \<and> f a = Inr b)"
  by (cases m) auto

lemma rbind_assoc: "rbind (rbind m f) g = rbind m (\<lambda>a. rbind (f a) g)"
  by (cases m) auto

fun rmap :: "('a \<Rightarrow> 'b) \<Rightarrow> 'a result \<Rightarrow> 'b result" where
  "rmap f (Inl e) = Inl e"
| "rmap f (Inr a) = Inr (f a)"

text \<open>A loop over a list whose body may throw: the first exception ends it.\<close>

fun rtraverse :: "('a \<Rightarrow> 'b result) \<Rightarrow> 'a list \<Rightarrow> 'b list result" where
  "rtraverse f [] = Inr []"
| "rtraverse f (x # xs) = rbind (f x) (\<lambda>y. rbind (rtraverse f xs) (\<lambda>ys. Inr (y # ys)))"

lemma rtraverse_Inr_iff: "rtraverse f xs = Inr ys \<longleftrightarrow> list_all2 (\<lambda>x y. f x = Inr y) xs ys"
proof (induction xs arbitrary: ys)
  case Nil
  then show ?case by auto
next
  case (Cons x xs)
  then show ?case by (auto simp: list_all2_Cons1)
qed

lemma rtraverse_length: "rtraverse f xs = Inr ys \<Longrightarrow> length ys = length xs"
  by (auto simp: rtraverse_Inr_iff dest: list_all2_lengthD)

text \<open>The em dash of the log and error texts, as its UTF-8 bytes.\<close>

definition emdash :: string where
  "emdash = [char_of (226::nat), char_of (128::nat), char_of (148::nat)]"

subsection \<open>Clock readings\<close>

text \<open>Durations in nanoseconds, the resolution of \<open>std::chrono::steady_clock\<close>.\<close>

definition ms :: "int \<Rightarrow> int" where
  "ms n = n * 1000000"

definition secs :: "int \<Rightarrow> int" where
  "secs n = n * 1000000000"

lemma ms_mono [simp]: "ms a \<le> ms b \<longleftrightarrow> a \<le> b"
  by (simp add: ms_def)

lemma secs_mono [simp]: "secs a \<le> secs b \<longleftrightarrow> a \<le> b"
  by (simp add: secs_def)

lemma ms_nonneg [simp]: "0 \<le> ms a \<longleftrightarrow> 0 \<le> a"
  by (simp add: ms_def)

lemma secs_nonneg [simp]: "0 \<le> secs a \<longleftrightarrow> 0 \<le> a"
  by (simp add: secs_def)

subsection \<open>Lists\<close>

lemma distinct_remove1_append:
  "distinct (xs @ ys) \<Longrightarrow> distinct (remove1 x xs @ ys)"
  by (auto dest: in_set_takeD notin_set_remove1 simp: set_remove1_eq)

lemma removeAll_eq_filter: "removeAll x xs = filter (\<lambda>y. y \<noteq> x) xs"
  by (induction xs) auto

lemma sorted_wrt_append_single:
  "sorted_wrt P xs \<Longrightarrow> (\<And>x. x \<in> set xs \<Longrightarrow> P x y) \<Longrightarrow> sorted_wrt P (xs @ [y])"
  by (simp add: sorted_wrt_append)

lemma nth_append_last: "i < length xs \<Longrightarrow> (xs @ ys) ! i = xs ! i"
  by (simp add: nth_append)

lemma sorted_dropWhile:
  fixes xs :: "'a::linorder list"
  shows "sorted xs \<Longrightarrow> sorted (dropWhile P xs)"
  using sorted_wrt_drop [of "(\<le>)" xs] by (simp add: dropWhile_eq_drop)

end
