(* ===== verification/Binary64.thy ===== *)
theory Binary64
  imports Prelude
begin

section \<open>IEEE 754 binary64: the C++ type double\<close>

text \<open>
  The sources compute prices, volumes and quantities in \<open>double\<close>. A double is modelled by its
  value: not-a-number, an infinity, or the exact rational value of a finite double. An
  arithmetic operation is the exact rational result rounded to nearest, ties to even, with 53
  significant bits and the subnormal range (\<open>rnd64\<close>), and an overflow is an infinity (\<open>fl\<close>).
  The two zeros are one value, since the modelled code never observes the sign of a zero: it
  compares and multiplies, and divides only after a test that the divisor is positive.

  The lemmas give what the callers need of the rounding: \<open>rnd64\<close> is monotone, exact on integers
  below \<open>2 ^ 53\<close>, and has a relative error of at most \<open>2 ^ -53\<close> on normal numbers.
\<close>

subsection \<open>Powers of two and the binary exponent\<close>

definition pow2 :: "int \<Rightarrow> rat" where
  "pow2 k = (if 0 \<le> k then of_int (2 ^ nat k) else 1 / of_int (2 ^ nat (- k)))"

lemma pow2_powi: "pow2 k = 2 powi k"
  by (simp add: pow2_def power_int_def inverse_eq_divide power_one_over)

lemma pow2_pos [simp]: "0 < pow2 k"
  by (simp add: pow2_powi)

lemma pow2_add: "pow2 (a + b) = pow2 a * pow2 b"
  by (simp add: pow2_powi power_int_add)

lemma pow2_diff: "pow2 (a - b) = pow2 a / pow2 b"
  by (simp add: pow2_powi power_int_diff)

lemma pow2_le_iff [simp]: "pow2 a \<le> pow2 b \<longleftrightarrow> a \<le> b"
proof
  assume "a \<le> b"
  then show "pow2 a \<le> pow2 b" by (simp add: pow2_powi power_int_increasing)
next
  assume "pow2 a \<le> pow2 b"
  then show "a \<le> b"
    by (metis linorder_not_less pow2_powi power_int_strict_increasing one_less_numeral_iff
        semiring_norm(76))
qed

lemma pow2_less_iff [simp]: "pow2 a < pow2 b \<longleftrightarrow> a < b"
  by (simp add: linorder_not_le [symmetric])

lemma pow2_nat: "0 \<le> k \<Longrightarrow> pow2 k = of_int (2 ^ nat k)"
  by (simp add: pow2_def)

function ilog2 :: "int \<Rightarrow> int" where
  "ilog2 n = (if n \<le> 1 then 0 else 1 + ilog2 (n div 2))"
  by pat_completeness auto
termination by (relation "measure nat") auto

declare ilog2.simps [simp del]

lemma ilog2_nonneg: "0 \<le> ilog2 n"
proof (induction n rule: ilog2.induct)
  case (1 n)
  then show ?case by (subst ilog2.simps) auto
qed

lemma ilog2_bounds: "1 \<le> n \<Longrightarrow> pow2 (ilog2 n) \<le> of_int n \<and> of_int n < pow2 (ilog2 n + 1)"
proof (induction n rule: ilog2.induct)
  case (1 n)
  show ?case
  proof (cases "n = 1")
    case True
    then show ?thesis by (simp add: ilog2.simps pow2_def)
  next
    case False
    with "1.prems" have n: "\<not> n \<le> 1" by simp
    let ?m = "n div 2"
    have "1 \<le> ?m" using n by simp
    with "1.IH" n have m: "pow2 (ilog2 ?m) \<le> of_int ?m" "of_int ?m < pow2 (ilog2 ?m + 1)" by auto
    have step: "ilog2 n = ilog2 ?m + 1" using n by (subst ilog2.simps) simp
    have p2: "pow2 (k + 1) = 2 * pow2 k" for k by (simp add: pow2_add pow2_def [of 1])
    have "2 * ?m \<le> n" by simp
    then have "of_int (2 * ?m) \<le> (of_int n :: rat)" by (simp only: of_int_le_iff)
    with m(1) have lo: "2 * pow2 (ilog2 ?m) \<le> of_int n" by simp
    have M: "pow2 (ilog2 ?m + 1) = of_int (2 ^ nat (ilog2 ?m + 1))"
      by (rule pow2_nat) (use ilog2_nonneg [of ?m] in simp)
    with m(2) have "?m < 2 ^ nat (ilog2 ?m + 1)" by (metis of_int_less_iff)
    then have "n < 2 * 2 ^ nat (ilog2 ?m + 1)" by simp
    then have "of_int n < (of_int (2 * 2 ^ nat (ilog2 ?m + 1)) :: rat)" by (simp only: of_int_less_iff)
    then have hi: "of_int n < 2 * pow2 (ilog2 ?m + 1)" by (simp add: M)
    show ?thesis using lo hi by (simp only: step p2 simp_thms)
  qed
qed

definition expo :: "rat \<Rightarrow> int" where
  "expo x = (let pq = quotient_of x; e = ilog2 (fst pq) - ilog2 (snd pq)
     in if pow2 e \<le> x then e else e - 1)"

lemma expo_bounds:
  assumes "0 < x"
  shows "pow2 (expo x) \<le> x" and "x < pow2 (expo x + 1)"
proof -
  obtain p q where pq: "quotient_of x = (p, q)" by fastforce
  have q: "0 < q" using quotient_of_denom_pos [OF pq] .
  have x: "x = of_int p / of_int q" by (rule quotient_of_div [OF pq])
  have p: "1 \<le> p" using assms q by (simp add: x zero_less_divide_iff)
  let ?a = "ilog2 p" and ?b = "ilog2 q"
  have P: "pow2 ?a \<le> of_int p" "of_int p < pow2 (?a + 1)" using ilog2_bounds [OF p] by auto
  have Q: "pow2 ?b \<le> of_int q" "of_int q < pow2 (?b + 1)" using ilog2_bounds [of q] q by auto
  have up: "x < pow2 (?a + 1) / pow2 ?b"
    using P Q p q unfolding x by (intro frac_less) (auto simp: order_less_imp_le)
  have lo: "pow2 ?a / pow2 (?b + 1) < x"
    using P Q q unfolding x by (intro frac_less2) auto
  have e: "expo x = (if pow2 (?a - ?b) \<le> x then ?a - ?b else ?a - ?b - 1)"
    by (simp add: expo_def pq Let_def)
  have up': "x < pow2 (?a - ?b + 1)" using up by (simp add: pow2_diff pow2_add)
  have lo': "pow2 (?a - ?b - 1) < x" using lo by (simp add: pow2_diff pow2_add)
  show "pow2 (expo x) \<le> x" and "x < pow2 (expo x + 1)"
    using up' lo' by (auto simp: e)
qed

lemma expo_mono: "0 < x \<Longrightarrow> x \<le> y \<Longrightarrow> expo x \<le> expo y"
proof -
  assume x: "0 < x" "x \<le> y"
  then have "pow2 (expo x) \<le> x" "y < pow2 (expo y + 1)" using expo_bounds by auto
  with x(2) have "pow2 (expo x) < pow2 (expo y + 1)" by linarith
  then show ?thesis by simp
qed

subsection \<open>Rounding a rational to an integer, ties to even\<close>

definition rne :: "rat \<Rightarrow> int" where
  "rne x = (let f = \<lfloor>x\<rfloor>; d = x - of_int f in
     if d < 1 / 2 then f else if 1 / 2 < d then f + 1 else if even f then f else f + 1)"

lemma rne_of_int [simp]: "rne (of_int n) = n"
  by (simp add: rne_def)

lemma rne_err: "\<bar>of_int (rne x) - x\<bar> \<le> 1 / 2"
proof -
  have "of_int \<lfloor>x\<rfloor> \<le> x" "x < of_int \<lfloor>x\<rfloor> + 1" by linarith+
  then show ?thesis by (auto simp: rne_def Let_def abs_le_iff)
qed

lemma rne_floor: "\<lfloor>x\<rfloor> \<le> rne x" and rne_floor1: "rne x \<le> \<lfloor>x\<rfloor> + 1"
  by (auto simp: rne_def Let_def)

lemma rne_mono: "x \<le> y \<Longrightarrow> rne x \<le> rne y"
proof -
  assume le: "x \<le> y"
  then have fl: "\<lfloor>x\<rfloor> \<le> \<lfloor>y\<rfloor>" by (rule floor_mono)
  show ?thesis
  proof (cases "\<lfloor>x\<rfloor> = \<lfloor>y\<rfloor>")
    case True
    with le show ?thesis by (auto simp: rne_def Let_def)
  next
    case False
    with fl have "\<lfloor>x\<rfloor> + 1 \<le> \<lfloor>y\<rfloor>" by simp
    with rne_floor1 [of x] rne_floor [of y] show ?thesis by linarith
  qed
qed

lemma rne_minus: "rne (- x) = - rne x"
proof (cases "x = of_int \<lfloor>x\<rfloor>")
  case True
  then show ?thesis by (metis of_int_minus rne_of_int)
next
  case False
  have "of_int \<lfloor>x\<rfloor> < x" "x < of_int \<lfloor>x\<rfloor> + 1" using False by linarith+
  then have f: "\<lfloor>- x\<rfloor> = - \<lfloor>x\<rfloor> - 1" by (intro floor_unique) auto
  show ?thesis unfolding rne_def Let_def f by (auto simp: field_simps)
qed

lemma rne_ge_int: "of_int n \<le> x \<Longrightarrow> n \<le> rne x"
  using rne_mono [of "of_int n" x] by simp

lemma rne_le_int: "x \<le> of_int n \<Longrightarrow> rne x \<le> n"
  using rne_mono [of x "of_int n"] by simp


subsection \<open>Rounding to binary64 precision\<close>

text \<open>
  \<open>quantum x\<close> is the distance between the doubles around \<open>x\<close>: 52 bits below the leading bit,
  and never below \<open>2 ^ -1074\<close>, the smallest subnormal.
\<close>

definition quantum :: "rat \<Rightarrow> rat" where
  "quantum x = pow2 (max (expo x) (- 1022) - 52)"

definition rnd64 :: "rat \<Rightarrow> rat" where
  "rnd64 x = (if x = 0 then 0 else of_int (rne (x / quantum \<bar>x\<bar>)) * quantum \<bar>x\<bar>)"

lemma quantum_pos [simp]: "0 < quantum x"
  by (simp add: quantum_def)

lemma quantum_nonneg [simp]: "0 \<le> quantum x"
  using quantum_pos [of x] by (simp only: order_less_imp_le)

lemma quantum_nonzero [simp]: "quantum x \<noteq> 0"
  by (metis order_less_irrefl quantum_pos)

lemma rnd64_zero [simp]: "rnd64 0 = 0"
  by (simp add: rnd64_def)

lemma rnd64_minus: "rnd64 (- x) = - rnd64 x"
  by (simp add: rnd64_def rne_minus)

lemma rnd64_nonneg: "0 \<le> x \<Longrightarrow> 0 \<le> rnd64 x"
  by (auto simp: rnd64_def intro!: mult_nonneg_nonneg rne_ge_int)

lemma pow2_int: "0 \<le> k \<Longrightarrow> \<exists>n. pow2 k = of_int n"
  by (auto simp: pow2_def)

lemma rnd64_multiple:
  assumes x: "x = of_int n * quantum \<bar>x\<bar>"
  shows "rnd64 x = x"
proof -
  have "x / quantum \<bar>x\<bar> = of_int n" by (metis nonzero_mult_div_cancel_right quantum_nonzero x)
  with x show ?thesis by (auto simp: rnd64_def)
qed

lemma rnd64_of_int_small:
  assumes "\<bar>n\<bar> < 2 ^ 53"
  shows "rnd64 (of_int n) = of_int n"
proof (cases "n = 0")
  case False
  let ?x = "\<bar>of_int n :: rat\<bar>"
  have pos: "0 < ?x" using False by simp
  have "of_int \<bar>n\<bar> < (of_int (2 ^ 53) :: rat)" using assms by (simp only: of_int_less_iff)
  then have "?x < pow2 53" by (simp add: pow2_def)
  with expo_bounds(1) [OF pos] have "pow2 (expo ?x) < pow2 53" by linarith
  then have "expo ?x < 53" by simp
  then have "0 \<le> 52 - max (expo ?x) (- 1022)" by simp
  then obtain m where m: "pow2 (52 - max (expo ?x) (- 1022)) = of_int m" using pow2_int by blast
  have "pow2 (52 - max (expo ?x) (- 1022)) * quantum ?x = 1"
    by (simp add: quantum_def flip: pow2_add) (simp add: pow2_def)
  then have "of_int n = of_int (n * m) * quantum ?x" by (simp add: m mult.assoc)
  then show ?thesis by (rule rnd64_multiple)
qed simp

lemma rnd64_err_quantum: "\<bar>rnd64 x - x\<bar> \<le> quantum \<bar>x\<bar> / 2"
proof (cases "x = 0")
  case False
  let ?u = "quantum \<bar>x\<bar>"
  have "rnd64 x - x = (of_int (rne (x / ?u)) - x / ?u) * ?u"
    using False by (simp add: rnd64_def left_diff_distrib)
  then have "\<bar>rnd64 x - x\<bar> = \<bar>of_int (rne (x / ?u)) - x / ?u\<bar> * ?u"
    by (simp add: abs_mult)
  also have "\<dots> \<le> 1 / 2 * ?u" by (intro mult_right_mono rne_err) (simp add: order_less_imp_le)
  finally show ?thesis by simp
qed (simp add: order_less_imp_le)

lemma rnd64_err:
  assumes "pow2 (- 1022) \<le> \<bar>x\<bar>"
  shows "\<bar>rnd64 x - x\<bar> \<le> \<bar>x\<bar> / 2 ^ 53"
proof -
  have pos: "0 < \<bar>x\<bar>" using assms pow2_pos [of "- 1022"] by linarith
  have "pow2 (- 1022) < pow2 (expo \<bar>x\<bar> + 1)" using assms expo_bounds(2) [OF pos] by linarith
  then have e: "- 1022 \<le> expo \<bar>x\<bar>" by simp
  then have "quantum \<bar>x\<bar> = pow2 (expo \<bar>x\<bar>) / 2 ^ 52"
    by (simp add: quantum_def max_absorb1 pow2_diff pow2_def [of 52])
  with expo_bounds(1) [OF pos] have "quantum \<bar>x\<bar> / 2 \<le> \<bar>x\<bar> / 2 ^ 53" by simp
  with rnd64_err_quantum [of x] show ?thesis by linarith
qed

text \<open>Monotone: within one binade by \<open>rne_mono\<close>, across binades through the power between them.\<close>

lemma rnd64_le_next_binade:
  assumes "0 < x"
  shows "rnd64 x \<le> pow2 (max (expo x) (- 1022) + 1)"
proof -
  let ?E = "max (expo x) (- 1022)"
  have "x < pow2 (expo x + 1)" by (rule expo_bounds(2) [OF assms])
  also have "\<dots> \<le> pow2 (?E + 1)" by simp
  also have "\<dots> = pow2 53 * quantum x"
    by (simp add: quantum_def add.commute flip: pow2_add)
  finally have "x / quantum x \<le> of_int (2 ^ 53)" by (simp add: pow2_def [of 53] pos_divide_le_eq)
  then have "rne (x / quantum x) \<le> 2 ^ 53" by (rule rne_le_int)
  then have "of_int (rne (x / quantum x)) \<le> (of_int (2 ^ 53) :: rat)" by (simp only: of_int_le_iff)
  then have "rnd64 x \<le> of_int (2 ^ 53) * quantum x"
    using assms by (simp add: rnd64_def mult_right_mono order_less_imp_le)
  also have "of_int (2 ^ 53) * quantum x = pow2 (?E + 1)"
    using pow2_add [of 53 "?E - 52"] by (simp add: quantum_def pow2_def [of 53] add.commute)
  finally show ?thesis .
qed

lemma rnd64_ge_binade:
  assumes "0 < x" and "- 1022 \<le> expo x"
  shows "pow2 (expo x) \<le> rnd64 x"
proof -
  have q: "quantum x = pow2 (expo x - 52)" using assms(2) by (simp add: quantum_def max_absorb1)
  have eq: "pow2 (expo x) = of_int (2 ^ 52) * quantum x"
    using pow2_add [of 52 "expo x - 52"] by (simp add: q pow2_def [of 52])
  with expo_bounds(1) [OF assms(1)] have "of_int (2 ^ 52) \<le> x / quantum x"
    by (simp add: pos_le_divide_eq)
  then have "2 ^ 52 \<le> rne (x / quantum x)" by (rule rne_ge_int)
  then have "(of_int (2 ^ 52) :: rat) \<le> of_int (rne (x / quantum x))" by (simp only: of_int_le_iff)
  then have "of_int (2 ^ 52) * quantum x \<le> of_int (rne (x / quantum x)) * quantum x"
    by (rule mult_right_mono) (simp add: order_less_imp_le)
  then show ?thesis using assms(1) eq by (simp add: rnd64_def)
qed

lemma rnd64_mono_pos:
  assumes "0 < x" and "x \<le> y"
  shows "rnd64 x \<le> rnd64 y"
proof (cases "quantum x = quantum y")
  case True
  have "rne (x / quantum y) \<le> rne (y / quantum y)"
    using assms(2) by (intro rne_mono divide_right_mono) (auto simp: order_less_imp_le)
  then have "(of_int (rne (x / quantum y)) :: rat) \<le> of_int (rne (y / quantum y))"
    by (simp only: of_int_le_iff)
  then show ?thesis
    using assms True by (simp add: rnd64_def mult_right_mono order_less_imp_le)
next
  case False
  have "expo x \<le> expo y" by (rule expo_mono [OF assms])
  with False have lt: "max (expo x) (- 1022) < max (expo y) (- 1022)"
    by (cases "expo x = expo y") (auto simp: quantum_def max_def split: if_splits)
  then have ey: "- 1022 \<le> expo y" "max (expo x) (- 1022) + 1 \<le> expo y" by auto
  have "rnd64 x \<le> pow2 (max (expo x) (- 1022) + 1)" by (rule rnd64_le_next_binade [OF assms(1)])
  also have "\<dots> \<le> pow2 (expo y)" using ey(2) by simp
  also have "\<dots> \<le> rnd64 y" using assms ey(1) by (intro rnd64_ge_binade) auto
  finally show ?thesis .
qed

lemma rnd64_mono:
  assumes "x \<le> y"
  shows "rnd64 x \<le> rnd64 y"
proof -
  consider "0 < x" | "x \<le> 0" "0 \<le> y" | "y < 0" by linarith
  then show ?thesis
  proof cases
    case 1
    then show ?thesis using assms by (rule rnd64_mono_pos)
  next
    case 2
    then show ?thesis using rnd64_nonneg [of y] rnd64_nonneg [of "- x"] by (simp add: rnd64_minus)
  next
    case 3
    then show ?thesis using rnd64_mono_pos [of "- y" "- x"] assms by (simp add: rnd64_minus)
  qed
qed

text \<open>A double rounds to itself.\<close>

lemma expo_unique: "0 < x \<Longrightarrow> pow2 e \<le> x \<Longrightarrow> x < pow2 (e + 1) \<Longrightarrow> expo x = e"
proof -
  assume x: "0 < x" "pow2 e \<le> x" "x < pow2 (e + 1)"
  then have "pow2 (expo x) < pow2 (e + 1)" "pow2 e < pow2 (expo x + 1)"
    using expo_bounds [OF x(1)] by linarith+
  then show ?thesis by simp
qed

lemma rnd64_idem_pos:
  assumes "0 < x" and "0 < rnd64 x"
  shows "rnd64 (rnd64 x) = rnd64 x"
proof -
  let ?E = "max (expo x) (- 1022)" and ?y = "rnd64 x"
  have y: "?y = of_int (rne (x / quantum x)) * quantum x" using assms(1) by (simp add: rnd64_def)
  consider "?y = pow2 (?E + 1)" | "?y < pow2 (?E + 1)"
    using rnd64_le_next_binade [OF assms(1)] by linarith
  then show ?thesis
  proof cases
    case 1
    then have "expo ?y = ?E + 1" using assms(2) by (intro expo_unique) simp_all
    then have "quantum ?y = pow2 (?E + 1 - 52)" by (simp add: quantum_def max_def)
    moreover have "pow2 (?E + 1) = of_int (2 ^ 52) * pow2 (?E + 1 - 52)"
      using pow2_add [of 52 "?E + 1 - 52"] by (simp add: pow2_def [of 52] add.commute)
    moreover have "\<bar>?y\<bar> = ?y" using assms(2) by simp
    ultimately have "?y = of_int (2 ^ 52) * quantum \<bar>?y\<bar>" using 1 by metis
    then show ?thesis by (rule rnd64_multiple)
  next
    case 2
    have "max (expo ?y) (- 1022) = ?E"
    proof (cases "- 1022 \<le> expo x")
      case True
      then have "pow2 (expo x) \<le> ?y" by (rule rnd64_ge_binade [OF assms(1)])
      with 2 True have "expo ?y = expo x" using assms(2) by (intro expo_unique) (simp_all add: max_def)
      then show ?thesis by simp
    next
      case False
      have "pow2 (expo ?y) < pow2 (?E + 1)" using 2 expo_bounds(1) [OF assms(2)] by linarith
      with False show ?thesis by (simp add: max_def)
    qed
    then have "quantum \<bar>?y\<bar> = quantum x" using assms(2) by (simp add: quantum_def)
    with y show ?thesis using rnd64_multiple [of ?y] by metis
  qed
qed

lemma rnd64_idem [simp]: "rnd64 (rnd64 x) = rnd64 x"
proof -
  have pos: "rnd64 (rnd64 x) = rnd64 x" if "0 \<le> x" for x
  proof (cases "rnd64 x = 0")
    case False
    then have "0 < rnd64 x" "0 < x" using rnd64_nonneg [OF that] that by (auto simp: order_less_le)
    then show ?thesis by (rule rnd64_idem_pos [rotated])
  qed simp
  show ?thesis using pos [of x] pos [of "- x"] by (cases "0 \<le> x") (simp_all add: rnd64_minus)
qed

end
