(* ===== verification/Doubles.thy ===== *)
theory Doubles
  imports Binary64
begin

section \<open>Doubles as values: comparisons, arithmetic, and floor division\<close>

text \<open>
  The type \<open>flt\<close> of doubles, its comparisons (false on a NaN, as in C++) and the operations the
  sources use: \<open>+\<close>, \<open>-\<close>, \<open>*\<close>, \<open>/\<close>, \<open>std::round\<close>, \<open>std::floor\<close>, \<open>std::abs\<close>, and the conversion
  of an integer. The locale \<open>rounding\<close> states what integer arithmetic in doubles relies on, and
  proves once that \<open>floor (v / u + eps)\<close> computes the integer quotient; it is interpreted on the
  rounding of \<open>Binary64\<close>.
\<close>

subsection \<open>Integer quotients as rationals\<close>

lemma quotient_floor: "of_int (v div u) \<le> (of_int v / of_int u :: rat)"
  by (metis floor_divide_of_int_eq of_int_floor_le)

lemma quotient_slack:
  assumes "0 < u"
  shows "of_int v / of_int u \<le> (of_int (v div u) + 1 - 1 / of_int u :: rat)"
proof -
  have "v mod u + 1 \<le> u" using assms by (simp add: zless_imp_add1_zle)
  then have "v + 1 \<le> v div u * u + u" by (metis add.assoc add_le_cancel_left div_mult_mod_eq)
  then have "of_int (v + 1) \<le> (of_int (v div u * u + u) :: rat)" by (simp only: of_int_le_iff)
  then show ?thesis using assms by (simp add: field_simps)
qed

lemma quotient_range:
  fixes v u :: int
  assumes "1 \<le> v" "v \<le> 2 ^ 31" "1 \<le> u" "u \<le> 10 ^ 6"
  shows "1 / 10 ^ 6 \<le> (of_int v / of_int u :: rat)" and "of_int v / of_int u \<le> (2 ^ 31 :: rat)"
    and "1 / 10 ^ 6 \<le> (1 / of_int u :: rat)"
proof -
  have v: "(of_int 1 :: rat) \<le> of_int v" "(of_int v :: rat) \<le> of_int (2 ^ 31)"
    and u: "(of_int 1 :: rat) \<le> of_int u" "(of_int u :: rat) \<le> of_int (10 ^ 6)"
    using assms by (simp_all only: of_int_le_iff)
  then show "1 / 10 ^ 6 \<le> (1 / of_int u :: rat)" by (intro frac_le) auto
  show "1 / 10 ^ 6 \<le> (of_int v / of_int u :: rat)" using v u by (intro frac_le) auto
  have "(of_int v / of_int u :: rat) \<le> of_int (2 ^ 31) / of_int 1" using v u by (intro frac_le) auto
  then show "of_int v / of_int u \<le> (2 ^ 31 :: rat)" by simp
qed

subsection \<open>The interface of a rounding, and floor division over it\<close>

locale rounding =
  fixes rnd :: "rat \<Rightarrow> rat"
  assumes mono: "x \<le> y \<Longrightarrow> rnd x \<le> rnd y"
    and exact: "\<bar>n\<bar> < 2 ^ 53 \<Longrightarrow> rnd (of_int n) = of_int n"
    and err: "1 / 2 ^ 1022 \<le> \<bar>x\<bar> \<Longrightarrow> \<bar>rnd x - x\<bar> \<le> \<bar>x\<bar> / 2 ^ 53"
begin

lemma ge_int: "\<bar>n\<bar> < 2 ^ 53 \<Longrightarrow> of_int n \<le> x \<Longrightarrow> of_int n \<le> rnd x"
  using mono [of "of_int n" x] exact [of n] by simp

lemma le_int: "\<bar>n\<bar> < 2 ^ 53 \<Longrightarrow> x \<le> of_int n \<Longrightarrow> rnd x \<le> of_int n"
  using mono [of x "of_int n"] exact [of n] by simp

text \<open>Two roundings of a number of moderate size, with an offset between them.\<close>

lemma err_moderate:
  assumes "1 / 10 ^ 7 \<le> x" "x \<le> 2 ^ 32"
  shows "rnd x \<le> x + 1 / 2 ^ 21" and "x / 2 \<le> rnd x"
proof -
  have "(1::rat) / 2 ^ 1022 \<le> 1 / 10 ^ 7" by simp
  then have "\<bar>rnd x - x\<bar> \<le> \<bar>x\<bar> / 2 ^ 53" using assms(1) by (intro err) linarith
  moreover have "\<bar>x\<bar> = x" using assms(1) by simp
  ultimately have "rnd x - x \<le> x / 2 ^ 53" "x - rnd x \<le> x / 2 ^ 53" by linarith+
  moreover have "x / 2 ^ 53 \<le> 1 / 2 ^ 21" using assms(2) by simp
  moreover have "x / 2 ^ 53 \<le> x / 2" using assms(1) by simp
  ultimately show "rnd x \<le> x + 1 / 2 ^ 21" and "x / 2 \<le> rnd x" by linarith+
qed

lemma two_roundings:
  assumes "1 / 10 ^ 6 \<le> x" "x \<le> 2 ^ 31" "0 \<le> eps" "eps \<le> 1 / 10 ^ 8"
  shows "rnd (rnd x + eps) \<le> x + 1 / 10 ^ 8 + 1 / 2 ^ 20"
proof -
  have x: "1 / 10 ^ 7 \<le> x" "x \<le> 2 ^ 32" using assms by simp_all
  note rx = err_moderate [OF x]
  have "rnd (rnd x + eps) \<le> (rnd x + eps) + 1 / 2 ^ 21"
    by (rule err_moderate(1)) (use assms rx in simp_all)
  with rx assms show ?thesis by simp
qed

text \<open>
  The quotient rounded, a small positive \<open>eps\<close> added, and the sum rounded again: while the slack
  \<open>1 / u\<close> below the next integer exceeds the rounding errors, the floor is the integer quotient.
\<close>

lemma floor_div:
  fixes v u :: int
  assumes v: "1 \<le> v" "v \<le> 2 ^ 31" and u: "1 \<le> u" "u \<le> 10 ^ 6"
    and eps: "0 \<le> eps" "eps \<le> 1 / 10 ^ 8"
  shows "\<lfloor>rnd (rnd (of_int v / of_int u) + eps)\<rfloor> = v div u"
proof (rule floor_unique)
  let ?x = "of_int v / of_int u :: rat" and ?k = "v div u"
  have k: "\<bar>?k\<bar> < 2 ^ 53"
    using v u zdiv_mono2 [of v 1 u] pos_imp_zdiv_nonneg_iff [of u v] by simp
  have "of_int ?k \<le> rnd ?x" using k quotient_floor by (rule ge_int)
  then show "of_int ?k \<le> rnd (rnd ?x + eps)" using k eps by (intro ge_int) auto
  note range = quotient_range [OF v u]
  have "rnd (rnd ?x + eps) \<le> ?x + 1 / 10 ^ 8 + 1 / 2 ^ 20"
    using range(1,2) eps by (rule two_roundings)
  also have "\<dots> \<le> of_int ?k + 1 - 1 / of_int u + 1 / 10 ^ 8 + 1 / 2 ^ 20"
    using quotient_slack [of u v] u by simp
  also have "\<dots> < of_int ?k + 1" using range(3) by simp
  finally show "rnd (rnd ?x + eps) < of_int ?k + 1" .
qed

end

interpretation r64: rounding rnd64
proof
  show "rnd64 x \<le> rnd64 y" if "x \<le> y" for x y using that by (rule rnd64_mono)
  show "rnd64 (of_int n) = of_int n" if "\<bar>n\<bar> < 2 ^ 53" for n using that by (rule rnd64_of_int_small)
  show "\<bar>rnd64 x - x\<bar> \<le> \<bar>x\<bar> / 2 ^ 53" if "1 / 2 ^ 1022 \<le> \<bar>x\<bar>" for x
    using that by (intro rnd64_err) (simp add: pow2_def)
qed

subsection \<open>The type and its comparisons\<close>

datatype flt = NaN | Inf bool | Fin rat

text \<open>
  \<open>Inf True\<close> is the negative infinity. \<open>fl x\<close> is the double nearest to the rational \<open>x\<close>, an
  infinity from \<open>2 ^ 1024\<close> on.
\<close>

definition fl :: "rat \<Rightarrow> flt" where
  "fl x = (let r = rnd64 x in if \<bar>r\<bar> < 2 ^ 1024 then Fin r else Inf (r < 0))"

fun dle :: "flt \<Rightarrow> flt \<Rightarrow> bool" where
  "dle NaN b = False"
| "dle a NaN = False"
| "dle (Fin x) (Fin y) = (x \<le> y)"
| "dle (Inf s) b = (s \<or> b = Inf False)"
| "dle (Fin x) (Inf s) = (\<not> s)"

fun deq :: "flt \<Rightarrow> flt \<Rightarrow> bool" where
  "deq NaN b = False"
| "deq a NaN = False"
| "deq a b = (a = b)"

definition dlt :: "flt \<Rightarrow> flt \<Rightarrow> bool" where
  "dlt a b \<longleftrightarrow> dle a b \<and> \<not> deq a b"

lemma dle_Fin [simp]: "dle (Fin x) (Fin y) \<longleftrightarrow> x \<le> y"
  and dlt_Fin [simp]: "dlt (Fin x) (Fin y) \<longleftrightarrow> x < y"
  and dlt_NaN [simp]: "\<not> dlt NaN b" "\<not> dlt a NaN"
  by (cases a; auto simp: dlt_def)+

lemma dlt_pos_cases: "dlt (Fin 0) a \<Longrightarrow> (\<exists>x. a = Fin x \<and> 0 < x) \<or> a = Inf False"
  by (cases a) (auto simp: dlt_def)

subsection \<open>Arithmetic\<close>

fun dneg :: "flt \<Rightarrow> flt" where
  "dneg NaN = NaN"
| "dneg (Inf s) = Inf (\<not> s)"
| "dneg (Fin x) = Fin (- x)"

fun dadd :: "flt \<Rightarrow> flt \<Rightarrow> flt" where
  "dadd NaN b = NaN"
| "dadd a NaN = NaN"
| "dadd (Inf s) (Inf t) = (if s = t then Inf s else NaN)"
| "dadd (Inf s) (Fin y) = Inf s"
| "dadd (Fin x) (Inf t) = Inf t"
| "dadd (Fin x) (Fin y) = fl (x + y)"

definition dsub :: "flt \<Rightarrow> flt \<Rightarrow> flt" where
  "dsub a b = dadd a (dneg b)"

fun dsign :: "flt \<Rightarrow> bool" where
  "dsign NaN = False"
| "dsign (Inf s) = s"
| "dsign (Fin x) = (x < 0)"

fun dmul :: "flt \<Rightarrow> flt \<Rightarrow> flt" where
  "dmul NaN b = NaN"
| "dmul a NaN = NaN"
| "dmul (Fin x) (Fin y) = fl (x * y)"
| "dmul a b = (if a = Fin 0 \<or> b = Fin 0 then NaN else Inf (dsign a \<noteq> dsign b))"

fun ddiv :: "flt \<Rightarrow> flt \<Rightarrow> flt" where
  "ddiv NaN b = NaN"
| "ddiv a NaN = NaN"
| "ddiv (Inf s) (Inf t) = NaN"
| "ddiv (Inf s) (Fin y) = Inf (s \<noteq> (y < 0))"
| "ddiv (Fin x) (Inf t) = Fin 0"
| "ddiv (Fin x) (Fin y) = (if y = 0 then (if x = 0 then NaN else Inf (x < 0)) else fl (x / y))"

text \<open>\<open>std::round\<close> rounds halves away from zero; the results are doubles, so nothing rounds again.\<close>

definition round_away :: "rat \<Rightarrow> int" where
  "round_away x = (if 0 \<le> x then \<lfloor>x + 1 / 2\<rfloor> else - \<lfloor>1 / 2 - x\<rfloor>)"

fun dround :: "flt \<Rightarrow> flt" where
  "dround (Fin x) = Fin (of_int (round_away x))"
| "dround a = a"

fun dfloor :: "flt \<Rightarrow> flt" where
  "dfloor (Fin x) = Fin (of_int \<lfloor>x\<rfloor>)"
| "dfloor a = a"

fun dabs :: "flt \<Rightarrow> flt" where
  "dabs NaN = NaN"
| "dabs (Inf s) = Inf False"
| "dabs (Fin x) = Fin \<bar>x\<bar>"

subsection \<open>Whole numbers are exact\<close>

text \<open>Contract counts are whole numbers: \<open>whole n\<close> is the double \<open>n\<close>.\<close>

definition whole :: "int \<Rightarrow> flt" where
  "whole n = Fin (of_int n)"

lemma fl_of_int: "\<bar>n\<bar> < 2 ^ 53 \<Longrightarrow> fl (of_int n) = whole n"
proof -
  assume n: "\<bar>n\<bar> < 2 ^ 53"
  then have "\<bar>n\<bar> < 2 ^ 1024" by simp
  then have "of_int \<bar>n\<bar> < (of_int (2 ^ 1024) :: rat)" by (simp only: of_int_less_iff)
  with r64.exact [OF n] show ?thesis by (simp add: fl_def whole_def Let_def)
qed

lemma whole_le [simp]: "dle (whole a) (whole b) \<longleftrightarrow> a \<le> b"
  and whole_lt [simp]: "dlt (whole a) (whole b) \<longleftrightarrow> a < b"
  and whole_inject [simp]: "whole a = whole b \<longleftrightarrow> a = b"
  and whole_0: "whole 0 = Fin 0"
  by (simp_all add: whole_def)

lemma whole_pos [simp]: "dlt (Fin 0) (whole a) \<longleftrightarrow> 0 < a"
  and whole_le_0 [simp]: "dle (whole a) (Fin 0) \<longleftrightarrow> a \<le> 0"
  using whole_lt [of 0 a] whole_le [of a 0] by (simp_all add: whole_0 del: whole_lt whole_le)

lemma dsub_whole: "\<bar>a - b\<bar> < 2 ^ 53 \<Longrightarrow> dsub (whole a) (whole b) = whole (a - b)"
  using fl_of_int [of "a - b"] by (simp add: dsub_def whole_def)

lemma dmul_whole: "\<bar>a * b\<bar> < 2 ^ 53 \<Longrightarrow> dmul (whole a) (whole b) = whole (a * b)"
  using fl_of_int [of "a * b"] by (simp add: whole_def)

lemma dround_whole [simp]: "dround (whole n) = whole n"
proof -
  have "\<lfloor>(of_int n :: rat) + 1 / 2\<rfloor> = n" "\<lfloor>1 / 2 - (of_int n :: rat)\<rfloor> = - n" by linarith+
  then show ?thesis by (simp add: whole_def round_away_def)
qed

lemma fl_abs_small: "\<bar>x\<bar> \<le> 2 ^ 53 - 1 \<Longrightarrow> fl x = Fin (rnd64 x)"
proof -
  assume x: "\<bar>x\<bar> \<le> 2 ^ 53 - 1"
  have "rnd64 x \<le> of_int (2 ^ 53 - 1)" using x by (intro r64.le_int) auto
  moreover have "of_int (- (2 ^ 53 - 1)) \<le> rnd64 x" using x by (intro r64.ge_int) auto
  ultimately have "\<bar>rnd64 x\<bar> \<le> 2 ^ 53 - 1" by (simp add: abs_le_iff)
  then have "\<bar>rnd64 x\<bar> < 2 ^ 1024" by (rule order_le_less_trans) simp
  then show ?thesis by (simp add: fl_def Let_def)
qed

end
