(* ===== verification/Strings.thy ===== *)
theory Strings
  imports Doubles "HOL-Library.Char_ord" "HOL-Library.List_Lexorder"
begin

section \<open>The standard-library string functions the sources call\<close>

text \<open>
  A \<open>std::string\<close> is a list of bytes. This theory models what the sources use of the standard
  library on strings: \<open>find(p) != npos\<close> (\<open>str_has\<close>), \<open>starts_with\<close>, \<open>std::tolower\<close> in the C
  locale over a string (\<open>toLower\<close>), \<open>std::to_string\<close> of an integer (\<open>int_str\<close>) and of a double
  (\<open>double_str\<close>, six decimals), \<open>std::stoll\<close> and \<open>std::stod\<close>. The conversions back return a
  result, since they throw \<open>invalid_argument\<close> and \<open>out_of_range\<close>.
\<close>

subsection \<open>Searching\<close>

fun str_has :: "string \<Rightarrow> string \<Rightarrow> bool" where
  "str_has [] p = (p = [])"
| "str_has (c # cs) p = (prefix p (c # cs) \<or> str_has cs p)"

definition starts_with :: "string \<Rightarrow> string \<Rightarrow> bool" where
  "starts_with s p = prefix p s"

lemma str_has_iff: "str_has s p \<longleftrightarrow> (\<exists>u v. s = u @ p @ v)"
proof (induction s)
  case Nil
  then show ?case by auto
next
  case (Cons c cs)
  have "(\<exists>u v. c # cs = u @ p @ v) \<longleftrightarrow> prefix p (c # cs) \<or> (\<exists>u v. cs = u @ p @ v)"
    unfolding prefix_def by (metis append_Cons append_Nil list.inject neq_Nil_conv)
  with Cons show ?case by simp
qed

lemma str_has_infix [simp]: "str_has (u @ p @ v) p"
  by (auto simp: str_has_iff)

lemma str_has_prefix [simp]: "str_has (p @ v) p"
  using str_has_infix [of "[]" p v] by simp

lemma str_has_append: "str_has s p \<Longrightarrow> str_has (u @ s @ v) p"
  unfolding str_has_iff by (metis append.assoc)

lemma str_has_trans: "str_has s p \<Longrightarrow> str_has p q \<Longrightarrow> str_has s q"
  unfolding str_has_iff by (metis append.assoc)

subsection \<open>Lower case\<close>

definition tolower :: "char \<Rightarrow> char" where
  "tolower c = (if 65 \<le> (of_char c :: nat) \<and> (of_char c :: nat) \<le> 90
     then char_of ((of_char c :: nat) + 32) else c)"

definition toLower :: "string \<Rightarrow> string" where
  "toLower s = map tolower s"

lemma tolower_idem [simp]: "tolower (tolower c) = tolower c"
  by (simp add: tolower_def)

lemma toLower_idem [simp]: "toLower (toLower s) = toLower s"
  by (simp add: toLower_def comp_def)

lemma toLower_append [simp]: "toLower (s @ t) = toLower s @ toLower t"
  by (simp add: toLower_def)

lemma toLower_has: "str_has s p \<Longrightarrow> str_has (toLower s) (toLower p)"
  by (metis str_has_iff toLower_append)

subsection \<open>Decimal integers\<close>

definition digit :: "int \<Rightarrow> char" where
  "digit d = char_of (48 + nat d)"

definition is_digit :: "char \<Rightarrow> bool" where
  "is_digit c \<longleftrightarrow> 48 \<le> (of_char c :: nat) \<and> (of_char c :: nat) \<le> 57"

definition digit_val :: "char \<Rightarrow> int" where
  "digit_val c = of_char c - 48"

lemma digit_roundtrip: "0 \<le> d \<Longrightarrow> d < 10 \<Longrightarrow> is_digit (digit d) \<and> digit_val (digit d) = d"
proof -
  assume d: "0 \<le> d" "d < 10"
  then have n: "(of_char (digit d) :: nat) = 48 + nat d" by (simp add: digit_def)
  have "(of_char (digit d) :: int) = of_nat (of_char (digit d))" by (simp add: of_nat_of_char)
  with n d show ?thesis by (simp add: is_digit_def digit_val_def)
qed

function digits :: "int \<Rightarrow> string" where
  "digits n = (if n < 10 then [digit n] else digits (n div 10) @ [digit (n mod 10)])"
  by pat_completeness auto
termination by (relation "measure nat") auto

declare digits.simps [simp del]

definition int_str :: "int \<Rightarrow> string" where
  "int_str n = (if n < 0 then CHR ''-'' # digits (- n) else digits n)"

fun read_digits :: "int \<Rightarrow> string \<Rightarrow> int" where
  "read_digits acc [] = acc"
| "read_digits acc (c # cs) = read_digits (acc * 10 + digit_val c) cs"

lemma read_digits_append: "read_digits a (xs @ ys) = read_digits (read_digits a xs) ys"
  by (induction xs arbitrary: a) auto

lemma digits_ok: "0 \<le> n \<Longrightarrow> list_all is_digit (digits n) \<and> read_digits 0 (digits n) = n \<and> digits n \<noteq> []"
proof (induction n rule: digits.induct)
  case (1 n)
  show ?case
  proof (cases "n < 10")
    case True
    then show ?thesis using digit_roundtrip [of n] "1.prems" by (subst (1 2 3) digits.simps) simp
  next
    case False
    then have IH: "list_all is_digit (digits (n div 10))" "read_digits 0 (digits (n div 10)) = n div 10"
      using "1.IH" "1.prems" by auto
    have "is_digit (digit (n mod 10)) \<and> digit_val (digit (n mod 10)) = n mod 10"
      by (rule digit_roundtrip) auto
    then show ?thesis using False IH by (subst (1 2 3) digits.simps) (auto simp: read_digits_append)
  qed
qed

subsection \<open>std::stoll\<close>

text \<open>White space, an optional sign, at least one digit; what follows the digits is ignored.\<close>

definition is_space :: "char \<Rightarrow> bool" where
  "is_space c \<longleftrightarrow> (of_char c :: nat) = 32 \<or> (9 \<le> (of_char c :: nat) \<and> (of_char c :: nat) \<le> 13)"

fun take_sign :: "string \<Rightarrow> bool \<times> string" where
  "take_sign [] = (False, [])"
| "take_sign (c # cs) = (if c = CHR ''-'' then (True, cs) else if c = CHR ''+'' then (False, cs)
     else (False, c # cs))"

definition in_i64 :: "int \<Rightarrow> bool" where
  "in_i64 n \<longleftrightarrow> - (2 ^ 63) \<le> n \<and> n < 2 ^ 63"

definition stoll :: "string \<Rightarrow> int result" where
  "stoll s = (let (neg, t) = take_sign (dropWhile is_space s); ds = takeWhile is_digit t;
       n = (if neg then - read_digits 0 ds else read_digits 0 ds)
     in if ds = [] then Inl (OtherError ''stoll: invalid_argument'')
        else if in_i64 n then Inr n else Inl (OtherError ''stoll: out_of_range''))"

lemma is_digit_not_space: "is_digit c \<Longrightarrow> \<not> is_space c"
  by (auto simp: is_digit_def is_space_def)

lemma is_digit_not_sign: "is_digit c \<Longrightarrow> c \<noteq> CHR ''-'' \<and> c \<noteq> CHR ''+''"
  by (auto simp: is_digit_def)

lemma takeWhile_digits: "0 \<le> n \<Longrightarrow> takeWhile is_digit (digits n) = digits n"
  using digits_ok [of n] by (auto simp: takeWhile_eq_all_conv list_all_iff)

text \<open>Printing an integer and reading it back, the round trip order ids make.\<close>

lemma stoll_int_str: "in_i64 n \<Longrightarrow> stoll (int_str n) = Inr n"
proof (cases "n < 0")
  case True
  assume r: "in_i64 n"
  have "\<not> is_space (CHR ''-'')" by (simp add: is_space_def)
  with True r show ?thesis
    using digits_ok [of "- n"] by (simp add: stoll_def int_str_def takeWhile_digits)
next
  case False
  assume r: "in_i64 n"
  have n: "0 \<le> n" using False by simp
  obtain c cs where ds: "digits n = c # cs" using digits_ok [OF n] by (cases "digits n") auto
  then have c: "is_digit c" using digits_ok [OF n] by (simp add: list_all_iff)
  have "dropWhile is_space (digits n) = digits n" using is_digit_not_space [OF c] by (simp add: ds)
  moreover have "take_sign (digits n) = (False, digits n)"
    using is_digit_not_sign [OF c] by (simp add: ds)
  ultimately show ?thesis
    using False r digits_ok [OF n]
    by (simp add: stoll_def int_str_def takeWhile_digits [OF n] Let_def)
qed

lemma int_str_inject: "in_i64 m \<Longrightarrow> in_i64 n \<Longrightarrow> int_str m = int_str n \<Longrightarrow> m = n"
  by (metis stoll_int_str sum.inject(2))

subsection \<open>std::stod\<close>

text \<open>
  White space, an optional sign, then a decimal or hexadecimal number, an infinity or a NaN; what
  follows is ignored. The value is the double nearest to the number read. As with glibc, a result
  that overflows, or that is subnormal and inexact, is \<open>out_of_range\<close>.
\<close>

fun digit10 :: "char \<Rightarrow> int option" where
  "digit10 c = (if is_digit c then Some (digit_val c) else None)"

fun digit16 :: "char \<Rightarrow> int option" where
  "digit16 c = (let v = (of_char (tolower c) :: int) in
     if is_digit c then Some (digit_val c) else if 97 \<le> v \<and> v \<le> 102 then Some (v - 87) else None)"

fun take_digits :: "(char \<Rightarrow> int option) \<Rightarrow> string \<Rightarrow> int list \<times> string" where
  "take_digits d [] = ([], [])"
| "take_digits d (c # cs) = (case d c of None \<Rightarrow> ([], c # cs)
     | Some v \<Rightarrow> (case take_digits d cs of (vs, r) \<Rightarrow> (v # vs, r)))"

fun digits_val :: "int \<Rightarrow> int \<Rightarrow> int list \<Rightarrow> int" where
  "digits_val b acc [] = acc"
| "digits_val b acc (v # vs) = digits_val b (acc * b + v) vs"

fun fraction :: "(char \<Rightarrow> int option) \<Rightarrow> string \<Rightarrow> int list \<times> string" where
  "fraction d [] = ([], [])"
| "fraction d (c # cs) = (if c = CHR ''.'' then take_digits d cs else ([], c # cs))"

fun exponent :: "char \<Rightarrow> string \<Rightarrow> int" where
  "exponent e [] = 0"
| "exponent e (c # cs) = (if tolower c = e then
     (case take_sign cs of (neg, r) \<Rightarrow>
        let v = digits_val 10 0 (fst (take_digits digit10 r)) in if neg then - v else v)
     else 0)"

definition number :: "int \<Rightarrow> (char \<Rightarrow> int option) \<Rightarrow> char \<Rightarrow> int \<Rightarrow> string \<Rightarrow> rat option" where
  "number b d e eb t = (case take_digits d t of (ip, r) \<Rightarrow> case fraction d r of (fp, r') \<Rightarrow>
     if ip @ fp = [] then None
     else Some (of_int (digits_val b 0 (ip @ fp)) / of_int b ^ length fp * of_int eb powi exponent e r'))"

definition decimal :: "string \<Rightarrow> rat option" where
  "decimal t = number 10 digit10 (CHR ''e'') 10 t"

definition hexadecimal :: "string \<Rightarrow> rat option" where
  "hexadecimal t = (if prefix ''0x'' (toLower t) then number 16 digit16 (CHR ''p'') 2 (drop 2 t) else None)"

definition checked_double :: "rat \<Rightarrow> flt result" where
  "checked_double q = (case fl q of
     Fin r \<Rightarrow> if r \<noteq> q \<and> \<bar>r\<bar> < pow2 (- 1022) then Inl (OtherError ''stod: out_of_range'') else Inr (Fin r)
   | _ \<Rightarrow> Inl (OtherError ''stod: out_of_range''))"

definition stod :: "string \<Rightarrow> flt result" where
  "stod s = (case take_sign (dropWhile is_space s) of (neg, t) \<Rightarrow>
     if prefix ''inf'' (toLower t) then Inr (Inf neg)
     else if prefix ''nan'' (toLower t) then Inr NaN
     else (case hexadecimal t of
         Some q \<Rightarrow> checked_double (if neg then - q else q)
       | None \<Rightarrow> (case decimal t of
           Some q \<Rightarrow> checked_double (if neg then - q else q)
         | None \<Rightarrow> Inl (OtherError ''stod: invalid_argument''))))"

subsection \<open>std::to_string of a double\<close>

text \<open>Six decimals, correctly rounded, whatever the magnitude.\<close>

fun pad_left :: "nat \<Rightarrow> string \<Rightarrow> string" where
  "pad_left n s = replicate (n - length s) (CHR ''0'') @ s"

definition fixed6 :: "rat \<Rightarrow> rat" where
  "fixed6 x = of_int (rne (x * 1000000)) / 1000000"

fun double_str :: "flt \<Rightarrow> string" where
  "double_str NaN = ''nan''"
| "double_str (Inf neg) = (if neg then ''-inf'' else ''inf'')"
| "double_str (Fin x) = (let n = \<bar>rne (x * 1000000)\<bar> in
     (if x < 0 then ''-'' else []) @ digits (n div 1000000) @ ''.'' @ pad_left 6 (digits (n mod 1000000)))"

text \<open>The same with any number of decimals, as \<open>printf\<close> and \<open>fmt\<close> write \<open>.nf\<close>.\<close>

definition fixed_str :: "int \<Rightarrow> flt \<Rightarrow> string" where
  "fixed_str decimals v = (case v of
     Fin x \<Rightarrow> (let n = nat decimals; m = \<bar>rne (x * 10 ^ n)\<bar> in
       (if x < 0 then ''-'' else []) @ digits (m div 10 ^ n) @
       (if n = 0 then [] else ''.'' @ pad_left n (digits (m mod 10 ^ n))))
   | _ \<Rightarrow> double_str v)"

lemma fixed6_err: "\<bar>fixed6 x - x\<bar> \<le> 1 / 2000000"
proof -
  have "\<bar>of_int (rne (x * 1000000)) - x * 1000000\<bar> \<le> 1 / 2" by (rule rne_err)
  then show ?thesis by (simp add: fixed6_def abs_le_iff field_simps)
qed

lemma fixed6_small: "\<bar>x\<bar> \<le> 1 / 2000000 \<Longrightarrow> fixed6 x = 0"
proof -
  assume x: "\<bar>x\<bar> \<le> 1 / 2000000"
  then have "x * 1000000 \<le> 1 / 2" "- (1 / 2) \<le> x * 1000000" by (simp_all add: abs_le_iff)
  moreover have "rne (1 / 2) = 0" "rne (- (1 / 2)) = 0" by code_simp+
  ultimately have "rne (x * 1000000) = 0"
    using rne_mono [of "x * 1000000" "1 / 2"] rne_mono [of "- (1 / 2)" "x * 1000000"] by linarith
  then show ?thesis by (simp add: fixed6_def)
qed

end
