(* ===== verification/Enums.thy ===== *)
theory Enums
  imports Strings
begin

section \<open>Enumerations and candle intervals\<close>

text \<open>
  The enumerations of \<open>mexc_enums.h\<close> and the conversions of \<open>mexc.cpp\<close>. The enums have a fixed
  underlying type and the sources cast wire integers into them without a check, so a value of such
  an enum can be one that no enumerator names: those are the constructors \<open>\<dots>_unnamed\<close>, and every
  \<open>switch\<close> of the sources meets them in its \<open>default\<close>. The conversions to and from the integer
  are inverse to each other.
\<close>

subsection \<open>Contract state, order sides, types, states, margin and position modes\<close>

datatype ContractState =
    CS_Enabled | CS_Delivery | CS_Completed | CS_Offline | CS_Paused | CS_unnamed int

fun ContractState_of :: "int \<Rightarrow> ContractState" where
  "ContractState_of n = (if n = 0 then CS_Enabled else if n = 1 then CS_Delivery
     else if n = 2 then CS_Completed else if n = 3 then CS_Offline else if n = 4 then CS_Paused
     else CS_unnamed n)"

datatype OrderSide = OpenLong | CloseShort | OpenShort | CloseLong | OSide_unnamed int

fun OrderSide_of :: "int \<Rightarrow> OrderSide" where
  "OrderSide_of n = (if n = 1 then OpenLong else if n = 2 then CloseShort
     else if n = 3 then OpenShort else if n = 4 then CloseLong else OSide_unnamed n)"

fun OrderSide_int :: "OrderSide \<Rightarrow> int" where
  "OrderSide_int OpenLong = 1"
| "OrderSide_int CloseShort = 2"
| "OrderSide_int OpenShort = 3"
| "OrderSide_int CloseLong = 4"
| "OrderSide_int (OSide_unnamed n) = n"

datatype OrderType = OT_Limit | OT_PostOnly | OT_IOC | OT_FOK | OT_Market | OT_MarketToLimit | OT_unnamed int

fun OrderType_of :: "int \<Rightarrow> OrderType" where
  "OrderType_of n = (if n = 1 then OT_Limit else if n = 2 then OT_PostOnly else if n = 3 then OT_IOC
     else if n = 4 then OT_FOK else if n = 5 then OT_Market else if n = 6 then OT_MarketToLimit
     else OT_unnamed n)"

fun OrderType_int :: "OrderType \<Rightarrow> int" where
  "OrderType_int OT_Limit = 1"
| "OrderType_int OT_PostOnly = 2"
| "OrderType_int OT_IOC = 3"
| "OrderType_int OT_FOK = 4"
| "OrderType_int OT_Market = 5"
| "OrderType_int OT_MarketToLimit = 6"
| "OrderType_int (OT_unnamed n) = n"

datatype MarginType = Isolated | Cross | MT_unnamed int

fun MarginType_of :: "int \<Rightarrow> MarginType" where
  "MarginType_of n = (if n = 1 then Isolated else if n = 2 then Cross else MT_unnamed n)"

fun MarginType_int :: "MarginType \<Rightarrow> int" where
  "MarginType_int Isolated = 1"
| "MarginType_int Cross = 2"
| "MarginType_int (MT_unnamed n) = n"

datatype OrderState = OS_New | OS_Uncompleted | OS_Completed | OS_Cancelled | OS_Invalid | OS_unnamed int

fun OrderState_of :: "int \<Rightarrow> OrderState" where
  "OrderState_of n = (if n = 1 then OS_New else if n = 2 then OS_Uncompleted
     else if n = 3 then OS_Completed else if n = 4 then OS_Cancelled else if n = 5 then OS_Invalid
     else OS_unnamed n)"

datatype PositionMode = Hedge | OneWay | PM_unnamed int

fun PositionMode_of :: "int \<Rightarrow> PositionMode" where
  "PositionMode_of n = (if n = 1 then Hedge else if n = 2 then OneWay else PM_unnamed n)"

fun PositionMode_int :: "PositionMode \<Rightarrow> int" where
  "PositionMode_int Hedge = 1"
| "PositionMode_int OneWay = 2"
| "PositionMode_int (PM_unnamed n) = n"

lemma enum_int_roundtrip [simp]:
  "OrderSide_int (OrderSide_of n) = n" "OrderType_int (OrderType_of n) = n"
  "MarginType_int (MarginType_of n) = n" "PositionMode_int (PositionMode_of n) = n"
  by simp_all

text \<open>A cast to \<open>std::int32_t\<close> keeps the low 32 bits, as two's complement.\<close>

definition to_i32 :: "int \<Rightarrow> int" where
  "to_i32 n = (n + 2 ^ 31) mod 2 ^ 32 - 2 ^ 31"

lemma to_i32_range: "- (2 ^ 31) \<le> to_i32 n \<and> to_i32 n < 2 ^ 31"
  using pos_mod_bound [of "2 ^ 32" "n + 2 ^ 31"] pos_mod_sign [of "2 ^ 32" "n + 2 ^ 31"]
  by (simp add: to_i32_def)

lemma to_i32_id: "- (2 ^ 31) \<le> n \<Longrightarrow> n < 2 ^ 31 \<Longrightarrow> to_i32 n = n"
  by (simp add: to_i32_def)

subsection \<open>Candle intervals\<close>

datatype CandleInterval =
    I_1m | I_5m | I_15m | I_30m | I_60m | I_4h | I_8h | I_1d | I_1W | I_1M | I_unnamed int

fun CandleInterval_int :: "CandleInterval \<Rightarrow> int" where
  "CandleInterval_int I_1m = 0"
| "CandleInterval_int I_5m = 1"
| "CandleInterval_int I_15m = 2"
| "CandleInterval_int I_30m = 3"
| "CandleInterval_int I_60m = 4"
| "CandleInterval_int I_4h = 5"
| "CandleInterval_int I_8h = 6"
| "CandleInterval_int I_1d = 7"
| "CandleInterval_int I_1W = 8"
| "CandleInterval_int I_1M = 9"
| "CandleInterval_int (I_unnamed n) = n"

text \<open>The names magic_enum is customised to: the futures API's interval strings.\<close>

fun CandleInterval_name :: "CandleInterval \<Rightarrow> string option" where
  "CandleInterval_name I_1m = Some ''Min1''"
| "CandleInterval_name I_5m = Some ''Min5''"
| "CandleInterval_name I_15m = Some ''Min15''"
| "CandleInterval_name I_30m = Some ''Min30''"
| "CandleInterval_name I_60m = Some ''Min60''"
| "CandleInterval_name I_4h = Some ''Hour4''"
| "CandleInterval_name I_8h = Some ''Hour8''"
| "CandleInterval_name I_1d = Some ''Day1''"
| "CandleInterval_name I_1W = Some ''Week1''"
| "CandleInterval_name I_1M = Some ''Month1''"
| "CandleInterval_name (I_unnamed n) = None"

fun numberOfMsForCandleInterval :: "CandleInterval \<Rightarrow> int" where
  "numberOfMsForCandleInterval I_1m = 60000"
| "numberOfMsForCandleInterval I_5m = 60000 * 5"
| "numberOfMsForCandleInterval I_15m = 60000 * 15"
| "numberOfMsForCandleInterval I_30m = 60000 * 30"
| "numberOfMsForCandleInterval I_60m = 60000 * 60"
| "numberOfMsForCandleInterval I_4h = 60000 * 240"
| "numberOfMsForCandleInterval I_8h = 60000 * 480"
| "numberOfMsForCandleInterval I_1d = 86400000"
| "numberOfMsForCandleInterval I_1W = 86400000 * 7"
| "numberOfMsForCandleInterval I_1M = 86400000 * 30"
| "numberOfMsForCandleInterval (I_unnamed n) = 0"

fun candleIntervalToSpotString :: "CandleInterval \<Rightarrow> string" where
  "candleIntervalToSpotString I_1m = ''1m''"
| "candleIntervalToSpotString I_5m = ''5m''"
| "candleIntervalToSpotString I_15m = ''15m''"
| "candleIntervalToSpotString I_30m = ''30m''"
| "candleIntervalToSpotString I_60m = ''60m''"
| "candleIntervalToSpotString I_4h = ''4h''"
| "candleIntervalToSpotString I_8h = ''8h''"
| "candleIntervalToSpotString I_1d = ''1d''"
| "candleIntervalToSpotString I_1W = ''1W''"
| "candleIntervalToSpotString I_1M = ''1M''"
| "candleIntervalToSpotString (I_unnamed n) = ''''"

definition named_interval :: "CandleInterval \<Rightarrow> bool" where
  "named_interval i \<longleftrightarrow> CandleInterval_name i \<noteq> None"

lemma named_interval_simps [simp]:
  "named_interval I_1m" "named_interval I_5m" "named_interval I_15m" "named_interval I_30m"
  "named_interval I_60m" "named_interval I_4h" "named_interval I_8h" "named_interval I_1d"
  "named_interval I_1W" "named_interval I_1M" "\<not> named_interval (I_unnamed n)"
  by (simp_all add: named_interval_def)

lemma numberOfMs_pos: "named_interval i \<Longrightarrow> 60000 \<le> numberOfMsForCandleInterval i"
  by (cases i) simp_all

end
