(* ===== verification/Json.thy ===== *)
theory Json
  imports Enums
begin

section \<open>JSON values and the operations of the JSON libraries\<close>

text \<open>
  The sources hold JSON as \<open>nlohmann::json\<close> values and read them with that library and with the
  \<open>readValue\<close> family of stonky-cpp-common, a submodule that is not under src/. The values
  are a datatype with the kinds the sources test for: null, boolean, integer number, floating
  number, string, array and object. An object is a list of entries sorted by key, as the
  library's \<open>std::map\<close> keeps it, so that equality of values is equality of terms.
  \<^item> The structural tests (\<open>is_object\<close>, \<open>contains\<close>, \<open>find\<close>, iteration) are functions on the datatype.
  \<^item> Everything else is a parameter, the record \<open>jlib\<close>: \<open>parse\<close> and \<open>dump\<close>, the typed reads
    \<open>get<T>\<close>, \<open>readValue<T>\<close> (which gets the current value of the field and returns the new one, or
    throws), \<open>readDecimalValue\<close>, and the decimal and number formatting of Boost and fmt.
    A theorem that depends on what one of them does says so in a hypothesis.
  \<^item> \<open>std_jlib\<close> is one concrete library, with the documented behaviour on the reads the
    witnesses make; no theorem other than a witness is about it.
\<close>

datatype json =
    JNull
  | JBool bool
  | JInt int
  | JFloat flt
  | JStr string
  | JArr "json list"
  | JObj "(string \<times> json) list"

fun is_object :: "json \<Rightarrow> bool" where
  "is_object (JObj es) = True"
| "is_object j = False"

fun is_array :: "json \<Rightarrow> bool" where
  "is_array (JArr xs) = True"
| "is_array j = False"

fun is_string :: "json \<Rightarrow> bool" where
  "is_string (JStr s) = True"
| "is_string j = False"

fun is_boolean :: "json \<Rightarrow> bool" where
  "is_boolean (JBool b) = True"
| "is_boolean j = False"

fun is_number_integer :: "json \<Rightarrow> bool" where
  "is_number_integer (JInt n) = True"
| "is_number_integer j = False"

fun is_number :: "json \<Rightarrow> bool" where
  "is_number (JInt n) = True"
| "is_number (JFloat x) = True"
| "is_number j = False"

fun elements :: "json \<Rightarrow> json list" where
  "elements (JArr xs) = xs"
| "elements (JObj es) = map snd es"
| "elements JNull = []"
| "elements j = [j]"

text \<open>\<open>find\<close>, \<open>contains\<close> and \<open>empty\<close> on a value that is not an object find nothing.\<close>

fun jfind :: "json \<Rightarrow> string \<Rightarrow> json option" where
  "jfind (JObj es) k = map_of es k"
| "jfind j k = None"

definition jcontains :: "json \<Rightarrow> string \<Rightarrow> bool" where
  "jcontains j k \<longleftrightarrow> jfind j k \<noteq> None"

fun jempty :: "json \<Rightarrow> bool" where
  "jempty JNull = True"
| "jempty (JArr xs) = (xs = [])"
| "jempty (JObj es) = (es = [])"
| "jempty j = False"

text \<open>\<open>j[k] = v\<close> on an object (or on null, which becomes an object) keeps the keys sorted.\<close>

fun put :: "string \<Rightarrow> 'v \<Rightarrow> (string \<times> 'v) list \<Rightarrow> (string \<times> 'v) list" where
  "put k v [] = [(k, v)]"
| "put k v ((k', v') # es) =
     (if k = k' then (k, v) # es else if k < k' then (k, v) # (k', v') # es else (k', v') # put k v es)"

fun jset :: "string \<Rightarrow> json \<Rightarrow> json \<Rightarrow> json" where
  "jset k v (JObj es) = JObj (put k v es)"
| "jset k v j = JObj [(k, v)]"

definition obj_sorted :: "(string \<times> 'v) list \<Rightarrow> bool" where
  "obj_sorted es \<longleftrightarrow> sorted_wrt (<) (map fst es)"

lemma map_of_put: "obj_sorted es \<Longrightarrow> map_of (put k v es) = (map_of es)(k \<mapsto> v)"
proof (induction es)
  case (Cons e es)
  obtain k' v' where e: "e = (k', v')" by fastforce
  have "obj_sorted es" using Cons.prems by (simp add: obj_sorted_def)
  with Cons.IH have IH: "map_of (put k v es) = (map_of es)(k \<mapsto> v)" .
  show ?case using IH by (auto simp: e fun_upd_twist)
qed simp

lemma put_keys: "fst ` set (put k v es) = insert k (fst ` set es)"
proof (induction k v es rule: put.induct)
  case (2 k v k' v' es)
  then show ?case by (cases "k = k'"; cases "k < k'") (simp_all add: insert_commute)
qed simp

lemma obj_sorted_put: "obj_sorted es \<Longrightarrow> obj_sorted (put k v es)"
proof (induction es)
  case (Cons e es)
  obtain k' v' where e: "e = (k', v')" by fastforce
  have sub: "obj_sorted es" and lt: "\<forall>x \<in> fst ` set es. k' < x"
    using Cons.prems by (auto simp: obj_sorted_def e)
  consider "k = k'" | "k < k'" | "k' < k" by (meson linorder_neqE)
  then show ?case
  proof cases
    case 3
    have "\<forall>x \<in> fst ` set (put k v es). k' < x" using lt 3 by (simp add: put_keys)
    moreover have "k \<noteq> k'" "\<not> k < k'" using 3 by auto
    ultimately show ?thesis using Cons.IH [OF sub] by (simp add: e obj_sorted_def)
  qed (use Cons.prems in \<open>auto simp: e obj_sorted_def\<close>)
qed (simp add: obj_sorted_def)

subsection \<open>The library operations the model takes as a parameter\<close>

record jlib =
  parse :: "string \<Rightarrow> json result"
  dump :: "json \<Rightarrow> string"
  get_i64 :: "json \<Rightarrow> int result"
  get_i32 :: "json \<Rightarrow> int result"
  get_dbl :: "json \<Rightarrow> flt result"
  get_str :: "json \<Rightarrow> string result"
  get_bool :: "json \<Rightarrow> bool result"
  rd_str :: "json \<Rightarrow> string \<Rightarrow> string \<Rightarrow> string result"
  rd_i64 :: "json \<Rightarrow> string \<Rightarrow> int \<Rightarrow> int result"
  rd_i32 :: "json \<Rightarrow> string \<Rightarrow> int \<Rightarrow> int result"
  rd_dbl :: "json \<Rightarrow> string \<Rightarrow> flt \<Rightarrow> flt result"
  rd_bool :: "json \<Rightarrow> string \<Rightarrow> bool \<Rightarrow> bool result"
  rd_dec :: "json \<Rightarrow> string \<Rightarrow> rat result"
  rd_interval :: "json \<Rightarrow> string \<Rightarrow> CandleInterval \<Rightarrow> CandleInterval result"
  dec_assign :: "string \<Rightarrow> rat result"
  fmt_dbl :: "flt \<Rightarrow> string"
  fmt_fixed :: "int \<Rightarrow> flt \<Rightarrow> string"

definition rd_field :: "(json \<Rightarrow> 'a result) \<Rightarrow> json \<Rightarrow> string \<Rightarrow> 'a \<Rightarrow> 'a result" where
  "rd_field get j k cur = (case jfind j k of None \<Rightarrow> Inr cur | Some JNull \<Rightarrow> Inr cur | Some v \<Rightarrow> get v)"

definition type_error :: "'a result" where
  "type_error = Inl (OtherError ''json.exception.type_error'')"

fun std_i64 :: "json \<Rightarrow> int result" where
  "std_i64 (JInt n) = Inr n"
| "std_i64 j = type_error"

fun std_dbl :: "json \<Rightarrow> flt result" where
  "std_dbl (JInt n) = Inr (fl (of_int n))"
| "std_dbl (JFloat x) = Inr x"
| "std_dbl j = type_error"

fun std_str :: "json \<Rightarrow> string result" where
  "std_str (JStr s) = Inr s"
| "std_str j = type_error"

fun std_bool :: "json \<Rightarrow> bool result" where
  "std_bool (JBool b) = Inr b"
| "std_bool j = type_error"

definition std_jlib :: jlib where
  "std_jlib = \<lparr>parse = (\<lambda>s. type_error), dump = (\<lambda>j. ''''),
     get_i64 = std_i64, get_i32 = (\<lambda>j. rmap to_i32 (std_i64 j)), get_dbl = std_dbl, get_str = std_str, get_bool = std_bool,
     rd_str = rd_field std_str, rd_i64 = rd_field std_i64,
     rd_i32 = rd_field (\<lambda>j. rmap to_i32 (std_i64 j)), rd_dbl = rd_field std_dbl,
     rd_bool = rd_field std_bool, rd_dec = (\<lambda>j k. Inr 0), rd_interval = (\<lambda>j k cur. Inr cur),
     dec_assign = (\<lambda>s. Inr 0), fmt_dbl = double_str, fmt_fixed = fixed_str\<rparr>"

lemmas std_jlib_simps = std_jlib_def rd_field_def jcontains_def

subsection \<open>Reading an object field by field\<close>

text \<open>
  A \<open>fromJson\<close> reads its fields one after the other into the object it is called on; a read that
  throws leaves the fields before it updated and the rest as they were. A reader therefore returns
  the exception, if any, together with the object.
\<close>

type_synonym 'r reader = "'r \<Rightarrow> exn option \<times> 'r"

definition field :: "('a \<Rightarrow> 'a result) \<Rightarrow> ('r \<Rightarrow> 'a) \<Rightarrow> (('a \<Rightarrow> 'a) \<Rightarrow> 'r \<Rightarrow> 'r) \<Rightarrow> 'r reader" where
  "field rd sel upd r = (case rd (sel r) of Inl e \<Rightarrow> (Some e, r) | Inr v \<Rightarrow> (None, upd (\<lambda>_. v) r))"

fun run_reads :: "'r reader list \<Rightarrow> 'r reader" where
  "run_reads [] r = (None, r)"
| "run_reads (f # fs) r = (case f r of (None, r') \<Rightarrow> run_reads fs r' | (Some e, r') \<Rightarrow> (Some e, r'))"

definition fresh :: "'r reader \<Rightarrow> 'r \<Rightarrow> 'r result" where
  "fresh f r = (case f r of (None, r') \<Rightarrow> Inr r' | (Some e, r') \<Rightarrow> Inl e)"

lemma run_reads_append:
  "run_reads (fs @ gs) r = (case run_reads fs r of (None, r') \<Rightarrow> run_reads gs r' | (Some e, r') \<Rightarrow> (Some e, r'))"
  by (induction fs arbitrary: r) (auto split: prod.splits option.splits)

text \<open>An invariant every reader keeps holds afterwards, also when a read threw half way.\<close>

lemma run_reads_inv:
  "(\<And>f r. f \<in> set fs \<Longrightarrow> P r \<Longrightarrow> P (snd (f r))) \<Longrightarrow> P r \<Longrightarrow> P (snd (run_reads fs r))"
proof (induction fs arbitrary: r)
  case (Cons f fs)
  have "P (snd (f r))" using Cons.prems by auto
  then show ?case using Cons.IH Cons.prems(1) by (auto split: prod.splits option.splits)
qed simp

lemma field_ok: "rd (sel r) = Inr v \<Longrightarrow> field rd sel upd r = (None, upd (\<lambda>_. v) r)"
  by (simp add: field_def)


text \<open>
  \<open>j[i]\<close> and \<open>j[key]\<close> on a const value: a wrong kind throws, an index or key that is not there is
  undefined behaviour. The model makes that an error of its own, so that a theorem about a result
  never rests on it.
\<close>

definition undefined_behaviour :: "'a result" where
  "undefined_behaviour = Inl (OtherError ''undefined behaviour'')"

fun jindex :: "json \<Rightarrow> nat \<Rightarrow> json result" where
  "jindex (JArr xs) i = (if i < length xs then Inr (xs ! i) else undefined_behaviour)"
| "jindex j i = type_error"

fun jat :: "json \<Rightarrow> string \<Rightarrow> json result" where
  "jat (JObj es) k = (case map_of es k of Some v \<Rightarrow> Inr v | None \<Rightarrow> undefined_behaviour)"
| "jat j k = type_error"

fun jsize :: "json \<Rightarrow> nat" where
  "jsize (JArr xs) = length xs"
| "jsize (JObj es) = length es"
| "jsize JNull = 0"
| "jsize j = 1"

text \<open>A loop that parses each item and appends it to a vector member.\<close>

fun read_list :: "('j \<Rightarrow> 'e result) \<Rightarrow> (('e list \<Rightarrow> 'e list) \<Rightarrow> 'r \<Rightarrow> 'r) \<Rightarrow> 'j list \<Rightarrow> 'r reader" where
  "read_list rd upd [] r = (None, r)"
| "read_list rd upd (x # xs) r = (case rd x of Inl e \<Rightarrow> (Some e, r)
     | Inr v \<Rightarrow> read_list rd upd xs (upd (\<lambda>l. l @ [v]) r))"

text \<open>A conversion that a model declares and does not provide.\<close>

definition unimplemented :: "string \<Rightarrow> 'a result" where
  "unimplemented msg = Inl (RuntimeError msg)"

end
