(* ===== verification/Http_Session.thy ===== *)
theory Http_Session
  imports Json
begin

section \<open>The HTTPS session of the futures REST client\<close>

text \<open>
  \<open>HTTPSession\<close> of \<open>mexc_http_futures_session.cpp\<close>: the pool of keep-alive connections, the query
  string, the OpenAPI signature, and the retry loop every request goes through.

  The network, the clocks and the limiter hook are a parameter (\<open>net\<close>): functions on a world \<open>'w\<close>.
  \<open>connect\<close> is the body of \<open>freshConn\<close> (resolve, connect, TLS handshake; \<open>Tls\<close> puts it together), \<open>exchange\<close> the pair
  \<open>http::write\<close> and \<open>http::read\<close>, \<open>hmac_hex\<close> OpenSSL's HMAC-SHA256 with
  \<open>stringToHex\<close>, \<open>user_agent\<close> the version string of Boost.Beast. An action
  returns its result together with what it did on the way (\<open>ev\<close>), oldest first, so that theorems can
  speak of the requests that went out.
\<close>

subsection \<open>Requests, responses, the outside world\<close>

datatype verb = GET | POST | PUT | DELETE

record http_request =
  rq_method :: verb
  rq_target :: string
  rq_headers :: "(string \<times> string) list"
  rq_body :: string

record http_response =
  rs_status :: int
  rs_body :: string
  rs_keep_alive :: bool

definition set_header :: "string \<Rightarrow> string \<Rightarrow> http_request \<Rightarrow> http_request" where
  "set_header k v req = req\<lparr>rq_headers := filter (\<lambda>(k', _). k' \<noteq> k) (rq_headers req) @ [(k, v)]\<rparr>"

definition header :: "http_request \<Rightarrow> string \<Rightarrow> string option" where
  "header q k = map_of (rq_headers q) k"

lemma header_set [simp]: "header (set_header k v q) k' = (if k' = k then Some v else header q k')"
proof -
  have "map_of (filter (\<lambda>(k', _). k' \<noteq> k) hs @ [(k, v)]) k' = (if k' = k then Some v else map_of hs k')" for hs
    by (induction hs) (auto split: prod.splits)
  then show ?thesis by (simp add: header_def set_header_def)
qed

record ('c, 'w) net =
  connect :: "'w \<Rightarrow> 'c result \<times> 'w"
  exchange :: "'c \<Rightarrow> http_request \<Rightarrow> 'w \<Rightarrow> http_response result \<times> 'w"
  steady_now :: "'w \<Rightarrow> int \<times> 'w"
  wall_ms :: "'w \<Rightarrow> int \<times> 'w"
  sleep_ms :: "int \<Rightarrow> 'w \<Rightarrow> 'w"
  limiter_wait :: "'w \<Rightarrow> 'w"
  user_agent :: string
  hmac_hex :: "string \<Rightarrow> string \<Rightarrow> string"

datatype ev =
    Slot
  | Connected bool
  | Sent http_request
  | Reply http_response
  | Lost
  | Slept int

record http_config =
  apiKey :: string
  apiSecret :: string
  uri :: string
  retryPacingHook :: bool

text \<open>
  \<open>retryPacingHook\<close> tells whether the hook is set; the only hook the sources install is
  \<open>sharedRateLimiter().wait()\<close>, and \<open>Slot\<close> records that it took a limiter slot.
\<close>

record 'c conn =
  stream :: 'c
  lastUsed :: int

record ('c, 'w) http_state =
  pool :: "'c conn list"
  world :: 'w

type_synonym ('a, 'c, 'w) action = "('c, 'w) http_state \<Rightarrow> 'a result \<times> ev list \<times> ('c, 'w) http_state"

subsection \<open>The connection pool\<close>

definition maxConnIdle :: int where
  "maxConnIdle = secs 25"

definition maxPoolSize :: nat where
  "maxPoolSize = 4"

function takeConn :: "int \<Rightarrow> 'c conn list \<Rightarrow> 'c conn option \<times> 'c conn list" where
  "takeConn now conns =
    (if conns = [] then (None, [])
     else if now - lastUsed (last conns) \<le> maxConnIdle then (Some (last conns), butlast conns)
     else takeConn now (butlast conns))"
  by pat_completeness auto

termination by (relation "measure (\<lambda>(now, conns). length conns)") auto

declare takeConn.simps [simp del]

definition returnConn :: "int \<Rightarrow> 'c \<Rightarrow> 'c conn list \<Rightarrow> 'c conn list" where
  "returnConn now c conns =
    (if length conns < maxPoolSize then conns @ [\<lparr>stream = c, lastUsed = now\<rparr>] else conns)"

subsection \<open>Query string, signature, authentication\<close>

text \<open>Parameters are a \<open>std::map\<close>: the entries in key order.\<close>

definition createQueryStr :: "(string \<times> string) list \<Rightarrow> string" where
  "createQueryStr parameters =
    (let queryStr = concat (map (\<lambda>(k, v). k @ ''='' @ v @ ''&'') parameters)
     in if queryStr = [] then [] else butlast queryStr)"

definition sign :: "('c, 'w) net \<Rightarrow> http_config \<Rightarrow> string \<Rightarrow> string \<Rightarrow> string" where
  "sign N cfg payload timestamp = hmac_hex N (apiSecret cfg) (apiKey cfg @ timestamp @ payload)"

definition authenticate :: "('c, 'w) net \<Rightarrow> http_config \<Rightarrow> string \<Rightarrow> int \<Rightarrow> http_request \<Rightarrow> http_request" where
  "authenticate N cfg payload now req =
    (let ts = int_str now
     in set_header ''Signature'' (sign N cfg payload ts)
       (set_header ''Request-Time'' ts
       (set_header ''Content-Type'' ''application/json''
       (set_header ''ApiKey'' (apiKey cfg) req))))"

definition authenticateGet ::
  "('c, 'w) net \<Rightarrow> http_config \<Rightarrow> (string \<times> string) list \<Rightarrow> int \<Rightarrow> http_request \<Rightarrow> http_request" where
  "authenticateGet N cfg parameters = authenticate N cfg (createQueryStr parameters)"

definition authenticatePost :: "('c, 'w) net \<Rightarrow> http_config \<Rightarrow> string \<Rightarrow> int \<Rightarrow> http_request \<Rightarrow> http_request" where
  "authenticatePost N cfg jsonBody = authenticate N cfg jsonBody"

subsection \<open>One attempt\<close>

record attempt =
  requestSent :: bool
  usedPooledConn :: bool
  outcome :: "http_response result"
  did :: "ev list"

definition performOnce ::
  "('c, 'w) net \<Rightarrow> http_request \<Rightarrow> ('c, 'w) http_state \<Rightarrow> attempt \<times> ('c, 'w) http_state" where
  "performOnce N req s =
    (case steady_now N (world s) of (now, w0) \<Rightarrow>
     case takeConn now (pool s) of (pooled, conns) \<Rightarrow>
     case (case pooled of
         Some cn \<Rightarrow> (Inr (stream cn), [], w0)
       | None \<Rightarrow> (case connect N w0 of (r, w) \<Rightarrow> (r, [Connected (\<not> isl r)], w))) of
       (Inl e, es, w1) \<Rightarrow>
         (\<lparr>requestSent = False, usedPooledConn = False, outcome = Inl e, did = es\<rparr>,
          \<lparr>pool = conns, world = w1\<rparr>)
     | (Inr c, es, w1) \<Rightarrow>
         (case exchange N c req w1 of
            (Inl e, w2) \<Rightarrow>
              (\<lparr>requestSent = True, usedPooledConn = pooled \<noteq> None, outcome = Inl e, did = es @ [Sent req, Lost]\<rparr>,
               \<lparr>pool = conns, world = w2\<rparr>)
          | (Inr response, w2) \<Rightarrow>
              (case (if rs_keep_alive response
                     then (case steady_now N w2 of (now', w) \<Rightarrow> (returnConn now' c conns, w))
                     else (conns, w2)) of (conns', w3) \<Rightarrow>
              (\<lparr>requestSent = True, usedPooledConn = pooled \<noteq> None, outcome = Inr response,
                 did = es @ [Sent req, Reply response]\<rparr>,
               \<lparr>pool = conns', world = w3\<rparr>))))"

subsection \<open>The retry loop\<close>

definition MAX_RETRIES :: nat where
  "MAX_RETRIES = 4"

definition throttled :: "http_response \<Rightarrow> bool" where
  "throttled response \<longleftrightarrow>
     str_has (rs_body response) ''\"code\":510'' \<or> str_has (rs_body response) ''\"code\": 510''"

text \<open>
  \<open>reauth\<close> is the closure that refreshes the authentication headers, given the wall clock; a public
  GET has none.
\<close>

type_synonym reauth = "(int \<Rightarrow> http_request \<Rightarrow> http_request) option"

definition prepare_retry ::
  "('c, 'w) net \<Rightarrow> http_config \<Rightarrow> reauth \<Rightarrow> nat \<Rightarrow> http_request \<Rightarrow> ('c, 'w) http_state \<Rightarrow>
   http_request \<times> ev list \<times> ('c, 'w) http_state" where
  "prepare_retry N cfg reauth attempt req s =
    (if attempt = 0 then (req, [], s)
     else
       let (es, w) = (if retryPacingHook cfg then ([Slot], limiter_wait N (world s)) else ([], world s))
       in case reauth of
            None \<Rightarrow> (req, es, s\<lparr>world := w\<rparr>)
          | Some f \<Rightarrow> (case wall_ms N w of (now, w') \<Rightarrow> (f now req, es, s\<lparr>world := w'\<rparr>)))"

definition pause ::
  "('c, 'w) net \<Rightarrow> int \<Rightarrow> ('c, 'w) http_state \<Rightarrow> ('c, 'w) http_state" where
  "pause N d s = s\<lparr>world := sleep_ms N d (world s)\<rparr>"

definition after :: "ev list \<Rightarrow> 'a \<times> ev list \<times> 's \<Rightarrow> 'a \<times> ev list \<times> 's" where
  "after es r = (case r of (a, es', s) \<Rightarrow> (a, es @ es', s))"

function request_loop ::
  "('c, 'w) net \<Rightarrow> http_config \<Rightarrow> reauth \<Rightarrow> nat \<Rightarrow> bool \<Rightarrow> http_request \<Rightarrow> (http_response, 'c, 'w) action" where
  "request_loop N cfg reauth attempt staleConnRetried req s =
    (case prepare_retry N cfg reauth attempt req s of (req', es, s1) \<Rightarrow>
     case performOnce N req' s1 of (a, s2) \<Rightarrow>
     case outcome a of
       Inr response \<Rightarrow>
         if \<not> throttled response \<or> attempt \<ge> MAX_RETRIES then (Inr response, es @ did a, s2)
         else let pauseMs = 700 * 2 ^ attempt
           in after (es @ did a @ [Slept pauseMs])
                (request_loop N cfg reauth (attempt + 1) staleConnRetried req' (pause N pauseMs s2))
     | Inl e \<Rightarrow>
         if requestSent a \<and> usedPooledConn a \<and> rq_method req' = GET \<and> \<not> staleConnRetried then
           after (es @ did a) (request_loop N cfg reauth (attempt + 1) True req' s2)
         else if requestSent a \<or> attempt \<ge> MAX_RETRIES then (Inl e, es @ did a, s2)
         else let pauseMs = 500 * 2 ^ attempt
           in after (es @ did a @ [Slept pauseMs])
                (request_loop N cfg reauth (attempt + 1) staleConnRetried req' (pause N pauseMs s2)))"
  by pat_completeness auto

termination
  by (relation "measure (\<lambda>(N, cfg, reauth, attempt, stale, req, s). (MAX_RETRIES - attempt) + (if stale then 0 else 1))")
    auto

declare request_loop.simps [simp del]

definition request ::
  "('c, 'w) net \<Rightarrow> http_config \<Rightarrow> reauth \<Rightarrow> http_request \<Rightarrow> (http_response, 'c, 'w) action" where
  "request N cfg reauth req =
     request_loop N cfg reauth 0 False
       (set_header ''User-Agent'' (user_agent N) (set_header ''Host'' (uri cfg) req))"

subsection \<open>The two methods\<close>

definition methodGet ::
  "('c, 'w) net \<Rightarrow> http_config \<Rightarrow> string \<Rightarrow> (string \<times> string) list \<Rightarrow> bool \<Rightarrow> (http_response, 'c, 'w) action" where
  "methodGet N cfg path parameters isPublic s =
    (let queryString = createQueryStr parameters;
         finalPath = (if queryString = [] then path else path @ ''?'' @ queryString);
         req = \<lparr>rq_method = GET, rq_target = finalPath, rq_headers = [], rq_body = []\<rparr>
     in if isPublic then request N cfg None req s
        else case wall_ms N (world s) of (now, w) \<Rightarrow>
          request N cfg (Some (authenticateGet N cfg parameters)) (authenticateGet N cfg parameters now req)
            (s\<lparr>world := w\<rparr>))"

definition methodPost ::
  "('c, 'w) net \<Rightarrow> http_config \<Rightarrow> string \<Rightarrow> string \<Rightarrow> (http_response, 'c, 'w) action" where
  "methodPost N cfg path jsonBody s =
    (let req = \<lparr>rq_method = POST, rq_target = path,
           rq_headers = [(''Content-Type'', ''application/json''), (''Content-Length'', int_str (int (length jsonBody)))],
           rq_body = jsonBody\<rparr>
     in case wall_ms N (world s) of (now, w) \<Rightarrow>
          request N cfg (Some (authenticatePost N cfg jsonBody)) (authenticatePost N cfg jsonBody now req)
            (s\<lparr>world := w\<rparr>))"

subsection \<open>What the pool hands out\<close>

lemma takeConn_spec:
  "takeConn now conns = (r, rest) \<Longrightarrow>
    (case r of
       Some c \<Rightarrow> now - lastUsed c \<le> maxConnIdle \<and>
         (\<exists>dropped. conns = rest @ c # dropped \<and> (\<forall>d \<in> set dropped. maxConnIdle < now - lastUsed d))
     | None \<Rightarrow> rest = [] \<and> (\<forall>d \<in> set conns. maxConnIdle < now - lastUsed d))"
proof (induction now conns rule: takeConn.induct)
  case (1 now conns)
  show ?case
  proof (cases "conns = [] \<or> now - lastUsed (last conns) \<le> maxConnIdle")
    case True
    have "\<exists>dropped. conns = butlast conns @ last conns # dropped \<and> (\<forall>d \<in> set dropped. maxConnIdle < now - lastUsed d)"
      if "conns \<noteq> []" using that by (intro exI [of _ "[]"]) simp
    then show ?thesis
      using "1.prems" True by (auto simp: takeConn.simps [of now conns] split: if_splits)
  next
    case False
    then have rest: "takeConn now (butlast conns) = (r, rest)" and ne: "conns \<noteq> []"
      using "1.prems" by (simp_all add: takeConn.simps [of now conns])
    note IH = "1.IH" [OF ne _ rest]
    have conns: "conns = butlast conns @ [last conns]" using ne by simp
    have old: "maxConnIdle < now - lastUsed (last conns)" using False by simp
    show ?thesis
    proof (cases r)
      case None
      have "\<forall>d \<in> set (butlast conns). maxConnIdle < now - lastUsed d" and "rest = []"
        using IH False None by auto
      moreover have "set conns = insert (last conns) (set (butlast conns))"
        by (subst conns) simp
      ultimately show ?thesis using None old by simp
    next
      case (Some c)
      obtain dropped where d: "butlast conns = rest @ c # dropped" "\<forall>d \<in> set dropped. maxConnIdle < now - lastUsed d"
        and young: "now - lastUsed c \<le> maxConnIdle"
        using IH False Some by auto
      have "conns = rest @ c # (dropped @ [last conns])" using conns d(1) by simp
      moreover have "\<forall>d \<in> set (dropped @ [last conns]). maxConnIdle < now - lastUsed d" using d(2) old by auto
      ultimately have "\<exists>dropped. conns = rest @ c # dropped \<and> (\<forall>d \<in> set dropped. maxConnIdle < now - lastUsed d)"
        by blast
      then show ?thesis using young Some by simp
    qed
  qed
qed

lemma takeConn_length: "takeConn now conns = (r, rest) \<Longrightarrow> length rest \<le> length conns"
  using takeConn_spec [of now conns r rest] by (auto split: option.splits)

lemma returnConn_length: "length conns \<le> maxPoolSize \<Longrightarrow> length (returnConn now c conns) \<le> maxPoolSize"
  by (simp add: returnConn_def)

subsection \<open>The shape of one attempt\<close>

definition opens :: "ev list \<Rightarrow> bool" where
  "opens pre \<longleftrightarrow> pre = [] \<or> pre = [Connected True]"

lemma opens_simps [simp]: "opens []" "opens [Connected True]"
  by (simp_all add: opens_def)

lemma performOnce_cases:
  assumes "performOnce N req s = (a, s')"
  obtains (unreachable) e where "requestSent a = False" "outcome a = Inl e" "did a = [Connected False]"
  | (lost) pre e where "opens pre" "requestSent a" "usedPooledConn a \<longleftrightarrow> pre = []"
      "outcome a = Inl e" "did a = pre @ [Sent req, Lost]"
  | (answered) pre r where "opens pre" "requestSent a"
      "outcome a = Inr r" "did a = pre @ [Sent req, Reply r]"
proof -
  obtain now w0 where t: "steady_now N (world s) = (now, w0)" by fastforce
  obtain p conns where tk: "takeConn now (pool s) = (p, conns)" by fastforce
  show thesis
  proof (cases p)
    case None
    then show thesis
      using assms t tk unreachable lost [of "[Connected True]"] answered [of "[Connected True]"]
      by (auto simp: performOnce_def split: prod.splits sum.splits if_splits)
  next
    case (Some c)
    then show thesis
      using assms t tk lost [of "[]"] answered [of "[]"]
      by (auto simp: performOnce_def split: prod.splits sum.splits if_splits)
  qed
qed

lemma performOnce_pool:
  assumes "performOnce N req s = (a, s')" and "length (pool s) \<le> maxPoolSize"
  shows "length (pool s') \<le> maxPoolSize"
proof -
  obtain now w0 where t: "steady_now N (world s) = (now, w0)" by fastforce
  obtain p conns where tk: "takeConn now (pool s) = (p, conns)" by fastforce
  have "length conns \<le> maxPoolSize" using takeConn_length [OF tk] assms(2) by simp
  then show ?thesis
    using assms(1) t tk
    by (auto simp: performOnce_def returnConn_length split: prod.splits option.splits sum.splits if_splits)
qed

subsection \<open>The retry ladder: a specification of the traces of a request\<close>

text \<open>
  What a request may do, from attempt \<open>n\<close> on, for a method \<open>m\<close> and requests that satisfy \<open>ok\<close>: an
  answer that is not a 510, a loss after the write, or exhaustion ends it; a 510 and a failed
  connection are followed by a pause and the next attempt; a loss is followed by another attempt
  only for a GET, once.
\<close>

definition slots :: "bool \<Rightarrow> nat \<Rightarrow> ev list" where
  "slots hook n = (if 0 < n \<and> hook then [Slot] else [])"

inductive ladder ::
  "(http_request \<Rightarrow> bool) \<Rightarrow> bool \<Rightarrow> verb \<Rightarrow> nat \<Rightarrow> bool \<Rightarrow> http_response result \<Rightarrow> ev list \<Rightarrow> bool"
  for ok :: "http_request \<Rightarrow> bool" and hook :: bool and m :: verb where
  answered: "opens pre \<Longrightarrow> ok q \<Longrightarrow> \<not> throttled r \<or> MAX_RETRIES \<le> n \<Longrightarrow>
    ladder ok hook m n stale (Inr r) (slots hook n @ pre @ [Sent q, Reply r])"
| lost: "opens pre \<Longrightarrow> ok q \<Longrightarrow>
    ladder ok hook m n stale (Inl e) (slots hook n @ pre @ [Sent q, Lost])"
| unreachable: "MAX_RETRIES \<le> n \<Longrightarrow>
    ladder ok hook m n stale (Inl e) (slots hook n @ [Connected False])"
| refused: "opens pre \<Longrightarrow> ok q \<Longrightarrow> throttled r \<Longrightarrow> n < MAX_RETRIES \<Longrightarrow>
    ladder ok hook m (n + 1) stale res es \<Longrightarrow>
    ladder ok hook m n stale res (slots hook n @ pre @ [Sent q, Reply r, Slept (700 * 2 ^ n)] @ es)"
| stale: "ok q \<Longrightarrow> m = GET \<Longrightarrow> ladder ok hook m (n + 1) True res es \<Longrightarrow>
    ladder ok hook m n False res (slots hook n @ [Sent q, Lost] @ es)"
| no_connection: "n < MAX_RETRIES \<Longrightarrow> ladder ok hook m (n + 1) stale res es \<Longrightarrow>
    ladder ok hook m n stale res (slots hook n @ [Connected False, Slept (500 * 2 ^ n)] @ es)"

text \<open>The loop implements the ladder, for any condition on requests that re-authentication keeps.\<close>

definition reauth_keeps :: "reauth \<Rightarrow> (http_request \<Rightarrow> bool) \<Rightarrow> bool" where
  "reauth_keeps reauth ok \<longleftrightarrow> (\<forall>f. reauth = Some f \<longrightarrow> (\<forall>now q. ok q \<longrightarrow> ok (f now q)))"

lemma prepare_retry_spec:
  assumes "prepare_retry N cfg reauth n req s = (req', es, s')" and "reauth_keeps reauth ok" and "ok req"
  shows "es = slots (retryPacingHook cfg) n \<and> pool s' = pool s \<and> ok req'"
  using assms by (auto simp: prepare_retry_def slots_def reauth_keeps_def split: if_splits option.splits prod.splits)

lemma request_loop_ladder:
  assumes "request_loop N cfg reauth n stale req s = (res, es, s')"
    and keeps: "reauth_keeps reauth ok" and meth: "\<And>q. ok q \<Longrightarrow> rq_method q = m" and "ok req"
  shows "ladder ok (retryPacingHook cfg) m n stale res es"
  using assms(1,4)
proof (induction "MAX_RETRIES - n + (if stale then 0 else 1 :: nat)" arbitrary: n stale req s res es s' rule: less_induct)
  case less
  obtain req' es1 s1 where prep: "prepare_retry N cfg reauth n req s = (req', es1, s1)" by (metis prod_cases3)
  obtain a s2 where perf: "performOnce N req' s1 = (a, s2)" by fastforce
  have es1: "es1 = slots (retryPacingHook cfg) n" and ok: "ok req'"
    using prepare_retry_spec [OF prep keeps less.prems(2)] by auto
  let ?hook = "retryPacingHook cfg"
  have run: "(case outcome a of
       Inr response \<Rightarrow>
         if \<not> throttled response \<or> n \<ge> MAX_RETRIES then (Inr response, es1 @ did a, s2)
         else after (es1 @ did a @ [Slept (700 * 2 ^ n)])
                (request_loop N cfg reauth (n + 1) stale req' (pause N (700 * 2 ^ n) s2))
     | Inl e \<Rightarrow>
         if requestSent a \<and> usedPooledConn a \<and> rq_method req' = GET \<and> \<not> stale then
           after (es1 @ did a) (request_loop N cfg reauth (n + 1) True req' s2)
         else if requestSent a \<or> n \<ge> MAX_RETRIES then (Inl e, es1 @ did a, s2)
         else after (es1 @ did a @ [Slept (500 * 2 ^ n)])
                (request_loop N cfg reauth (n + 1) stale req' (pause N (500 * 2 ^ n) s2))) = (res, es, s')"
    using less.prems(1) unfolding request_loop.simps [of N cfg reauth n stale req s] Let_def
    by (simp add: prep perf)
  have next_try: "ladder ok ?hook m (n + 1) stale' r' es'"
    if "request_loop N cfg reauth (n + 1) stale' req' t = (r', es', t')"
      and "stale' = stale \<and> n < MAX_RETRIES \<or> stale' \<and> \<not> stale" for stale' t r' es' t'
    using that ok by (intro less.hyps [OF _ that(1)]) (auto simp: MAX_RETRIES_def)
  from perf show ?case
  proof (cases rule: performOnce_cases)
    case (unreachable e)
    note run' = run [unfolded unreachable, simplified]
    show ?thesis
    proof (cases "MAX_RETRIES \<le> n")
      case True
      with run' have "res = Inl e" "es = slots ?hook n @ [Connected False]" by (simp_all add: es1)
      with True show ?thesis by (simp add: ladder.unreachable)
    next
      case False
      with run' obtain es' where r: "request_loop N cfg reauth (n + 1) stale req' (pause N (500 * 2 ^ n) s2) = (res, es', s')"
        and es: "es = slots ?hook n @ [Connected False, Slept (500 * 2 ^ n)] @ es'"
        by (auto simp: after_def es1 split: prod.splits)
      show ?thesis unfolding es using False by (intro ladder.no_connection next_try [OF r]) simp_all
    qed
  next
    case (lost pre e)
    note run' = run [unfolded lost, simplified]
    show ?thesis
    proof (cases "pre = [] \<and> m = GET \<and> \<not> stale")
      case True
      with run' lost meth [OF ok] obtain es' where r: "request_loop N cfg reauth (n + 1) True req' s2 = (res, es', s')"
        and es: "es = slots ?hook n @ [Sent req', Lost] @ es'"
        by (auto simp: after_def es1 split: prod.splits)
      have "ladder ok ?hook m n False res (slots ?hook n @ [Sent req', Lost] @ es')"
        using True ok by (intro ladder.stale next_try [OF r]) simp_all
      then show ?thesis using True es by simp
    next
      case False
      with run' lost meth [OF ok] have "res = Inl e" "es = slots ?hook n @ pre @ [Sent req', Lost]"
        by (auto simp: es1)
      with ok lost(1) show ?thesis by (simp only: ladder.lost)
    qed
  next
    case (answered pre r)
    note run' = run [unfolded answered, simplified]
    show ?thesis
    proof (cases "throttled r \<and> n < MAX_RETRIES")
      case True
      with run' obtain es' where rest: "request_loop N cfg reauth (n + 1) stale req' (pause N (700 * 2 ^ n) s2) = (res, es', s')"
        and es: "es = slots ?hook n @ pre @ [Sent req', Reply r, Slept (700 * 2 ^ n)] @ es'"
        by (auto simp: after_def es1 split: prod.splits)
      show ?thesis unfolding es using True ok answered(1) by (intro ladder.refused next_try [OF rest]) simp_all
    next
      case False
      with run' have "res = Inr r" "es = slots ?hook n @ pre @ [Sent req', Reply r]"
        by (auto simp: es1 not_less split: if_splits)
      with False ok answered(1) show ?thesis by (auto intro: ladder.answered)
    qed
  qed
qed

subsection \<open>Requests on the wire\<close>

definition sents :: "ev list \<Rightarrow> http_request list" where
  "sents es = concat (map (\<lambda>e. case e of Sent q \<Rightarrow> [q] | _ \<Rightarrow> []) es)"

definition naps :: "ev list \<Rightarrow> int list" where
  "naps es = concat (map (\<lambda>e. case e of Slept d \<Rightarrow> [d] | _ \<Rightarrow> []) es)"

definition slots_taken :: "ev list \<Rightarrow> nat" where
  "slots_taken es = count_list es Slot"

lemma sents_simps [simp]:
  "sents [] = []" "sents (Sent q # es) = q # sents es" "sents (Slot # es) = sents es"
  "sents (Connected b # es) = sents es" "sents (Reply r # es) = sents es" "sents (Lost # es) = sents es"
  "sents (Slept d # es) = sents es" "sents (es @ fs) = sents es @ sents fs"
  by (simp_all add: sents_def)

lemma naps_simps [simp]:
  "naps [] = []" "naps (Slept d # es) = d # naps es" "naps (Slot # es) = naps es"
  "naps (Connected b # es) = naps es" "naps (Reply r # es) = naps es" "naps (Lost # es) = naps es"
  "naps (Sent q # es) = naps es" "naps (es @ fs) = naps es @ naps fs"
  by (simp_all add: naps_def)

lemma slots_taken_simps [simp]:
  "slots_taken [] = 0" "slots_taken (Slot # es) = Suc (slots_taken es)" "slots_taken (Sent q # es) = slots_taken es"
  "slots_taken (Connected b # es) = slots_taken es" "slots_taken (Reply r # es) = slots_taken es"
  "slots_taken (Lost # es) = slots_taken es" "slots_taken (Slept d # es) = slots_taken es"
  "slots_taken (es @ fs) = slots_taken es + slots_taken fs"
  by (simp_all add: slots_taken_def)

lemma opens_traces [simp]:
  assumes "opens pre"
  shows "sents pre = []" "naps pre = []" "slots_taken pre = 0"
  using assms by (auto simp: opens_def)

lemma slots_traces [simp]:
  "sents (slots hook n) = []" "naps (slots hook n) = []"
  "slots_taken (slots hook n) = (if 0 < n \<and> hook then 1 else 0)"
  by (simp_all add: slots_def)

lemma in_sents: "q \<in> set (sents es) \<longleftrightarrow> Sent q \<in> set es"
  by (induction es) (auto simp: sents_def split: ev.splits)

text \<open>
  A trace re-sends safely when a request that is followed by another one was refused by the venue:
  its answer is a 510.
\<close>

fun resend_safe :: "ev list \<Rightarrow> bool" where
  "resend_safe (Sent q # es) \<longleftrightarrow>
     (sents es = [] \<or> (\<exists>r zs. es = Reply r # zs \<and> throttled r)) \<and> resend_safe es"
| "resend_safe (e # es) \<longleftrightarrow> resend_safe es"
| "resend_safe [] \<longleftrightarrow> True"

lemma resend_safe_unsent [simp]: "sents xs = [] \<Longrightarrow> resend_safe (xs @ ys) \<longleftrightarrow> resend_safe ys"
proof (induction xs)
  case (Cons x xs)
  then show ?case by (cases x) auto
qed simp

lemma resend_safe_split:
  "resend_safe (xs @ Sent q # ys) \<Longrightarrow> sents ys = [] \<or> (\<exists>r zs. ys = Reply r # zs \<and> throttled r)"
proof (induction xs)
  case (Cons x xs)
  then show ?case by (cases x) auto
qed auto

subsection \<open>What the ladder guarantees\<close>

lemma ladder_ok: "ladder ok hook m n stale res es \<Longrightarrow> \<forall>q \<in> set (sents es). ok q"
  by (induction rule: ladder.induct) auto

lemma ladder_post_safe: "ladder ok hook POST n stale res es \<Longrightarrow> resend_safe es"
proof (induction n stale res es rule: ladder.induct)
  case (refused pre q r n stale res es)
  then show ?case by (simp add: resend_safe_unsent)
qed simp_all

lemma ladder_sends:
  "ladder ok hook m n stale res es \<Longrightarrow>
   length (sents es) \<le> max 1 (5 - n) + (if stale \<or> m = POST then 0 else 1)"
proof (induction n stale res es rule: ladder.induct)
  case (stale q n res es)
  then show ?case by (cases "n < 4") (auto simp: max_def split: if_splits)
qed (auto simp: MAX_RETRIES_def)

lemma ladder_slots:
  "ladder ok True m n stale res es \<Longrightarrow> length (sents es) \<le> slots_taken es + (if n = 0 then 1 else 0)"
  by (induction n stale res es rule: ladder.induct) auto

lemma power_le_16: "n \<le> 4 \<Longrightarrow> (2::int) ^ n \<le> 16"
  using power_increasing [of n 4 "2::int"] by simp

lemma ladder_naps:
  "ladder ok hook m n stale res es \<Longrightarrow> sum_list (naps es) \<le> 700 * (16 - 2 ^ min n 4)"
proof (induction n stale res es rule: ladder.induct)
  case (stale q n res es)
  have "(2::int) ^ min n 4 \<le> 2 ^ min (n + 1) 4" by (rule power_increasing) auto
  then show ?case using stale by simp
next
  case (refused pre q r n stale res es)
  then show ?case by (simp add: MAX_RETRIES_def min_def split: if_splits)
next
  case (no_connection n stale res es)
  have p: "1200 * (2::int) ^ n \<le> 1400 * 2 ^ n" by simp
  have "sum_list (naps es) \<le> 11200 - 1400 * 2 ^ n" "n < 4"
    using no_connection by (simp_all add: MAX_RETRIES_def min_def split: if_splits)
  with p have "1200 * 2 ^ n + sum_list (naps es) \<le> 11200" by linarith
  then show ?case using \<open>n < 4\<close> by (simp add: min_def)
qed (auto simp: min_def MAX_RETRIES_def intro: power_le_16)

lemma ladder_result: "ladder ok hook m n stale (Inr r) es \<Longrightarrow> \<exists>xs q. es = xs @ [Sent q, Reply r] \<and> ok q"
proof (induction n stale "Inr r :: http_response result" es rule: ladder.induct)
  case (answered pre q n stale)
  then show ?case by (metis append.assoc)
qed (metis append.assoc)+


subsection \<open>The two methods climb the ladder\<close>

text \<open>
  A request as the venue must see it: method, target and body as asked, and a signature made with
  the secret over the API key, the time stamp in the header and the payload.
\<close>

definition plain_request :: "verb \<Rightarrow> string \<Rightarrow> string \<Rightarrow> http_request \<Rightarrow> bool" where
  "plain_request m target body q \<longleftrightarrow> rq_method q = m \<and> rq_target q = target \<and> rq_body q = body"

definition signed_for :: "('c, 'w) net \<Rightarrow> http_config \<Rightarrow> string \<Rightarrow> http_request \<Rightarrow> bool" where
  "signed_for N cfg payload q \<longleftrightarrow>
     (\<exists>now. header q ''Request-Time'' = Some (int_str now) \<and>
        header q ''ApiKey'' = Some (apiKey cfg) \<and>
        header q ''Signature'' = Some (hmac_hex N (apiSecret cfg) (apiKey cfg @ int_str now @ payload)))"

definition get_target :: "string \<Rightarrow> (string \<times> string) list \<Rightarrow> string" where
  "get_target path parameters =
    (if createQueryStr parameters = [] then path else path @ ''?'' @ createQueryStr parameters)"

lemma set_header_sel [simp]:
  "rq_method (set_header k v q) = rq_method q" "rq_target (set_header k v q) = rq_target q"
  "rq_body (set_header k v q) = rq_body q"
  by (simp_all add: set_header_def)

lemma authenticate_signed: "signed_for N cfg payload (authenticate N cfg payload now q)"
  by (auto simp: signed_for_def authenticate_def sign_def Let_def intro: exI [of _ now])

lemma authenticate_plain [simp]:
  "plain_request m t b (authenticate N cfg payload now q) \<longleftrightarrow> plain_request m t b q"
  by (simp add: plain_request_def authenticate_def Let_def)

lemma host_headers [simp]:
  "signed_for N cfg payload (set_header ''User-Agent'' u (set_header ''Host'' h q)) \<longleftrightarrow> signed_for N cfg payload q"
  "plain_request m t b (set_header k v q) \<longleftrightarrow> plain_request m t b q"
  by (simp_all add: signed_for_def plain_request_def)

lemma methodPost_ladder:
  assumes "methodPost N cfg path body s = (res, es, s')"
  shows "ladder (\<lambda>q. plain_request POST path body q \<and> signed_for N cfg body q) (retryPacingHook cfg) POST 0 False res es"
proof -
  obtain now w where now: "wall_ms N (world s) = (now, w)" by fastforce
  show ?thesis
    using assms unfolding methodPost_def request_def Let_def now prod.case
    by (rule request_loop_ladder)
      (auto simp: reauth_keeps_def authenticatePost_def authenticate_signed, auto simp: plain_request_def)
qed

lemma methodGet_private_ladder:
  assumes "methodGet N cfg path parameters False s = (res, es, s')"
  shows "ladder (\<lambda>q. plain_request GET (get_target path parameters) [] q \<and>
      signed_for N cfg (createQueryStr parameters) q) (retryPacingHook cfg) GET 0 False res es"
proof -
  obtain now w where now: "wall_ms N (world s) = (now, w)" by fastforce
  show ?thesis
    using assms unfolding methodGet_def request_def Let_def now prod.case if_False
    by (rule request_loop_ladder)
      (auto simp: reauth_keeps_def authenticateGet_def authenticate_signed, auto simp: plain_request_def get_target_def)
qed

lemma methodGet_public_ladder:
  assumes "methodGet N cfg path parameters True s = (res, es, s')"
  shows "ladder (plain_request GET (get_target path parameters) []) (retryPacingHook cfg) GET 0 False res es"
  using assms unfolding methodGet_def request_def Let_def if_True
  by (rule request_loop_ladder) (auto simp: reauth_keeps_def plain_request_def get_target_def)

subsection \<open>The pool stays small\<close>

lemma request_loop_pool:
  "request_loop N cfg reauth n stale req s = (res, es, s') \<Longrightarrow>
   length (pool s) \<le> maxPoolSize \<Longrightarrow> length (pool s') \<le> maxPoolSize"
proof (induction "MAX_RETRIES - n + (if stale then 0 else 1 :: nat)" arbitrary: n stale req s res es s' rule: less_induct)
  case less
  obtain req' es1 s1 where prep: "prepare_retry N cfg reauth n req s = (req', es1, s1)" by (metis prod_cases3)
  obtain a s2 where perf: "performOnce N req' s1 = (a, s2)" by fastforce
  have "pool s1 = pool s" using prep by (auto simp: prepare_retry_def split: if_splits option.splits prod.splits)
  then have p2: "length (pool s2) \<le> maxPoolSize" using performOnce_pool [OF perf] less.prems(2) by simp
  have next_try: "length (pool t') \<le> maxPoolSize"
    if "request_loop N cfg reauth (n + 1) stale' req' t = (r', es', t')" and "pool t = pool s2"
      and "stale' = stale \<and> n < MAX_RETRIES \<or> stale' \<and> \<not> stale" for stale' t r' es' t'
    using that p2 by (intro less.hyps [OF _ that(1)]) (auto simp: MAX_RETRIES_def)
  show ?case
    using less.prems(1) next_try p2
    unfolding request_loop.simps [of N cfg reauth n stale req s] Let_def
    by (auto simp: prep perf after_def pause_def split: sum.splits if_splits prod.splits)
qed

lemma method_pool:
  "methodGet N cfg path parameters pub s = (res, es, s') \<Longrightarrow> length (pool s) \<le> maxPoolSize \<Longrightarrow> length (pool s') \<le> maxPoolSize"
  "methodPost N cfg path body s = (res, es, s') \<Longrightarrow> length (pool s) \<le> maxPoolSize \<Longrightarrow> length (pool s') \<le> maxPoolSize"
  by (auto simp: methodGet_def methodPost_def request_def Let_def split: if_splits prod.splits
      dest!: request_loop_pool)

lemma ladder_post_lost:
  "ladder ok hook POST n stale res es \<Longrightarrow> Lost \<in> set es \<Longrightarrow> isl res \<and> last es = Lost"
  by (induction n stale res es rule: ladder.induct)
    (auto simp: slots_def opens_def split: if_splits)


subsection \<open>A concrete network, for examples\<close>

text \<open>The world counts the exchanges; the clocks read it; the \<open>k\<close>-th exchange is answered by \<open>answer\<close>.\<close>

definition canned_net :: "(http_request \<Rightarrow> nat \<Rightarrow> http_response result) \<Rightarrow> (unit, nat) net" where
  "canned_net answer = \<lparr>connect = (\<lambda>w. (Inr (), w)), exchange = (\<lambda>c q w. (answer q w, Suc w)),
     steady_now = (\<lambda>w. (int w, w)), wall_ms = (\<lambda>w. (int w, w)), sleep_ms = (\<lambda>d w. w), limiter_wait = (\<lambda>w. w),
     user_agent = ''agent'', hmac_hex = (\<lambda>k m. k @ m)\<rparr>"

subsection \<open>Properties of the pool\<close>

text \<open>
  C36. The pool hands out only connections that have been idle for at most 25 seconds, and none only
  when every pooled connection is older; and no request leaves more than four connections in it.
\<close>

theorem pool_young_and_small:
  assumes "takeConn now (pool s) = (r, rest)" and "length (pool s) \<le> 4"
  shows "(case r of Some c \<Rightarrow> c \<in> set (pool s) \<and> now - lastUsed c \<le> secs 25
     | None \<Rightarrow> \<forall>c \<in> set (pool s). secs 25 < now - lastUsed c) \<and>
    length (pool (snd (snd (methodGet N cfg path parameters isPublic s)))) \<le> 4 \<and>
    length (pool (snd (snd (methodPost N cfg path jsonBody s)))) \<le> 4"
proof -
  have "length (pool s) \<le> maxPoolSize" using assms(2) by (simp add: maxPoolSize_def)
  moreover obtain a es s' where "methodGet N cfg path parameters isPublic s = (a, es, s')" by (metis prod_cases3)
  moreover obtain b fs t' where "methodPost N cfg path jsonBody s = (b, fs, t')" by (metis prod_cases3)
  ultimately have "length (pool s') \<le> maxPoolSize" "length (pool t') \<le> maxPoolSize"
    and "methodGet N cfg path parameters isPublic s = (a, es, s')" "methodPost N cfg path jsonBody s = (b, fs, t')"
    using method_pool by blast+
  then show ?thesis
    using takeConn_spec [OF assms(1)] by (auto simp: maxPoolSize_def maxConnIdle_def split: option.splits)
qed

definition two_idle :: "(unit, nat) http_state" where
  "two_idle = \<lparr>pool = [\<lparr>stream = (), lastUsed = 0\<rparr>, \<lparr>stream = (), lastUsed = 0\<rparr>], world = 0\<rparr>"

definition plain_config :: http_config where
  "plain_config = \<lparr>apiKey = ''key'', apiSecret = ''secret'', uri = ''host'', retryPacingHook = False\<rparr>"

theorem pool_young_and_small_witness:
  "takeConn 0 (pool two_idle) = (Some \<lparr>stream = (), lastUsed = 0\<rparr>, [\<lparr>stream = (), lastUsed = 0\<rparr>]) \<and>
   length (pool (snd (snd (methodPost (canned_net (\<lambda>q k. Inl (OtherError ''eof''))) plain_config ''/p'' '''' two_idle)))) \<le> 4"
proof -
  have t: "takeConn 0 (pool two_idle) = (Some \<lparr>stream = (), lastUsed = 0\<rparr>, [\<lparr>stream = (), lastUsed = 0\<rparr>])"
    by code_simp
  have "length (pool two_idle) \<le> 4" by code_simp
  from pool_young_and_small [OF t this] t show ?thesis by blast
qed

text \<open>
  The retry of a GET that was lost on a reused connection is not always made on a fresh one: with
  two idle connections that the server has closed, the retry takes the second one, no connection is
  opened at all, and the GET fails.
\<close>

theorem stale_retry_reuses_the_pool:
  "case methodGet (canned_net (\<lambda>q k. Inl (OtherError ''eof''))) plain_config ''/p'' [] True two_idle of
     (res, es, s') \<Rightarrow> isl res \<and> length (sents es) = 2 \<and> list_all (\<lambda>e. \<forall>b. e \<noteq> Connected b) es"
  by code_simp

end
