(* ===== verification/Futures_Models.thy ===== *)
theory Futures_Models
  imports Json
begin

section \<open>The futures data models\<close>

text \<open>
  The \<open>stonky::mexc::futures\<close> structs of \<open>mexc_models.h\<close> with their defaults, and their \<open>fromJson\<close>
  and \<open>toJson\<close> of \<open>mexc_models.cpp\<close>. A struct derived from \<open>Response\<close> is a record that extends
  \<open>Response\<close>. A decimal of Boost's \<open>cpp_dec_float_50\<close> is the rational it stands for. The \<open>toJson\<close>
  and \<open>fromJson\<close> that only throw "Unimplemented" are not modelled.
\<close>

subsection \<open>Response and the numbers it carries\<close>

record Response =
  r_code :: int
  r_success :: bool
  r_msg :: string
  r_data :: json

definition Response_fromJson :: "jlib \<Rightarrow> json \<Rightarrow> ('a Response_scheme) reader" where
  "Response_fromJson L j = run_reads [
     field (rd_i32 L j ''code'') r_code r_code_update,
     field (rd_bool L j ''success'') r_success r_success_update,
     field (rd_str L j ''message'') r_msg r_msg_update,
     (\<lambda>r. (None, case jfind j ''data'' of None \<Rightarrow> r | Some d \<Rightarrow> r\<lparr>r_data := d\<rparr>))]"

definition Response_default :: Response where
  "Response_default = \<lparr>r_code = 0, r_success = False, r_msg = '''', r_data = JNull\<rparr>"

text \<open>A read of the payload \<open>data\<close> that the base class has just stored.\<close>

definition data_field :: "(json \<Rightarrow> 'a \<Rightarrow> 'a result) \<Rightarrow> ('b Response_scheme \<Rightarrow> 'a) \<Rightarrow>
    (('a \<Rightarrow> 'a) \<Rightarrow> 'b Response_scheme \<Rightarrow> 'b Response_scheme) \<Rightarrow> ('b Response_scheme) reader" where
  "data_field rd sel upd r = field (rd (r_data r)) sel upd r"

text \<open>
  The idiom of every decimal field: a JSON number goes through \<open>std::to_string(double)\<close>, anything
  else through \<open>readDecimalValue\<close>.
\<close>

definition num_dec :: "jlib \<Rightarrow> json \<Rightarrow> string \<Rightarrow> rat result" where
  "num_dec L j k = (case jfind j k of
     Some v \<Rightarrow> if is_number v then rbind (get_dbl L v) (\<lambda>d. dec_assign L (double_str d)) else rd_dec L j k
   | None \<Rightarrow> rd_dec L j k)"

subsection \<open>Server time, position mode, funding rates\<close>

record ServerTime = Response +
  st_serverTime :: int

definition ServerTime_default :: ServerTime where
  "ServerTime_default = \<lparr>r_code = 0, r_success = False, r_msg = '''', r_data = JNull, st_serverTime = 0\<rparr>"

definition ServerTime_fromJson :: "jlib \<Rightarrow> json \<Rightarrow> ServerTime reader" where
  "ServerTime_fromJson L j = run_reads [
     Response_fromJson L j,
     data_field (\<lambda>d _. get_i64 L d) st_serverTime st_serverTime_update]"

record PositionModeResponse = Response +
  pm_positionMode :: int

definition PositionModeResponse_default :: PositionModeResponse where
  "PositionModeResponse_default =
     \<lparr>r_code = 0, r_success = False, r_msg = '''', r_data = JNull, pm_positionMode = 0\<rparr>"

definition PositionModeResponse_fromJson :: "jlib \<Rightarrow> json \<Rightarrow> PositionModeResponse reader" where
  "PositionModeResponse_fromJson L j = run_reads [
     Response_fromJson L j,
     data_field (\<lambda>d cur. if is_number_integer d then get_i32 L d
         else (case jfind d ''positionMode'' of
           Some v \<Rightarrow> if is_number_integer v then get_i32 L v else Inr cur
         | None \<Rightarrow> Inr cur)) pm_positionMode pm_positionMode_update]"

record FundingRate = Response +
  fr_symbol :: string
  fr_fundingRate :: rat
  fr_maxFundingRate :: rat
  fr_minFundingRate :: rat
  fr_collectCycle :: int
  fr_nextSettleTime :: int
  fr_timestamp :: int

definition FundingRate_default :: FundingRate where
  "FundingRate_default = \<lparr>r_code = 0, r_success = False, r_msg = '''', r_data = JNull,
     fr_symbol = '''', fr_fundingRate = 0, fr_maxFundingRate = 0, fr_minFundingRate = 0,
     fr_collectCycle = 0, fr_nextSettleTime = 0, fr_timestamp = 0\<rparr>"

definition FundingRate_fromJson :: "jlib \<Rightarrow> json \<Rightarrow> FundingRate reader" where
  "FundingRate_fromJson L j = run_reads [
     Response_fromJson L j,
     data_field (\<lambda>d. rd_str L d ''symbol'') fr_symbol fr_symbol_update,
     data_field (\<lambda>d _. num_dec L d ''fundingRate'') fr_fundingRate fr_fundingRate_update,
     data_field (\<lambda>d _. num_dec L d ''maxFundingRate'') fr_maxFundingRate fr_maxFundingRate_update,
     data_field (\<lambda>d _. num_dec L d ''minFundingRate'') fr_minFundingRate fr_minFundingRate_update,
     data_field (\<lambda>d. rd_i32 L d ''collectCycle'') fr_collectCycle fr_collectCycle_update,
     data_field (\<lambda>d. rd_i64 L d ''nextSettleTime'') fr_nextSettleTime fr_nextSettleTime_update,
     data_field (\<lambda>d. rd_i64 L d ''timestamp'') fr_timestamp fr_timestamp_update]"

record FundingRates = Response +
  frs_fundingRates :: "FundingRate list"

definition FundingRates_default :: FundingRates where
  "FundingRates_default =
     \<lparr>r_code = 0, r_success = False, r_msg = '''', r_data = JNull, frs_fundingRates = []\<rparr>"

definition FundingRates_fromJson :: "jlib \<Rightarrow> json \<Rightarrow> FundingRates reader" where
  "FundingRates_fromJson L j = run_reads [
     Response_fromJson L j,
     (\<lambda>r. read_list (\<lambda>el. fresh (FundingRate_fromJson L (jset ''data'' el JNull)) FundingRate_default)
        frs_fundingRates_update (elements (r_data r)) r)]"

record HistoricalFundingRate =
  hf_symbol :: string
  hf_fundingRate :: rat
  hf_settleTime :: int

definition HistoricalFundingRate_default :: HistoricalFundingRate where
  "HistoricalFundingRate_default = \<lparr>hf_symbol = '''', hf_fundingRate = 0, hf_settleTime = 0\<rparr>"

definition HistoricalFundingRate_fromJson :: "jlib \<Rightarrow> json \<Rightarrow> HistoricalFundingRate reader" where
  "HistoricalFundingRate_fromJson L j = run_reads [
     field (rd_str L j ''symbol'') hf_symbol hf_symbol_update,
     field (\<lambda>_. num_dec L j ''fundingRate'') hf_fundingRate hf_fundingRate_update,
     field (rd_i64 L j ''settleTime'') hf_settleTime hf_settleTime_update]"

record HistoricalFundingRates = Response +
  hfs_pageSize :: int
  hfs_totalCount :: int
  hfs_totalPage :: int
  hfs_currentPage :: int
  hfs_resultList :: "HistoricalFundingRate list"

definition HistoricalFundingRates_default :: HistoricalFundingRates where
  "HistoricalFundingRates_default = \<lparr>r_code = 0, r_success = False, r_msg = '''', r_data = JNull,
     hfs_pageSize = 0, hfs_totalCount = 0, hfs_totalPage = 0, hfs_currentPage = 0, hfs_resultList = []\<rparr>"

definition HistoricalFundingRates_fromJson :: "jlib \<Rightarrow> json \<Rightarrow> HistoricalFundingRates reader" where
  "HistoricalFundingRates_fromJson L j = run_reads [
     Response_fromJson L j,
     data_field (\<lambda>d. rd_i32 L d ''pageSize'') hfs_pageSize hfs_pageSize_update,
     data_field (\<lambda>d. rd_i32 L d ''totalCount'') hfs_totalCount hfs_totalCount_update,
     data_field (\<lambda>d. rd_i32 L d ''totalPage'') hfs_totalPage hfs_totalPage_update,
     data_field (\<lambda>d. rd_i32 L d ''currentPage'') hfs_currentPage hfs_currentPage_update,
     (\<lambda>r. case jfind (r_data r) ''resultList'' of
        Some (JArr items) \<Rightarrow>
          read_list (\<lambda>item. fresh (HistoricalFundingRate_fromJson L item) HistoricalFundingRate_default)
            hfs_resultList_update items r
      | _ \<Rightarrow> (None, r))]"
subsection \<open>Wallet, ticker and positions\<close>

record WalletBalance = Response +
  wb_currency :: string
  wb_positionMargin :: rat
  wb_availableBalance :: rat
  wb_cashBalance :: rat
  wb_frozenBalance :: rat
  wb_equity :: rat
  wb_unrealized :: rat
  wb_bonus :: rat

definition WalletBalance_default :: WalletBalance where
  "WalletBalance_default = \<lparr>r_code = 0, r_success = False, r_msg = '''', r_data = JNull,
     wb_currency = '''', wb_positionMargin = 0, wb_availableBalance = 0,
     wb_cashBalance = 0, wb_frozenBalance = 0, wb_equity = 0,
     wb_unrealized = 0, wb_bonus = 0\<rparr>"

definition WalletBalance_fromJson :: "jlib \<Rightarrow> json \<Rightarrow> WalletBalance reader" where
  "WalletBalance_fromJson L j = run_reads [
     Response_fromJson L j,
     data_field (\<lambda>d. rd_str L d ''currency'') wb_currency wb_currency_update,
     data_field (\<lambda>d _. rd_dec L d ''positionMargin'') wb_positionMargin wb_positionMargin_update,
     data_field (\<lambda>d _. rd_dec L d ''availableBalance'') wb_availableBalance wb_availableBalance_update,
     data_field (\<lambda>d _. rd_dec L d ''cashBalance'') wb_cashBalance wb_cashBalance_update,
     data_field (\<lambda>d _. rd_dec L d ''frozenBalance'') wb_frozenBalance wb_frozenBalance_update,
     data_field (\<lambda>d _. rd_dec L d ''equity'') wb_equity wb_equity_update,
     data_field (\<lambda>d _. rd_dec L d ''unrealized'') wb_unrealized wb_unrealized_update,
     data_field (\<lambda>d _. rd_dec L d ''bonus'') wb_bonus wb_bonus_update]"

record Ticker = Response +
  tk_symbol :: string
  tk_lastPrice :: rat
  tk_bid1 :: rat
  tk_ask1 :: rat
  tk_volume24 :: rat
  tk_amount24 :: rat
  tk_holdVol :: rat
  tk_timestamp :: int

definition Ticker_default :: Ticker where
  "Ticker_default = \<lparr>r_code = 0, r_success = False, r_msg = '''', r_data = JNull,
     tk_symbol = '''', tk_lastPrice = 0, tk_bid1 = 0, tk_ask1 = 0,
     tk_volume24 = 0, tk_amount24 = 0, tk_holdVol = 0, tk_timestamp = 0\<rparr>"

definition Ticker_fromJson :: "jlib \<Rightarrow> json \<Rightarrow> Ticker reader" where
  "Ticker_fromJson L j = run_reads [
     Response_fromJson L j,
     data_field (\<lambda>d. rd_str L d ''symbol'') tk_symbol tk_symbol_update,
     data_field (\<lambda>d _. num_dec L d ''lastPrice'') tk_lastPrice tk_lastPrice_update,
     data_field (\<lambda>d _. num_dec L d ''bid1'') tk_bid1 tk_bid1_update,
     data_field (\<lambda>d _. num_dec L d ''ask1'') tk_ask1 tk_ask1_update,
     data_field (\<lambda>d _. num_dec L d ''volume24'') tk_volume24 tk_volume24_update,
     data_field (\<lambda>d _. num_dec L d ''amount24'') tk_amount24 tk_amount24_update,
     data_field (\<lambda>d _. num_dec L d ''holdVol'') tk_holdVol tk_holdVol_update,
     data_field (\<lambda>d. rd_i64 L d ''timestamp'') tk_timestamp tk_timestamp_update]"

record OpenPosition =
  op_positionId :: int
  op_symbol :: string
  op_positionType :: int
  op_openType :: int
  op_state :: int
  op_holdVol :: rat
  op_frozenVol :: rat
  op_holdAvgPrice :: rat
  op_openAvgPrice :: rat
  op_liquidatePrice :: rat
  op_oim :: rat
  op_im :: rat
  op_holdFee :: rat
  op_realised :: rat
  op_leverage :: int
  op_createTime :: int
  op_updateTime :: int

definition OpenPosition_default :: OpenPosition where
  "OpenPosition_default = \<lparr>op_positionId = 0, op_symbol = '''', op_positionType = 0,
     op_openType = 0, op_state = 0, op_holdVol = 0, op_frozenVol = 0,
     op_holdAvgPrice = 0, op_openAvgPrice = 0, op_liquidatePrice = 0,
     op_oim = 0, op_im = 0, op_holdFee = 0, op_realised = 0,
     op_leverage = 0, op_createTime = 0, op_updateTime = 0\<rparr>"

definition OpenPosition_fromJson :: "jlib \<Rightarrow> json \<Rightarrow> OpenPosition reader" where
  "OpenPosition_fromJson L j = run_reads [
     field (rd_i64 L j ''positionId'') op_positionId op_positionId_update,
     field (rd_str L j ''symbol'') op_symbol op_symbol_update,
     field (rd_i32 L j ''positionType'') op_positionType op_positionType_update,
     field (rd_i32 L j ''openType'') op_openType op_openType_update,
     field (rd_i32 L j ''state'') op_state op_state_update,
     field (\<lambda>_. num_dec L j ''holdVol'') op_holdVol op_holdVol_update,
     field (\<lambda>_. num_dec L j ''frozenVol'') op_frozenVol op_frozenVol_update,
     field (\<lambda>_. num_dec L j ''holdAvgPrice'') op_holdAvgPrice op_holdAvgPrice_update,
     field (\<lambda>_. num_dec L j ''openAvgPrice'') op_openAvgPrice op_openAvgPrice_update,
     field (\<lambda>_. num_dec L j ''liquidatePrice'') op_liquidatePrice op_liquidatePrice_update,
     field (\<lambda>_. num_dec L j ''oim'') op_oim op_oim_update,
     field (\<lambda>_. num_dec L j ''im'') op_im op_im_update,
     field (\<lambda>_. num_dec L j ''holdFee'') op_holdFee op_holdFee_update,
     field (\<lambda>_. num_dec L j ''realised'') op_realised op_realised_update,
     field (rd_i32 L j ''leverage'') op_leverage op_leverage_update,
     field (rd_i64 L j ''createTime'') op_createTime op_createTime_update,
     field (rd_i64 L j ''updateTime'') op_updateTime op_updateTime_update]"

record OpenPositions = Response +
  ops_positions :: "OpenPosition list"

definition OpenPositions_default :: OpenPositions where
  "OpenPositions_default = \<lparr>r_code = 0, r_success = False, r_msg = '''', r_data = JNull,
     ops_positions = []\<rparr>"

definition OpenPositions_fromJson :: "jlib \<Rightarrow> json \<Rightarrow> OpenPositions reader" where
  "OpenPositions_fromJson L j = run_reads [
     Response_fromJson L j,
     (\<lambda>r. if is_array (r_data r)
        then read_list (\<lambda>item. fresh (OpenPosition_fromJson L item) OpenPosition_default)
          ops_positions_update (elements (r_data r)) r
        else (None, r))]"

subsection \<open>Orders\<close>

record OrderRequest =
  oq_symbol :: string
  oq_price :: flt
  oq_vol :: flt
  oq_leverage :: int
  oq_side :: OrderSide
  oq_type :: OrderType
  oq_openType :: MarginType
  oq_positionId :: int
  oq_externalOid :: string
  oq_stopLossPrice :: flt
  oq_takeProfitPrice :: flt

definition OrderRequest_default :: OrderRequest where
  "OrderRequest_default = \<lparr>oq_symbol = '''', oq_price = Fin 0, oq_vol = Fin 0, oq_leverage = 0,
     oq_side = OSide_unnamed 0, oq_type = OT_unnamed 0,
     oq_openType = MT_unnamed 0, oq_positionId = 0, oq_externalOid = '''',
     oq_stopLossPrice = Fin 0, oq_takeProfitPrice = Fin 0\<rparr>"

definition OrderRequest_toJson :: "OrderRequest \<Rightarrow> json" where
  "OrderRequest_toJson q =
    (let j0 = jset ''openType'' (JInt (MarginType_int (oq_openType q)))
           (jset ''type'' (JInt (OrderType_int (oq_type q)))
           (jset ''side'' (JInt (OrderSide_int (oq_side q)))
           (jset ''vol'' (JFloat (oq_vol q))
           (jset ''price'' (JFloat (oq_price q))
           (jset ''symbol'' (JStr (oq_symbol q)) JNull)))));
         j1 = (if oq_leverage q > 0 then jset ''leverage'' (JInt (oq_leverage q)) j0 else j0);
         j2 = (if oq_positionId q > 0 then jset ''positionId'' (JInt (oq_positionId q)) j1 else j1);
         j3 = (if oq_externalOid q \<noteq> [] then jset ''externalOid'' (JStr (oq_externalOid q)) j2 else j2);
         j4 = (if dlt (Fin 0) (oq_stopLossPrice q) then jset ''stopLossPrice'' (JFloat (oq_stopLossPrice q)) j3 else j3)
     in if dlt (Fin 0) (oq_takeProfitPrice q)
        then jset ''takeProfitPrice'' (JFloat (oq_takeProfitPrice q)) j4 else j4)"

record OrderResponse = Response +
  or_orderId :: int

definition OrderResponse_default :: OrderResponse where
  "OrderResponse_default = \<lparr>r_code = 0, r_success = False, r_msg = '''', r_data = JNull,
     or_orderId = 0\<rparr>"

definition OrderResponse_fromJson :: "jlib \<Rightarrow> json \<Rightarrow> OrderResponse reader" where
  "OrderResponse_fromJson L j = run_reads [
     Response_fromJson L j,
     data_field (\<lambda>d cur. if is_number_integer d then get_i64 L d else Inr cur) or_orderId or_orderId_update]"

record OrderDetail =
  od_orderId :: int
  od_externalOid :: string
  od_symbol :: string
  od_price :: flt
  od_vol :: flt
  od_dealVol :: flt
  od_dealAvgPrice :: flt
  od_state :: int
  od_errorCode :: int

definition OrderDetail_default :: OrderDetail where
  "OrderDetail_default = \<lparr>od_orderId = 0, od_externalOid = '''', od_symbol = '''',
     od_price = Fin 0, od_vol = Fin 0, od_dealVol = Fin 0,
     od_dealAvgPrice = Fin 0, od_state = 0, od_errorCode = 0\<rparr>"

definition OrderDetail_fromJson :: "jlib \<Rightarrow> json \<Rightarrow> OrderDetail reader" where
  "OrderDetail_fromJson L j = run_reads [
     field (\<lambda>cur. case jfind j ''orderId'' of
         Some (JStr s) \<Rightarrow> stoll s
       | Some (JInt n) \<Rightarrow> get_i64 L (JInt n)
       | _ \<Rightarrow> Inr cur) od_orderId od_orderId_update,
     field (rd_str L j ''externalOid'') od_externalOid od_externalOid_update,
     field (rd_str L j ''symbol'') od_symbol od_symbol_update,
     field (rd_dbl L j ''price'') od_price od_price_update,
     field (rd_dbl L j ''vol'') od_vol od_vol_update,
     field (rd_dbl L j ''dealVol'') od_dealVol od_dealVol_update,
     field (rd_dbl L j ''dealAvgPrice'') od_dealAvgPrice od_dealAvgPrice_update,
     field (rd_i32 L j ''state'') od_state od_state_update,
     field (rd_i32 L j ''errorCode'') od_errorCode od_errorCode_update]"

record OrderDetailResponse = Response +
  odr_order :: OrderDetail

definition OrderDetailResponse_default :: OrderDetailResponse where
  "OrderDetailResponse_default = \<lparr>r_code = 0, r_success = False, r_msg = '''', r_data = JNull,
     odr_order = OrderDetail_default\<rparr>"

definition OrderDetailResponse_fromJson :: "jlib \<Rightarrow> json \<Rightarrow> OrderDetailResponse reader" where
  "OrderDetailResponse_fromJson L j = run_reads [
     Response_fromJson L j,
     (\<lambda>r. if is_object (r_data r)
        then (case OrderDetail_fromJson L (r_data r) (odr_order r) of (e, d) \<Rightarrow> (e, r\<lparr>odr_order := d\<rparr>))
        else (None, r))]"

record CancelResult =
  cr_orderId :: int
  cr_errorCode :: int
  cr_errorMsg :: string

definition CancelResult_default :: CancelResult where
  "CancelResult_default = \<lparr>cr_orderId = 0, cr_errorCode = 0, cr_errorMsg = ''''\<rparr>"

definition CancelResult_fromJson :: "jlib \<Rightarrow> json \<Rightarrow> CancelResult reader" where
  "CancelResult_fromJson L j = run_reads [
     field (rd_i64 L j ''orderId'') cr_orderId cr_orderId_update,
     field (rd_i32 L j ''errorCode'') cr_errorCode cr_errorCode_update,
     field (rd_str L j ''errorMsg'') cr_errorMsg cr_errorMsg_update]"

record CancelOrderResponse = Response +
  co_results :: "CancelResult list"

definition CancelOrderResponse_default :: CancelOrderResponse where
  "CancelOrderResponse_default = \<lparr>r_code = 0, r_success = False, r_msg = '''', r_data = JNull,
     co_results = []\<rparr>"

definition CancelOrderResponse_fromJson :: "jlib \<Rightarrow> json \<Rightarrow> CancelOrderResponse reader" where
  "CancelOrderResponse_fromJson L j = run_reads [
     Response_fromJson L j,
     (\<lambda>r. if is_array (r_data r)
        then read_list (\<lambda>item. fresh (CancelResult_fromJson L item) CancelResult_default)
          co_results_update (elements (r_data r)) r
        else (None, r))]"

subsection \<open>Candles\<close>

record Candle =
  cd_openTime :: int
  cd_open :: rat
  cd_high :: rat
  cd_low :: rat
  cd_close :: rat
  cd_volume :: rat
  cd_amount :: rat

definition Candle_default :: Candle where
  "Candle_default = \<lparr>cd_openTime = 0, cd_open = 0, cd_high = 0, cd_low = 0, cd_close = 0,
     cd_volume = 0, cd_amount = 0\<rparr>"

record Candles = Response +
  cds_candles :: "Candle list"

definition Candles_default :: Candles where
  "Candles_default = \<lparr>r_code = 0, r_success = False, r_msg = '''', r_data = JNull,
     cds_candles = []\<rparr>"

text \<open>
  The columns are parallel arrays. \<open>data\<close> is not const here, so indexing it by a missing key inserts
  a null, which the element access then rejects.
\<close>

definition column :: "json \<Rightarrow> string \<Rightarrow> json" where
  "column d k = (case jfind d k of Some v \<Rightarrow> v | None \<Rightarrow> JNull)"

definition cell :: "jlib \<Rightarrow> json \<Rightarrow> string \<Rightarrow> nat \<Rightarrow> rat result" where
  "cell L d k i = rbind (jindex (column d k) i) (\<lambda>v. rbind (get_dbl L v) (\<lambda>x. dec_assign L (double_str x)))"

definition candle_at :: "jlib \<Rightarrow> json \<Rightarrow> nat \<Rightarrow> Candle result" where
  "candle_at L d i =
     rbind (jindex (column d ''time'') i) (\<lambda>t.
     rbind (get_i64 L t) (\<lambda>time.
     rbind (cell L d ''open'' i) (\<lambda>open.
     rbind (cell L d ''high'' i) (\<lambda>high.
     rbind (cell L d ''low'' i) (\<lambda>low.
     rbind (cell L d ''close'' i) (\<lambda>close.
     rbind (cell L d ''vol'' i) (\<lambda>vol.
     rbind (cell L d ''amount'' i) (\<lambda>amount.
       Inr \<lparr>cd_openTime = time * 1000, cd_open = open, cd_high = high, cd_low = low, cd_close = close,
         cd_volume = vol, cd_amount = amount\<rparr>))))))))"

definition Candles_fromJson :: "jlib \<Rightarrow> json \<Rightarrow> Candles reader" where
  "Candles_fromJson L j = run_reads [
     Response_fromJson L j,
     (\<lambda>r. if \<not> jcontains (r_data r) ''time'' \<or> jempty (column (r_data r) ''time'') then (None, r)
        else read_list (candle_at L (r_data r)) cds_candles_update
          [0..<jsize (column (r_data r) ''time'')] r)]"

subsection \<open>Contract details\<close>

record ContractDetail =
  ct_symbol :: string
  ct_displayNameEn :: string
  ct_baseCoin :: string
  ct_quoteCoin :: string
  ct_settleCoin :: string
  ct_state :: ContractState
  ct_apiAllowed :: bool
  ct_automaticDelivery :: int
  ct_contractSize :: flt
  ct_minVol :: int
  ct_maxVol :: int
  ct_volUnit :: int
  ct_priceUnit :: flt
  ct_pricePrecision :: int
  ct_volPrecision :: int
  ct_conceptPlate :: "string list"

definition ContractDetail_default :: ContractDetail where
  "ContractDetail_default = \<lparr>ct_symbol = '''', ct_displayNameEn = '''', ct_baseCoin = '''',
     ct_quoteCoin = '''', ct_settleCoin = '''', ct_state = CS_Enabled,
     ct_apiAllowed = True, ct_automaticDelivery = 0,
     ct_contractSize = Fin 1, ct_minVol = 1, ct_maxVol = 1000000,
     ct_volUnit = 1, ct_priceUnit = fl (1 / 10), ct_pricePrecision = 2,
     ct_volPrecision = 0, ct_conceptPlate = []\<rparr>"

definition ContractDetail_fromJson :: "jlib \<Rightarrow> json \<Rightarrow> ContractDetail reader" where
  "ContractDetail_fromJson L j = run_reads [
     field (rd_str L j ''symbol'') ct_symbol ct_symbol_update,
     field (rd_str L j ''displayNameEn'') ct_displayNameEn ct_displayNameEn_update,
     field (rd_str L j ''baseCoin'') ct_baseCoin ct_baseCoin_update,
     field (rd_str L j ''quoteCoin'') ct_quoteCoin ct_quoteCoin_update,
     field (rd_str L j ''settleCoin'') ct_settleCoin ct_settleCoin_update,
     field (rd_bool L j ''apiAllowed'') ct_apiAllowed ct_apiAllowed_update,
     field (rd_i32 L j ''automaticDelivery'') ct_automaticDelivery ct_automaticDelivery_update,
     field (rd_dbl L j ''contractSize'') ct_contractSize ct_contractSize_update,
     field (rd_i32 L j ''minVol'') ct_minVol ct_minVol_update,
     field (rd_i32 L j ''maxVol'') ct_maxVol ct_maxVol_update,
     field (rd_i32 L j ''volUnit'') ct_volUnit ct_volUnit_update,
     field (rd_dbl L j ''priceUnit'') ct_priceUnit ct_priceUnit_update,
     field (rd_i32 L j ''priceScale'') ct_pricePrecision ct_pricePrecision_update,
     field (rd_i32 L j ''volScale'') ct_volPrecision ct_volPrecision_update,
     field (\<lambda>cur. case jfind j ''state'' of
         Some v \<Rightarrow> if is_number v then rmap ContractState_of (get_i32 L v) else Inr cur
       | None \<Rightarrow> Inr cur) ct_state ct_state_update,
     (\<lambda>r. case jfind j ''conceptPlate'' of
        Some (JArr items) \<Rightarrow> read_list (get_str L) ct_conceptPlate_update (filter is_string items) r
      | _ \<Rightarrow> (None, r))]"

record ContractDetails = Response +
  cts_contractDetails :: "ContractDetail list"

definition ContractDetails_default :: ContractDetails where
  "ContractDetails_default = \<lparr>r_code = 0, r_success = False, r_msg = '''', r_data = JNull,
     cts_contractDetails = []\<rparr>"

definition ContractDetails_fromJson :: "jlib \<Rightarrow> json \<Rightarrow> ContractDetails reader" where
  "ContractDetails_fromJson L j = run_reads [
     Response_fromJson L j,
     (\<lambda>r. case r_data r of
        JArr items \<Rightarrow> read_list (\<lambda>item. fresh (ContractDetail_fromJson L item) ContractDetail_default)
          cts_contractDetails_update items r
      | JObj es \<Rightarrow> read_list (\<lambda>item. fresh (ContractDetail_fromJson L item) ContractDetail_default)
          cts_contractDetails_update [JObj es] r
      | _ \<Rightarrow> (None, r))]"


subsection \<open>The JSON of an order\<close>

text \<open>An object with unique keys in order, each entry of the type its key asks for.\<close>

fun object_of :: "(string \<Rightarrow> json \<Rightarrow> bool) \<Rightarrow> json \<Rightarrow> bool" where
  "object_of T (JObj es) = (obj_sorted es \<and> (\<forall>(k, v) \<in> set es. T k v))"
| "object_of T j = False"

lemma put_entries: "set (put k v es) \<subseteq> insert (k, v) (set es)"
  by (induction k v es rule: put.induct) auto

lemma object_of_jset: "object_of T j \<Longrightarrow> T k v \<Longrightarrow> object_of T (jset k v j)"
  using put_entries by (cases j) (fastforce simp: obj_sorted_put)+

lemma object_of_first: "T k v \<Longrightarrow> object_of T (jset k v JNull)"
  by (simp add: obj_sorted_def)

lemma jfind_jset: "object_of T j \<Longrightarrow> jfind (jset k v j) k' = (if k' = k then Some v else jfind j k')"
  by (cases j) (simp_all add: map_of_put)

definition order_field :: "string \<Rightarrow> json \<Rightarrow> bool" where
  "order_field k v =
    (if k \<in> {''symbol'', ''externalOid''} then is_string v
     else if k \<in> {''price'', ''vol'', ''stopLossPrice'', ''takeProfitPrice''} then is_number v
     else k \<in> {''side'', ''type'', ''openType'', ''leverage'', ''positionId''} \<and> is_number_integer v)"

text \<open>Setting the fields of a list that have a value, one after the other.\<close>

fun set_fields :: "(string \<times> json option) list \<Rightarrow> json \<Rightarrow> json" where
  "set_fields [] j = j"
| "set_fields ((k, v) # fs) j = set_fields fs (case v of None \<Rightarrow> j | Some x \<Rightarrow> jset k x j)"

lemma set_fields_spec:
  assumes "object_of T j" "distinct (map fst fs)" "\<And>k x. (k, Some x) \<in> set fs \<Longrightarrow> T k x"
  shows "object_of T (set_fields fs j) \<and>
    jfind (set_fields fs j) k = (case map_of fs k of Some (Some x) \<Rightarrow> Some x | _ \<Rightarrow> jfind j k)"
  using assms
proof (induction fs arbitrary: j)
  case (Cons f fs)
  obtain k' v where f: "f = (k', v)" by (cases f)
  let ?j = "case v of None \<Rightarrow> j | Some x \<Rightarrow> jset k' x j"
  have j: "object_of T ?j" using Cons.prems f by (auto simp: object_of_jset split: option.split)
  have "jfind ?j k = (if k = k' \<and> v \<noteq> None then v else jfind j k)"
    using jfind_jset [OF Cons.prems(1)] by (auto split: option.split)
  moreover have "k' \<notin> fst ` set fs" using Cons.prems(2) f by simp
  then have "map_of fs k' = None" by (simp add: map_of_eq_None_iff)
  ultimately show ?case using Cons.IH [OF j] Cons.prems f by (auto split: option.split)
qed simp

definition order_fields :: "OrderRequest \<Rightarrow> (string \<times> json option) list" where
  "order_fields q = [(''price'', Some (JFloat (oq_price q))), (''vol'', Some (JFloat (oq_vol q))),
     (''side'', Some (JInt (OrderSide_int (oq_side q)))), (''type'', Some (JInt (OrderType_int (oq_type q)))),
     (''openType'', Some (JInt (MarginType_int (oq_openType q)))),
     (''leverage'', if oq_leverage q > 0 then Some (JInt (oq_leverage q)) else None),
     (''positionId'', if oq_positionId q > 0 then Some (JInt (oq_positionId q)) else None),
     (''externalOid'', if oq_externalOid q \<noteq> [] then Some (JStr (oq_externalOid q)) else None),
     (''stopLossPrice'', if dlt (Fin 0) (oq_stopLossPrice q) then Some (JFloat (oq_stopLossPrice q)) else None),
     (''takeProfitPrice'', if dlt (Fin 0) (oq_takeProfitPrice q) then Some (JFloat (oq_takeProfitPrice q)) else None)]"

lemma order_json_fields:
  "OrderRequest_toJson q = set_fields (order_fields q) (jset ''symbol'' (JStr (oq_symbol q)) JNull)"
  by (simp add: OrderRequest_toJson_def order_fields_def Let_def)

text \<open>
  C35. The JSON of an order is well typed and complete: it is an object with unique sorted keys, all of
  them the venue's and with values of their type; symbol, price, volume, side, type and open type are
  always there with the values of the request; leverage, position id, client id, stop loss and
  take profit exactly when they are set.
\<close>

theorem order_json_typed:
  "object_of order_field (OrderRequest_toJson q) \<and>
   jfind (OrderRequest_toJson q) ''symbol'' = Some (JStr (oq_symbol q)) \<and>
   jfind (OrderRequest_toJson q) ''price'' = Some (JFloat (oq_price q)) \<and>
   jfind (OrderRequest_toJson q) ''vol'' = Some (JFloat (oq_vol q)) \<and>
   jfind (OrderRequest_toJson q) ''side'' = Some (JInt (OrderSide_int (oq_side q))) \<and>
   jfind (OrderRequest_toJson q) ''type'' = Some (JInt (OrderType_int (oq_type q))) \<and>
   jfind (OrderRequest_toJson q) ''openType'' = Some (JInt (MarginType_int (oq_openType q))) \<and>
   jfind (OrderRequest_toJson q) ''leverage'' = (if oq_leverage q > 0 then Some (JInt (oq_leverage q)) else None) \<and>
   jfind (OrderRequest_toJson q) ''positionId'' = (if oq_positionId q > 0 then Some (JInt (oq_positionId q)) else None) \<and>
   jfind (OrderRequest_toJson q) ''externalOid'' = (if oq_externalOid q \<noteq> [] then Some (JStr (oq_externalOid q)) else None) \<and>
   jfind (OrderRequest_toJson q) ''stopLossPrice'' =
     (if dlt (Fin 0) (oq_stopLossPrice q) then Some (JFloat (oq_stopLossPrice q)) else None) \<and>
   jfind (OrderRequest_toJson q) ''takeProfitPrice'' =
     (if dlt (Fin 0) (oq_takeProfitPrice q) then Some (JFloat (oq_takeProfitPrice q)) else None)"
proof -
  let ?j = "jset ''symbol'' (JStr (oq_symbol q)) JNull"
  have "object_of order_field ?j" by (rule object_of_first) (simp add: order_field_def)
  moreover have "distinct (map fst (order_fields q))" by (simp add: order_fields_def)
  moreover have "\<forall>(k, v) \<in> set (order_fields q). case v of None \<Rightarrow> True | Some x \<Rightarrow> order_field k x"
    by (simp add: order_fields_def order_field_def)
  then have "(k, Some x) \<in> set (order_fields q) \<Longrightarrow> order_field k x" for k x by fastforce
  ultimately have spec: "object_of order_field (OrderRequest_toJson q)"
    "jfind (OrderRequest_toJson q) k = (case map_of (order_fields q) k of Some (Some x) \<Rightarrow> Some x | _ \<Rightarrow> jfind ?j k)" for k
    using set_fields_spec [of order_field ?j "order_fields q"] by (simp_all add: order_json_fields)
  have sym: "jfind ?j k = (if k = ''symbol'' then Some (JStr (oq_symbol q)) else None)" for k by simp
  show ?thesis using spec(1) unfolding spec(2) sym by (simp add: order_fields_def)
qed

subsection \<open>Conversions that are not implemented\<close>

definition Response_toJson :: "Response \<Rightarrow> json result" where
  "Response_toJson self = unimplemented ''Unimplemented: Response::toJson()''"

definition ServerTime_toJson :: "ServerTime \<Rightarrow> json result" where
  "ServerTime_toJson self = unimplemented ''Unimplemented: ServerTime::toJson()''"

definition PositionModeResponse_toJson :: "PositionModeResponse \<Rightarrow> json result" where
  "PositionModeResponse_toJson self = unimplemented ''Unimplemented: PositionModeResponse::toJson()''"

definition FundingRate_toJson :: "FundingRate \<Rightarrow> json result" where
  "FundingRate_toJson self = unimplemented ''Unimplemented: FundingRate::toJson()''"

definition FundingRates_toJson :: "FundingRates \<Rightarrow> json result" where
  "FundingRates_toJson self = unimplemented ''Unimplemented: FundingRates::toJson()''"

definition HistoricalFundingRate_toJson :: "HistoricalFundingRate \<Rightarrow> json result" where
  "HistoricalFundingRate_toJson self = unimplemented ''Unimplemented: HistoricalFundingRate::toJson()''"

definition HistoricalFundingRates_toJson :: "HistoricalFundingRates \<Rightarrow> json result" where
  "HistoricalFundingRates_toJson self = unimplemented ''Unimplemented: HistoricalFundingRates::toJson()''"

definition WalletBalance_toJson :: "WalletBalance \<Rightarrow> json result" where
  "WalletBalance_toJson self = unimplemented ''Unimplemented: WalletBalance::toJson()''"

definition Ticker_toJson :: "Ticker \<Rightarrow> json result" where
  "Ticker_toJson self = unimplemented ''Unimplemented: Ticker::toJson()''"

definition OpenPosition_toJson :: "OpenPosition \<Rightarrow> json result" where
  "OpenPosition_toJson self = unimplemented ''Unimplemented: OpenPosition::toJson()''"

definition OpenPositions_toJson :: "OpenPositions \<Rightarrow> json result" where
  "OpenPositions_toJson self = unimplemented ''Unimplemented: OpenPositions::toJson()''"

definition OrderRequest_fromJson :: "json \<Rightarrow> OrderRequest \<Rightarrow> OrderRequest result" where
  "OrderRequest_fromJson j self = unimplemented ''Unimplemented: OrderRequest::fromJson()''"

definition OrderResponse_toJson :: "OrderResponse \<Rightarrow> json result" where
  "OrderResponse_toJson self = unimplemented ''Unimplemented: OrderResponse::toJson()''"

definition OrderDetail_toJson :: "OrderDetail \<Rightarrow> json result" where
  "OrderDetail_toJson self = unimplemented ''Unimplemented: OrderDetail::toJson()''"

definition OrderDetailResponse_toJson :: "OrderDetailResponse \<Rightarrow> json result" where
  "OrderDetailResponse_toJson self = unimplemented ''Unimplemented: OrderDetailResponse::toJson()''"

definition CancelOrderResponse_toJson :: "CancelOrderResponse \<Rightarrow> json result" where
  "CancelOrderResponse_toJson self = unimplemented ''Unimplemented: CancelOrderResponse::toJson()''"

definition Candle_toJson :: "Candle \<Rightarrow> json result" where
  "Candle_toJson self = unimplemented ''Unimplemented: Candle::toJson()''"

definition Candle_fromJson :: "json \<Rightarrow> Candle \<Rightarrow> Candle result" where
  "Candle_fromJson j self = unimplemented ''Unimplemented: Candle::fromJson()''"

definition Candles_toJson :: "Candles \<Rightarrow> json result" where
  "Candles_toJson self = unimplemented ''Unimplemented: Candles::toJson()''"

definition ContractDetail_toJson :: "ContractDetail \<Rightarrow> json result" where
  "ContractDetail_toJson self = unimplemented ''Unimplemented: ContractDetail::toJson()''"

definition ContractDetails_toJson :: "ContractDetails \<Rightarrow> json result" where
  "ContractDetails_toJson self = unimplemented ''Unimplemented: ContractDetails::toJson()''"

end
