(* ===== verification/Rest_Client.thy ===== *)
theory Rest_Client
  imports Http_Session Futures_Models
begin

section \<open>The futures REST client\<close>

text \<open>
  \<open>RESTClient\<close> of \<open>mexc_futures_rest_client.cpp\<close>: every endpoint takes a slot of the shared limiter,
  sends one request through the HTTP session, checks the HTTP status (\<open>checkResponse\<close>), parses the
  body and checks the venue's \<open>success\<close> flag (\<open>handleMEXCResponse\<close>). The record \<open>rest\<close> holds what a
  client is made of: the network, the JSON library and the session's configuration; its session
  always has the pacing hook set.
\<close>

subsection \<open>Sequencing actions\<close>

text \<open>An action over any state: its result, what it did on the way, and the new state.\<close>

type_synonym ('a, 's) doing = "'s \<Rightarrow> 'a result \<times> ev list \<times> 's"

definition act_bind :: "('a, 's) doing \<Rightarrow> ('a \<Rightarrow> ('b, 's) doing) \<Rightarrow> ('b, 's) doing" where
  "act_bind m f s = (case m s of
     (Inl e, es, s') \<Rightarrow> (Inl e, es, s')
   | (Inr a, es, s') \<Rightarrow> after es (f a s'))"

definition act_lift :: "'a result \<Rightarrow> ('a, 's) doing" where
  "act_lift r s = (r, [], s)"

definition act_map :: "('a \<Rightarrow> 'b) \<Rightarrow> ('a, 's) doing \<Rightarrow> ('b, 's) doing" where
  "act_map f m = act_bind m (\<lambda>a. act_lift (Inr (f a)))"

lemma act_bind_cases:
  assumes "act_bind m f s = (res, es, s')"
  obtains (threw) e where "m s = (Inl e, es, s')" "res = Inl e"
  | (went_on) a es1 s1 es2 where "m s = (Inr a, es1, s1)" "f a s1 = (res, es2, s')" "es = es1 @ es2"
  using assms by (auto simp: act_bind_def after_def split: prod.splits sum.splits)

lemma act_map_events: "act_map f m s = (res, es, s') \<Longrightarrow> \<exists>r. m s = (r, es, s') \<and> (isl res \<longleftrightarrow> isl r)"
  by (auto simp: act_map_def act_bind_def act_lift_def after_def split: prod.splits sum.splits)

subsection \<open>The pipeline of an endpoint\<close>

record ('c, 'w) rest =
  rc_net :: "('c, 'w) net"
  rc_lib :: jlib
  rc_cfg :: http_config

definition API_URI_FUTURES :: string where
  "API_URI_FUTURES = ''contract.mexc.com''"

definition http_session_new :: "string \<Rightarrow> string \<Rightarrow> http_config" where
  "http_session_new key secret =
     \<lparr>apiKey = key, apiSecret = secret, uri = API_URI_FUTURES, retryPacingHook = False\<rparr>"

definition setRetryPacingHook :: "bool \<Rightarrow> http_config \<Rightarrow> http_config" where
  "setRetryPacingHook hook cfg = cfg\<lparr>retryPacingHook := hook\<rparr>"

definition session_config :: "string \<Rightarrow> string \<Rightarrow> http_config" where
  "session_config key secret = setRetryPacingHook True (http_session_new key secret)"

definition setCredentials ::
  "string \<Rightarrow> string \<Rightarrow> ('c, 'w) rest \<Rightarrow> ('c, 'w) http_state \<Rightarrow> ('c, 'w) rest \<times> ('c, 'w) http_state" where
  "setCredentials key secret R s = (R\<lparr>rc_cfg := session_config key secret\<rparr>, s\<lparr>pool := []\<rparr>)"

definition rateLimiter_wait :: "('c, 'w) rest \<Rightarrow> (unit, 'c, 'w) action" where
  "rateLimiter_wait R s = (Inr (), [Slot], s\<lparr>world := limiter_wait (rc_net R) (world s)\<rparr>)"

text \<open>\<open>std::runtime_error\<close> is built from \<open>c_str()\<close>, so its text ends at the first NUL.\<close>

definition c_str :: "string \<Rightarrow> string" where
  "c_str s = takeWhile (\<lambda>c. c \<noteq> CHR 0x00) s"

definition checkResponse :: "http_response \<Rightarrow> http_response result" where
  "checkResponse response =
    (if rs_status response \<noteq> 200
     then Inl (RuntimeError (c_str (''Bad response, code '' @ int_str (rs_status response) @ '', msg: '' @ rs_body response)))
     else Inr response)"

definition api_error :: "int \<Rightarrow> string \<Rightarrow> exn" where
  "api_error code msg = RuntimeError (c_str (''MEXC API error, code: '' @ int_str code @ '', msg: '' @ msg))"

definition handleMEXCResponse ::
  "jlib \<Rightarrow> (jlib \<Rightarrow> json \<Rightarrow> ('x Response_scheme) reader) \<Rightarrow> 'x Response_scheme \<Rightarrow> http_response \<Rightarrow>
   ('x Response_scheme) result" where
  "handleMEXCResponse L fromJson retVal response =
     rbind (parse L (rs_body response)) (\<lambda>j.
     rbind (fresh (fromJson L j) retVal) (\<lambda>r.
       if \<not> r_success r then Inl (api_error (r_code r) (r_msg r)) else Inr r))"

definition get_endpoint ::
  "('c, 'w) rest \<Rightarrow> string \<Rightarrow> (string \<times> string) list \<Rightarrow> bool \<Rightarrow>
   (jlib \<Rightarrow> json \<Rightarrow> ('x Response_scheme) reader) \<Rightarrow> 'x Response_scheme \<Rightarrow> ('x Response_scheme, 'c, 'w) action" where
  "get_endpoint R path parameters isPublic fromJson retVal =
     act_bind (rateLimiter_wait R) (\<lambda>_.
     act_bind (methodGet (rc_net R) (rc_cfg R) path parameters isPublic) (\<lambda>response.
       act_lift (rbind (checkResponse response) (handleMEXCResponse (rc_lib R) fromJson retVal))))"

definition post_endpoint ::
  "('c, 'w) rest \<Rightarrow> string \<Rightarrow> string \<Rightarrow>
   (jlib \<Rightarrow> json \<Rightarrow> ('x Response_scheme) reader) \<Rightarrow> 'x Response_scheme \<Rightarrow> ('x Response_scheme, 'c, 'w) action" where
  "post_endpoint R path jsonBody fromJson retVal =
     act_bind (rateLimiter_wait R) (\<lambda>_.
     act_bind (methodPost (rc_net R) (rc_cfg R) path jsonBody) (\<lambda>response.
       act_lift (rbind (checkResponse response) (handleMEXCResponse (rc_lib R) fromJson retVal))))"

subsection \<open>The endpoints\<close>

definition getServerTime :: "('c, 'w) rest \<Rightarrow> (int, 'c, 'w) action" where
  "getServerTime R = act_map st_serverTime
     (get_endpoint R ''/api/v1/contract/ping'' [] True ServerTime_fromJson ServerTime_default)"

definition symbol_parameter :: "string \<Rightarrow> (string \<times> string) list" where
  "symbol_parameter symbol = (if symbol = [] then [] else put ''symbol'' symbol [])"

definition getContractDetails :: "('c, 'w) rest \<Rightarrow> string \<Rightarrow> (ContractDetail list, 'c, 'w) action" where
  "getContractDetails R symbol = act_map cts_contractDetails
     (get_endpoint R ''/api/v1/contract/detail'' (symbol_parameter symbol) True
       ContractDetails_fromJson ContractDetails_default)"

definition getContractFundingRate :: "('c, 'w) rest \<Rightarrow> string \<Rightarrow> (FundingRate, 'c, 'w) action" where
  "getContractFundingRate R contract =
     get_endpoint R (''/api/v1/contract/funding_rate/'' @ contract) [] True FundingRate_fromJson FundingRate_default"

definition getContractFundingRates :: "('c, 'w) rest \<Rightarrow> (FundingRate list, 'c, 'w) action" where
  "getContractFundingRates R = act_map frs_fundingRates
     (get_endpoint R ''/api/v1/contract/funding_rate'' [] True FundingRates_fromJson FundingRates_default)"

definition getContractFundingRateHistory ::
  "('c, 'w) rest \<Rightarrow> string \<Rightarrow> int \<Rightarrow> int \<Rightarrow> (HistoricalFundingRates, 'c, 'w) action" where
  "getContractFundingRateHistory R symbol pageNum pageSize =
     get_endpoint R ''/api/v1/contract/funding_rate/history''
       (put ''page_size'' (int_str pageSize) (put ''page_num'' (int_str pageNum) (put ''symbol'' symbol []))) True
       HistoricalFundingRates_fromJson HistoricalFundingRates_default"

definition getWalletBalance :: "('c, 'w) rest \<Rightarrow> string \<Rightarrow> (WalletBalance, 'c, 'w) action" where
  "getWalletBalance R currency =
     get_endpoint R (''/api/v1/private/account/asset/'' @ currency) [] False WalletBalance_fromJson WalletBalance_default"

definition getContractTicker :: "('c, 'w) rest \<Rightarrow> string \<Rightarrow> (Ticker, 'c, 'w) action" where
  "getContractTicker R symbol =
     get_endpoint R ''/api/v1/contract/ticker'' (put ''symbol'' symbol []) True Ticker_fromJson Ticker_default"

definition getOpenPositions :: "('c, 'w) rest \<Rightarrow> string \<Rightarrow> (OpenPosition list, 'c, 'w) action" where
  "getOpenPositions R symbol = act_map ops_positions
     (get_endpoint R ''/api/v1/private/position/open_positions'' (symbol_parameter symbol) False
       OpenPositions_fromJson OpenPositions_default)"

definition getPositionMode :: "('c, 'w) rest \<Rightarrow> (PositionMode, 'c, 'w) action" where
  "getPositionMode R = act_map (\<lambda>r. PositionMode_of (pm_positionMode r))
     (get_endpoint R ''/api/v1/private/position/position_mode'' [] False
       PositionModeResponse_fromJson PositionModeResponse_default)"

definition changePositionMode :: "('c, 'w) rest \<Rightarrow> PositionMode \<Rightarrow> (unit, 'c, 'w) action" where
  "changePositionMode R mode = act_map (\<lambda>_. ())
     (post_endpoint R ''/api/v1/private/position/change_position_mode''
       (dump (rc_lib R) (jset ''positionMode'' (JInt (PositionMode_int mode)) JNull))
       Response_fromJson Response_default)"

definition submitOrder :: "('c, 'w) rest \<Rightarrow> OrderRequest \<Rightarrow> (OrderResponse, 'c, 'w) action" where
  "submitOrder R req =
     post_endpoint R ''/api/v1/private/order/submit'' (dump (rc_lib R) (OrderRequest_toJson req))
       OrderResponse_fromJson OrderResponse_default"

definition cancelOrders :: "('c, 'w) rest \<Rightarrow> int list \<Rightarrow> (CancelOrderResponse, 'c, 'w) action" where
  "cancelOrders R orderIds =
     post_endpoint R ''/api/v1/private/order/cancel'' (dump (rc_lib R) (JArr (map JInt orderIds)))
       CancelOrderResponse_fromJson CancelOrderResponse_default"

definition cancelOrderByExternalOid :: "('c, 'w) rest \<Rightarrow> string \<Rightarrow> string \<Rightarrow> (OrderResponse, 'c, 'w) action" where
  "cancelOrderByExternalOid R symbol externalOid =
     post_endpoint R ''/api/v1/private/order/cancel_with_external''
       (dump (rc_lib R) (jset ''externalOid'' (JStr externalOid) (jset ''symbol'' (JStr symbol) JNull)))
       OrderResponse_fromJson OrderResponse_default"

definition getOrderByExternalOid :: "('c, 'w) rest \<Rightarrow> string \<Rightarrow> string \<Rightarrow> (OrderDetail, 'c, 'w) action" where
  "getOrderByExternalOid R symbol externalOid = act_map odr_order
     (get_endpoint R (''/api/v1/private/order/external/'' @ symbol @ ''/'' @ externalOid) [] False
       OrderDetailResponse_fromJson OrderDetailResponse_default)"

subsection \<open>Historical candles, page by page\<close>

text \<open>
  \<open>P::getHistoricalPrices\<close> fetches one window; the public method walks backwards from the end time,
  hands every page to the writer, prepends it to the result, and drops the newest candle at the end.
  A venue that keeps answering candles of the same window keeps the loop going for ever; not
  returning is the value \<open>None\<close>. The pages handed to the writer are returned with the result: a
  failure of a later page does not take them back.
\<close>

definition interval_parameter :: "CandleInterval \<Rightarrow> string" where
  "interval_parameter i = (case CandleInterval_name i of None \<Rightarrow> '''' | Some n \<Rightarrow> n)"

definition kline_page ::
  "('c, 'w) rest \<Rightarrow> string \<Rightarrow> CandleInterval \<Rightarrow> int \<Rightarrow> int \<Rightarrow> (Candle list, 'c, 'w) action" where
  "kline_page R symbol interval startTime endTime = act_map cds_candles
     (get_endpoint R (''/api/v1/contract/kline/'' @ symbol)
       (put ''end'' (int_str endTime) (put ''start'' (int_str startTime)
         (put ''interval'' (interval_parameter interval) []))) True
       Candles_fromJson Candles_default)"

text \<open>\<open>oldestTimestamp / 1000\<close> truncates towards zero.\<close>

definition to_seconds :: "int \<Rightarrow> int" where
  "to_seconds t = (if 0 \<le> t then t div 1000 else - (- t div 1000))"

partial_function (option) download ::
  "(int \<Rightarrow> (Candle list, 'c, 'w) action) \<Rightarrow> int \<Rightarrow> Candle list \<Rightarrow> Candle list \<Rightarrow> Candle list list \<Rightarrow>
   ev list \<Rightarrow> ('c, 'w) http_state \<Rightarrow>
   (Candle list result \<times> Candle list list \<times> ev list \<times> ('c, 'w) http_state) option" where
  "download fetch startTime candles retVal written es s =
    (if candles = [] then Some (Inr retVal, written, es, s)
     else
       let currentEndTime = to_seconds (cd_openTime (hd candles)) - 1;
           written' = written @ [candles];
           retVal' = candles @ retVal
       in if startTime < currentEndTime then
            (case fetch currentEndTime s of
               (Inl e, es', s') \<Rightarrow> Some (Inl e, written', es @ es', s')
             | (Inr candles', es', s') \<Rightarrow> download fetch startTime candles' retVal' written' (es @ es') s')
          else Some (Inr retVal', written', es, s))"

definition getHistoricalPrices ::
  "('c, 'w) rest \<Rightarrow> string \<Rightarrow> CandleInterval \<Rightarrow> int \<Rightarrow> int \<Rightarrow> ('c, 'w) http_state \<Rightarrow>
   (Candle list result \<times> Candle list list \<times> ev list \<times> ('c, 'w) http_state) option" where
  "getHistoricalPrices R symbol interval startTime endTime s =
    (if startTime < endTime then
       (case kline_page R symbol interval startTime endTime s of
          (Inl e, es, s') \<Rightarrow> Some (Inl e, [], es, s')
        | (Inr candles, es, s') \<Rightarrow>
            map_option (\<lambda>(res, written, es', s''). (rmap butlast res, written, es', s''))
              (download (kline_page R symbol interval startTime) startTime candles [] [] es s'))
     else Some (Inr [], [], [], s))"

subsection \<open>Traces of the endpoints\<close>

lemma get_endpoint_trace:
  assumes "get_endpoint R path parameters isPublic fromJson retVal s = (res, es, s')"
  obtains ok es' r where "es = Slot # es'"
    and "ladder ok (retryPacingHook (rc_cfg R)) GET 0 False r es'"
    and "\<And>q. ok q \<Longrightarrow> plain_request GET (get_target path parameters) [] q \<and>
      (isPublic \<or> signed_for (rc_net R) (rc_cfg R) (createQueryStr parameters) q)"
    and "res = rbind r (\<lambda>response. rbind (checkResponse response) (handleMEXCResponse (rc_lib R) fromJson retVal))"
proof -
  let ?s = "s\<lparr>world := limiter_wait (rc_net R) (world s)\<rparr>"
  obtain r es' s2 where g: "methodGet (rc_net R) (rc_cfg R) path parameters isPublic ?s = (r, es', s2)"
    by (metis prod_cases3)
  have es: "es = Slot # es'" and
    res: "res = rbind r (\<lambda>response. rbind (checkResponse response) (handleMEXCResponse (rc_lib R) fromJson retVal))"
    using assms g by (auto simp: get_endpoint_def act_bind_def rateLimiter_wait_def act_lift_def after_def split: sum.splits)
  show thesis
  proof (cases isPublic)
    case True
    with g have "methodGet (rc_net R) (rc_cfg R) path parameters True ?s = (r, es', s2)" by simp
    from that [OF es methodGet_public_ladder [OF this]] True res show thesis by simp
  next
    case False
    with g have "methodGet (rc_net R) (rc_cfg R) path parameters False ?s = (r, es', s2)" by simp
    from that [OF es methodGet_private_ladder [OF this]] res show thesis by simp
  qed
qed

lemma post_endpoint_trace:
  assumes "post_endpoint R path body fromJson retVal s = (res, es, s')"
  obtains es' r where "es = Slot # es'"
    and "ladder (\<lambda>q. plain_request POST path body q \<and> signed_for (rc_net R) (rc_cfg R) body q)
      (retryPacingHook (rc_cfg R)) POST 0 False r es'"
    and "res = rbind r (\<lambda>response. rbind (checkResponse response) (handleMEXCResponse (rc_lib R) fromJson retVal))"
proof -
  let ?s = "s\<lparr>world := limiter_wait (rc_net R) (world s)\<rparr>"
  obtain r es' s2 where g: "methodPost (rc_net R) (rc_cfg R) path body ?s = (r, es', s2)"
    by (metis prod_cases3)
  have es: "es = Slot # es'" and
    res: "res = rbind r (\<lambda>response. rbind (checkResponse response) (handleMEXCResponse (rc_lib R) fromJson retVal))"
    using assms g by (auto simp: post_endpoint_def act_bind_def rateLimiter_wait_def act_lift_def after_def split: sum.splits)
  from that [OF es methodPost_ladder [OF g] res] show thesis .
qed

lemma post_endpoint_safe:
  assumes "post_endpoint R path body fromJson retVal s = (res, es, s')"
  shows "resend_safe es" and "length (sents es) \<le> 5"
    and "\<forall>q \<in> set (sents es). plain_request POST path body q \<and> signed_for (rc_net R) (rc_cfg R) body q"
    and "Lost \<in> set es \<Longrightarrow> isl res \<and> last es = Lost"
proof -
  obtain es' r where es: "es = Slot # es'"
    and l: "ladder (\<lambda>q. plain_request POST path body q \<and> signed_for (rc_net R) (rc_cfg R) body q)
      (retryPacingHook (rc_cfg R)) POST 0 False r es'"
    and res: "res = rbind r (\<lambda>response. rbind (checkResponse response) (handleMEXCResponse (rc_lib R) fromJson retVal))"
    by (rule post_endpoint_trace [OF assms])
  show "resend_safe es" using ladder_post_safe [OF l] es by simp
  show "length (sents es) \<le> 5" using ladder_sends [OF l] es by simp
  show "\<forall>q \<in> set (sents es). plain_request POST path body q \<and> signed_for (rc_net R) (rc_cfg R) body q"
    using ladder_ok [OF l] es by simp
  show "isl res \<and> last es = Lost" if "Lost \<in> set es"
    using that ladder_post_lost [OF l] es res by (cases r) auto
qed

subsection \<open>Pagination returns, in order\<close>

text \<open>
  The venue's documented behaviour: a page holds candles of the requested window, oldest first.
\<close>

definition venue_keeps_window :: "(int \<Rightarrow> (Candle list, 'c, 'w) action) \<Rightarrow> int \<Rightarrow> bool" where
  "venue_keeps_window fetch startTime \<longleftrightarrow>
    (\<forall>cur s cs es s'. startTime < cur \<longrightarrow> fetch cur s = (Inr cs, es, s') \<longrightarrow>
       sorted_wrt (<) (map cd_openTime cs) \<and>
       (\<forall>c \<in> set cs. startTime * 1000 \<le> cd_openTime c \<and> cd_openTime c \<le> cur * 1000))"

lemma venue_keeps_windowD:
  assumes "venue_keeps_window fetch startTime" "startTime < cur" "fetch cur s = (Inr cs, es, s')"
  shows "sorted_wrt (<) (map cd_openTime cs)"
    and "\<forall>c \<in> set cs. startTime * 1000 \<le> cd_openTime c \<and> cd_openTime c \<le> cur * 1000"
  using assms unfolding venue_keeps_window_def by blast+

lemma next_window:
  assumes "0 \<le> startTime" "startTime * 1000 \<le> t" "t \<le> cur * 1000"
  shows "to_seconds t - 1 < cur" and "(to_seconds t - 1) * 1000 < t"
  using assms by (auto simp: to_seconds_def)

lemma sorted_join:
  assumes "sorted_wrt (<) (map f xs)" "sorted_wrt (<) (map f ys)"
    and "\<forall>x \<in> set xs. f x \<le> (b::int)" "\<forall>y \<in> set ys. b < f y"
  shows "sorted_wrt (<) (map f (xs @ ys))"
proof -
  have "\<forall>x \<in> set xs. \<forall>y \<in> set ys. f x < f y" using assms(3,4) by (meson order_le_less_trans)
  with assms(1,2) show ?thesis by (auto simp: sorted_wrt_append)
qed

lemma download_ordered:
  assumes venue: "venue_keeps_window fetch startTime" and start: "0 \<le> startTime"
  shows "sorted_wrt (<) (map cd_openTime candles) \<Longrightarrow>
    \<forall>c \<in> set candles. startTime * 1000 \<le> cd_openTime c \<and> cd_openTime c \<le> cur * 1000 \<Longrightarrow>
    sorted_wrt (<) (map cd_openTime retVal) \<Longrightarrow> \<forall>c \<in> set retVal. cur * 1000 < cd_openTime c \<Longrightarrow>
    retVal = concat (rev written) \<Longrightarrow>
    \<exists>res written' es' s'. download fetch startTime candles retVal written es s = Some (res, written', es', s') \<and>
      (\<forall>cs. res = Inr cs \<longrightarrow> sorted_wrt (<) (map cd_openTime cs) \<and> cs = concat (rev written'))"
proof (induction "nat (cur - startTime)" arbitrary: cur candles retVal written es s rule: less_induct)
  case less
  show ?case
  proof (cases "candles = []")
    case True
    then show ?thesis using less.prems by (simp add: download.simps)
  next
    case False
    let ?t = "cd_openTime (hd candles)"
    let ?cur = "to_seconds ?t - 1"
    have t: "startTime * 1000 \<le> ?t" "?t \<le> cur * 1000" using less.prems(2) False by auto
    note nw = next_window [OF start t]
    have joined: "sorted_wrt (<) (map cd_openTime (candles @ retVal))"
      using sorted_join [OF less.prems(1,3)] less.prems(2,4) by auto
    have cat: "candles @ retVal = concat (rev (written @ [candles]))" using less.prems(5) by simp
    have above: "\<forall>c \<in> set (candles @ retVal). ?cur * 1000 < cd_openTime c"
    proof
      fix c assume "c \<in> set (candles @ retVal)"
      then consider "c = hd candles" | "c \<in> set (tl candles)" | "c \<in> set retVal"
        using False by (cases candles) auto
      then have "?t \<le> cd_openTime c"
      proof cases
        case 2
        then show ?thesis using less.prems(1) False by (cases candles) auto
      next
        case 3
        then show ?thesis using less.prems(4) t(2) by fastforce
      qed simp
      then show "?cur * 1000 < cd_openTime c" using nw(2) by linarith
    qed
    show ?thesis
    proof (cases "startTime < ?cur")
      case stop: False
      then show ?thesis using joined cat False
        by (subst download.simps) (simp add: Let_def)
    next
      case more: True
      obtain r es1 s1 where f: "fetch ?cur s = (r, es1, s1)" by (metis prod_cases3)
      show ?thesis
      proof (cases r)
        case (Inl e)
        then show ?thesis using f more False by (subst download.simps) (simp add: Let_def)
      next
        case (Inr cs)
        note page = venue_keeps_windowD [OF venue more f [unfolded Inr]]
        have "nat (?cur - startTime) < nat (cur - startTime)" using nw(1) more by simp
        from less.hyps [OF this page joined above cat] show ?thesis
          using f more False Inr by (subst download.simps) (simp add: Let_def)
      qed
    qed
  qed
qed

lemma sorted_butlast: "sorted_wrt P xs \<Longrightarrow> sorted_wrt P (butlast xs)"
  by (cases xs rule: rev_cases) (auto simp: sorted_wrt_append)

subsection \<open>A concrete network, for examples\<close>

definition canned_rest :: "(http_request \<Rightarrow> nat \<Rightarrow> http_response result) \<Rightarrow> (string \<Rightarrow> json result) \<Rightarrow> (unit, nat) rest" where
  "canned_rest answer parser = \<lparr>rc_net = canned_net answer, rc_lib = std_jlib\<lparr>parse := parser\<rparr>,
     rc_cfg = session_config ''key'' ''secret''\<rparr>"

lemma canned_rest_sel [simp]:
  "rc_net (canned_rest answer parser) = canned_net answer"
  "rc_lib (canned_rest answer parser) = std_jlib\<lparr>parse := parser\<rparr>"
  "rc_cfg (canned_rest answer parser) = session_config ''key'' ''secret''"
  by (simp_all add: canned_rest_def)

definition canned_start :: "(unit, nat) http_state" where
  "canned_start = \<lparr>pool = [], world = 0\<rparr>"

definition answer_with :: "string \<Rightarrow> http_request \<Rightarrow> nat \<Rightarrow> http_response result" where
  "answer_with body q k = Inr \<lparr>rs_status = 200, rs_body = body, rs_keep_alive = True\<rparr>"

text \<open>A network that always answers \<open>body\<close>: a GET from the start returns what the answer parses to.\<close>

lemma canned_get:
  assumes "\<not> throttled \<lparr>rs_status = 200, rs_body = body, rs_keep_alive = True\<rparr>"
    and "\<And>response. handleMEXCResponse (std_jlib\<lparr>parse := parser\<rparr>) fromJson retVal response = Inr r"
  shows "fst (get_endpoint (canned_rest (answer_with body) parser) path ps pub fromJson retVal canned_start) = Inr r"
  using assms
  by (simp add: get_endpoint_def act_bind_def rateLimiter_wait_def after_def act_lift_def methodGet_def request_def
      request_loop.simps [where attempt = 0] prepare_retry_def performOnce_def takeConn.simps canned_net_def canned_start_def
      answer_with_def checkResponse_def Let_def)

definition one_candle :: json where
  "one_candle = JObj [(''data'', JObj [(''amount'', JArr [JInt 1]), (''close'', JArr [JInt 1]), (''high'', JArr [JInt 1]),
     (''low'', JArr [JInt 1]), (''open'', JArr [JInt 1]), (''time'', JArr [JInt 10]), (''vol'', JArr [JInt 1])]),
     (''success'', JBool True)]"


definition refused_once :: "http_request \<Rightarrow> nat \<Rightarrow> http_response result" where
  "refused_once q k = (if k = 0 then answer_with ''{\"code\":510}'' q k else answer_with ''ok'' q k)"

definition parse_to :: "json \<Rightarrow> string \<Rightarrow> json result" where
  "parse_to j body = Inr j"

definition accepted :: json where
  "accepted = JObj [(''success'', JBool True)]"

subsection \<open>Properties\<close>

text \<open>
  C3. An order is never re-sent blindly: whatever the network does, every request that
  \<open>submitOrder\<close> puts on the wire is the POST of the order's JSON, a request that is followed by
  another one was refused by the venue with a 510, a request whose fate is unknown (the connection
  failed after the write) ends the call with an exception, and at most five are sent.
\<close>

theorem order_resent_only_when_refused:
  assumes "submitOrder R req s = (res, es, s')" and "es = xs @ Sent q # ys"
  shows "rq_method q = POST \<and> rq_target q = ''/api/v1/private/order/submit'' \<and>
    rq_body q = dump (rc_lib R) (OrderRequest_toJson req) \<and>
    (sents ys = [] \<or> (\<exists>r zs. ys = Reply r # zs \<and> throttled r)) \<and>
    (Lost \<in> set es \<longrightarrow> isl res \<and> last es = Lost) \<and> length (sents es) \<le> 5"
proof -
  note safe = post_endpoint_safe [OF assms(1) [unfolded submitOrder_def]]
  have "q \<in> set (sents es)" using assms(2) by (simp add: in_sents)
  then show ?thesis
    using safe resend_safe_split [of xs q ys] assms(2) by (auto simp: plain_request_def)
qed

theorem order_resent_only_when_refused_witness:
  "let (res, es, s') = submitOrder (canned_rest refused_once (parse_to accepted)) OrderRequest_default canned_start
   in \<not> isl res \<and> sents (drop 3 es) \<noteq> [] \<and> (\<exists>r zs. drop 3 es = Reply r # zs \<and> throttled r)"
proof -
  let ?run = "submitOrder (canned_rest refused_once (parse_to accepted)) OrderRequest_default canned_start"
  obtain res es s' where run: "?run = (res, es, s')" by (metis prod_cases3)
  have "let (res, es, s') = ?run in \<not> isl res \<and> sents (drop 3 es) \<noteq> [] \<and>
      es = [Slot, Connected True] @ Sent (hd (sents es)) # drop 3 es" by code_simp
  then have ne: "\<not> isl res" "sents (drop 3 es) \<noteq> []"
    and es: "es = [Slot, Connected True] @ Sent (hd (sents es)) # drop 3 es" using run by auto
  from order_resent_only_when_refused [OF run es] ne show ?thesis by (simp add: run)
qed


definition refused_always :: "http_request \<Rightarrow> nat \<Rightarrow> http_response result" where
  "refused_always = answer_with ''{\"code\":510}''"


text \<open>
  C22. Every private request carries a valid signature, after every re-authentication: for a POST it
  covers the very body that is sent, for a GET the very query string in its target, under the time
  stamp of its own \<open>Request-Time\<close> header.
\<close>

theorem requests_signed:
  "(post_endpoint R path jsonBody fromJson retVal s = (res, es, s') \<longrightarrow>
      (\<forall>q \<in> set (sents es). signed_for (rc_net R) (rc_cfg R) (rq_body q) q)) \<and>
   (get_endpoint R path parameters False fromJson retVal s = (res, es, s') \<longrightarrow>
      (\<forall>q \<in> set (sents es). signed_for (rc_net R) (rc_cfg R) (createQueryStr parameters) q \<and>
        rq_target q = get_target path parameters \<and> rq_body q = []))"
proof (intro conjI impI)
  assume "post_endpoint R path jsonBody fromJson retVal s = (res, es, s')"
  from post_endpoint_safe(3) [OF this]
  show "\<forall>q \<in> set (sents es). signed_for (rc_net R) (rc_cfg R) (rq_body q) q"
    by (auto simp: plain_request_def)
next
  assume "get_endpoint R path parameters False fromJson retVal s = (res, es, s')"
  then obtain ok es' r where es: "es = Slot # es'" and l: "ladder ok (retryPacingHook (rc_cfg R)) GET 0 False r es'"
    and ok: "\<And>q. ok q \<Longrightarrow> plain_request GET (get_target path parameters) [] q \<and>
      signed_for (rc_net R) (rc_cfg R) (createQueryStr parameters) q"
    by (rule get_endpoint_trace) auto
  show "\<forall>q \<in> set (sents es). signed_for (rc_net R) (rc_cfg R) (createQueryStr parameters) q \<and>
      rq_target q = get_target path parameters \<and> rq_body q = []"
    using ladder_ok [OF l] ok es by (auto simp: plain_request_def)
qed

theorem requests_signed_witness:
  "case post_endpoint (canned_rest refused_once (parse_to accepted)) ''/p'' ''{}'' Response_fromJson
      Response_default canned_start of (res, es, s') \<Rightarrow>
     map (\<lambda>q. header q ''Request-Time'') (sents es) = [Some ''0'', Some ''1''] \<and>
     (\<forall>q \<in> set (sents es). signed_for (canned_net refused_once) (session_config ''key'' ''secret'') (rq_body q) q)"
proof -
  let ?R = "canned_rest refused_once (parse_to accepted)"
  let ?run = "post_endpoint ?R ''/p'' ''{}'' Response_fromJson Response_default canned_start"
  obtain res es s' where run: "?run = (res, es, s')" by (metis prod_cases3)
  have "case ?run of (res, es, s') \<Rightarrow>
     map (\<lambda>q. header q ''Request-Time'') (sents es) = [Some ''0'', Some ''1'']" by code_simp
  moreover have "\<forall>q \<in> set (sents es). signed_for (rc_net ?R) (rc_cfg ?R) (rq_body q) q"
    using requests_signed [of ?R "''/p''" "''{}''" Response_fromJson Response_default canned_start res es s'] run
    by blast
  ultimately show ?thesis by (simp add: run)
qed

text \<open>
  C23. Downloading candles terminates and is ordered: if every page the venue returns lies in the
  window asked for, oldest candle first, then \<open>getHistoricalPrices\<close> returns; unless a request
  fails, the result is in strictly ascending order of time, and it is the pages given to the
  writer, last page first, less the newest candle.
\<close>

theorem candles_ordered:
  assumes "venue_keeps_window (kline_page R symbol interval startTime) startTime" and "0 \<le> startTime"
  shows "\<exists>res written es s'. getHistoricalPrices R symbol interval startTime endTime s = Some (res, written, es, s') \<and>
    (\<forall>cs. res = Inr cs \<longrightarrow> sorted_wrt (<) (map cd_openTime cs) \<and> cs = butlast (concat (rev written)))"
proof (cases "startTime < endTime")
  case False
  then show ?thesis by (simp add: getHistoricalPrices_def)
next
  case True
  obtain r es s1 where page: "kline_page R symbol interval startTime endTime s = (r, es, s1)" by (metis prod_cases3)
  show ?thesis
  proof (cases r)
    case (Inl e)
    then show ?thesis using True page by (simp add: getHistoricalPrices_def)
  next
    case (Inr candles)
    note w = venue_keeps_windowD [OF assms(1) True page [unfolded Inr]]
    obtain res written es' s' where
      d: "download (kline_page R symbol interval startTime) startTime candles [] [] es s1 = Some (res, written, es', s')"
      and ok: "\<forall>cs. res = Inr cs \<longrightarrow> sorted_wrt (<) (map cd_openTime cs) \<and> cs = concat (rev written)"
      using download_ordered [OF assms w, of "[]" "[]" es s1] by auto
    then show ?thesis
      using True page Inr
      by (cases res) (auto simp: getHistoricalPrices_def map_butlast sorted_butlast)
  qed
qed

lemma candle_at_time:
  "candle_at L d i = Inr c \<Longrightarrow> \<exists>t n. jindex (column d ''time'') i = Inr t \<and> get_i64 L t = Inr n \<and> cd_openTime c = n * 1000"
  by (auto simp: candle_at_def)

lemma one_candle_parsed:
  assumes "fresh (Candles_fromJson (std_jlib\<lparr>parse := p\<rparr>) one_candle) Candles_default = Inr c"
  shows "map cd_openTime (cds_candles c) = [10000]"
  using assms
  by (auto simp: fresh_def Candles_fromJson_def Response_fromJson_def field_def std_jlib_simps one_candle_def column_def
      Candles_default_def split: prod.splits option.splits sum.splits dest!: candle_at_time)

lemma one_candle_page:
  assumes "kline_page (canned_rest answer (parse_to one_candle)) symbol interval startTime cur s = (Inr cs, es, s')"
  shows "map cd_openTime cs = [10000]"
proof -
  let ?R = "canned_rest answer (parse_to one_candle)"
  let ?L = "std_jlib\<lparr>parse := parse_to one_candle\<rparr>"
  obtain c where e: "get_endpoint ?R (''/api/v1/contract/kline/'' @ symbol) (put ''end'' (int_str cur)
      (put ''start'' (int_str startTime) (put ''interval'' (interval_parameter interval) []))) True
      Candles_fromJson Candles_default s = (Inr c, es, s')" and cs: "cs = cds_candles c"
    using assms by (auto simp: kline_page_def act_map_def act_bind_def act_lift_def after_def split: prod.splits sum.splits)
  from e obtain r where "Inr c = rbind r (\<lambda>response. rbind (checkResponse response)
      (handleMEXCResponse ?L Candles_fromJson Candles_default))"
    by (rule get_endpoint_trace) simp
  then obtain response where "Inr c = handleMEXCResponse ?L Candles_fromJson Candles_default response"
    by (cases r) (auto simp: checkResponse_def split: if_splits)
  then have "fresh (Candles_fromJson ?L one_candle) Candles_default = Inr c"
    by (auto simp: handleMEXCResponse_def parse_to_def split: if_splits dest: sym)
  from one_candle_parsed [OF this] cs show ?thesis by simp
qed

theorem candles_ordered_witness:
  "case getHistoricalPrices (canned_rest (answer_with ''page'') (parse_to one_candle)) ''BTC_USDT'' I_1m 10 20 canned_start of
     None \<Rightarrow> False | Some (res, written, es, s') \<Rightarrow>
       (\<forall>cs. res = Inr cs \<longrightarrow> sorted_wrt (<) (map cd_openTime cs) \<and> cs = butlast (concat (rev written)))"
proof -
  let ?R = "canned_rest (answer_with ''page'') (parse_to one_candle)"
  have "venue_keeps_window (kline_page ?R ''BTC_USDT'' I_1m 10) 10"
    unfolding venue_keeps_window_def
  proof (intro allI impI)
    fix cur s cs es s'
    assume "(10::int) < cur" and "kline_page ?R ''BTC_USDT'' I_1m 10 cur s = (Inr cs, es, s')"
    then have "map cd_openTime cs = [10000]" "10 < cur" using one_candle_page by blast+
    then show "sorted_wrt (<) (map cd_openTime cs) \<and> (\<forall>c \<in> set cs. 10 * 1000 \<le> cd_openTime c \<and> cd_openTime c \<le> cur * 1000)"
      by (auto simp: map_eq_Cons_conv)
  qed
  from candles_ordered [OF this, of 20 canned_start] show ?thesis by auto
qed

end
