(* ===== verification/Reject_Kinds.thy ===== *)
theory Reject_Kinds
  imports Rest_Client
begin

section \<open>Classifying the venue's rejects\<close>

text \<open>
  \<open>classifyReject\<close>, \<open>classifyErrorCode\<close> and \<open>isOrderGoneReason\<close> of \<open>mexc_execution_gateway.cpp\<close>. The
  first and the last search the lower-cased text of the exception a REST call ended with, the
  second maps the error code of the private order channel.
\<close>

definition has_any :: "string \<Rightarrow> string list \<Rightarrow> bool" where
  "has_any r ps \<longleftrightarrow> list_ex (str_has r) ps"

definition classifyReject :: "string \<Rightarrow> RejectKind" where
  "classifyReject reason =
    (let r = toLower reason in
     if has_any r [''code: 510'', ''too frequent'', ''too many requests'', ''code: 513'',
          ''invalid request, please try again later''] then Throttled
     else if has_any r [''code: 2009'', ''nonexistent''] then PositionClosed
     else if str_has r ''maker'' \<and> has_any r [''match'', ''immediately'', ''take''] then BenignPostOnlyCross
     else if has_any r [''insufficient'', ''margin'', ''balance''] then Hard
     else if str_has r ''min'' \<and> has_any r [''vol'', ''amount'', ''size''] then MinNotional
     else if has_any r [''not activated'', ''prohibited'', ''not allowed'', ''not exist'', ''risk management'',
          ''risk quota'', ''risk limit'', ''restricted'', ''code: 6002'', ''code: 8950'', ''country or region'',
          ''only close existing''] then Permanent
     else Hard)"

definition classifyErrorCode :: "int \<Rightarrow> RejectKind" where
  "classifyErrorCode errorCode =
    (if errorCode = 20 then BenignPostOnlyCross
     else if errorCode = 3 then PositionClosed
     else if errorCode = 7 then Permanent
     else if errorCode = 6002 then Permanent
     else Hard)"

definition isOrderGoneReason :: "string \<Rightarrow> bool" where
  "isOrderGoneReason reason \<longleftrightarrow>
    has_any (toLower reason) [''not exist'', ''does not exist'', ''already'', ''code: 2013'', ''code: 2040'']"

text \<open>\<open>refetchSpecAfterPrecisionReject\<close> reacts to these texts.\<close>

definition isPrecisionReject :: "string \<Rightarrow> bool" where
  "isPrecisionReject reason \<longleftrightarrow> has_any (toLower reason) [''code: 2015'', ''precision'']"

subsection \<open>Codes in the text of a REST error\<close>

lemma has_any_Cons [simp]: "has_any r (p # ps) \<longleftrightarrow> str_has r p \<or> has_any r ps"
  and has_any_Nil [simp]: "\<not> has_any r []"
  by (simp_all add: has_any_def)

lemma int_str_no_nul: "CHR 0x00 \<notin> set (int_str n)"
proof -
  have "\<not> is_digit (CHR 0x00)" by code_simp
  then have "list_all is_digit s \<Longrightarrow> CHR 0x00 \<notin> set s" for s by (auto simp: list_all_iff)
  then show ?thesis using digits_ok [of n] digits_ok [of "- n"] by (auto simp: int_str_def)
qed

lemma c_str_append: "CHR 0x00 \<notin> set a \<Longrightarrow> c_str (a @ b) = a @ c_str b"
  unfolding c_str_def by (induction a) auto

lemma api_error_text:
  "what (api_error code msg) = ''MEXC API error, code: '' @ int_str code @ '', msg: '' @ c_str msg"
proof -
  have "CHR 0x00 \<notin> set (''MEXC API error, code: '' @ int_str code @ '', msg: '')"
    using int_str_no_nul [of code] by simp
  from c_str_append [OF this, of msg] show ?thesis by (simp add: api_error_def)
qed

text \<open>A code is found by any prefix of its decimal digits.\<close>

lemma api_error_code:
  assumes "prefix p (int_str code)" and "toLower p = p"
  shows "str_has (toLower (what (api_error code msg))) (''code: '' @ p)"
proof -
  obtain z where z: "int_str code = p @ z" using assms(1) by (auto simp: prefix_def)
  have "what (api_error code msg) = ''MEXC API error, '' @ (''code: '' @ p) @ (z @ '', msg: '' @ c_str msg)"
    by (simp add: api_error_text z)
  then have "str_has (what (api_error code msg)) (''code: '' @ p)" by (metis str_has_infix)
  then have "str_has (toLower (what (api_error code msg))) (toLower (''code: '' @ p))" by (rule toLower_has)
  moreover have "toLower ''code: '' = ''code: ''" by code_simp
  ultimately show ?thesis by (simp only: toLower_append assms(2))
qed

lemma classify_lower [simp]:
  "classifyReject (toLower s) = classifyReject s"
  "isOrderGoneReason (toLower s) = isOrderGoneReason s"
  "isPrecisionReject (toLower s) = isPrecisionReject s"
  by (simp_all add: classifyReject_def isOrderGoneReason_def isPrecisionReject_def)

lemma toLower_codes [simp]:
  "toLower ''510'' = ''510''" "toLower ''513'' = ''513''" "toLower ''2009'' = ''2009''" "toLower ''2013'' = ''2013''"
  "toLower ''2040'' = ''2040''" "toLower ''2015'' = ''2015''"
  by code_simp+

subsection \<open>Properties\<close>

text \<open>
  Whatever the venue writes in the message, a REST error with code 510 or 513 is congestion
  (\<open>Throttled\<close>), one with code 2013 or 2040 means that the order is gone, and one with code 2015 is a
  precision reject. The search is by substring, so every code that starts with these digits is
  classified alike: 5100 to 5109 too count as congestion.
\<close>

theorem rest_codes_classified:
  "(prefix ''510'' (int_str code) \<or> prefix ''513'' (int_str code) \<longrightarrow>
      classifyReject (what (api_error code msg)) = Throttled) \<and>
   (prefix ''2013'' (int_str code) \<or> prefix ''2040'' (int_str code) \<longrightarrow>
      isOrderGoneReason (what (api_error code msg))) \<and>
   (prefix ''2015'' (int_str code) \<longrightarrow> isPrecisionReject (what (api_error code msg)))"
  using api_error_code [of "''510''" code msg] api_error_code [of "''513''" code msg]
    api_error_code [of "''2013''" code msg] api_error_code [of "''2040''" code msg]
    api_error_code [of "''2015''" code msg]
  by (auto simp: classifyReject_def isOrderGoneReason_def isPrecisionReject_def Let_def)

theorem rest_codes_classified_witness:
  "classifyReject (what (api_error 510 ''Requests are too frequent'')) = Throttled \<and>
   classifyReject (what (api_error 5101 ''some other error'')) = Throttled \<and>
   isOrderGoneReason (what (api_error 2040 ''order is finished'')) \<and> isPrecisionReject (what (api_error 2015 ''Price or quantity precision error''))"
proof -
  have "prefix ''510'' (int_str 510)" "prefix ''510'' (int_str 5101)" "prefix ''2040'' (int_str 2040)"
    "prefix ''2015'' (int_str 2015)" by code_simp+
  then show ?thesis using rest_codes_classified by blast
qed

end
