(* ===== verification/Order_Sizing.thy ===== *)
theory Order_Sizing
  imports Strings Json
begin

section \<open>Prices and volumes of an order\<close>

text \<open>
  The arithmetic of \<open>submitPostOnlyLimit\<close> and \<open>submitReduceOnlyMarket\<close> in
  \<open>mexc_execution_gateway.cpp\<close>: decimals of a tick (\<open>decimalsOf\<close>), rounding to decimals through a
  string (\<open>roundToDecimals\<close>), the price snapped to the tick grid (\<open>snapPrice\<close>), the volume in
  contracts (\<open>order_vol\<close>). All of it is binary64.
\<close>

subsection \<open>Definitions\<close>

definition one_e9 :: flt where
  "one_e9 = fl (1 / 1000000000)"

function decimals_loop :: "int \<Rightarrow> flt \<Rightarrow> int" where
  "decimals_loop d t =
    (if d < 12 \<and> dlt one_e9 (dabs (dsub t (dround t))) then decimals_loop (d + 1) (dmul t (Fin 10)) else d)"
  by pat_completeness auto

termination by (relation "measure (\<lambda>(d, t). nat (12 - d))") auto

declare decimals_loop.simps [simp del]

definition decimalsOf :: "flt \<Rightarrow> int" where
  "decimalsOf step = (if dle step (Fin 0) then 8 else decimals_loop 0 step)"

definition roundToDecimals :: "jlib \<Rightarrow> flt \<Rightarrow> int \<Rightarrow> flt result" where
  "roundToDecimals L v decimals = stod (fmt_fixed L decimals v)"

definition snapPrice :: "flt \<Rightarrow> flt \<Rightarrow> flt" where
  "snapPrice price tick = (if dlt (Fin 0) tick then dmul (dround (ddiv price tick)) tick else price)"

definition order_vol :: "flt \<Rightarrow> flt \<Rightarrow> flt \<Rightarrow> flt" where
  "order_vol qty cs vu =
    (let vol = dround (ddiv qty cs)
     in if dlt (Fin 1) vu then dmul (dfloor (dadd (ddiv vol vu) one_e9)) vu else vol)"

subsection \<open>The volume is a floor to whole volume units\<close>

lemma rnd64_rel:
  assumes "1 / 10 ^ 300 \<le> x"
  shows "rnd64 x \<le> x + x / 2 ^ 53" and "x - x / 2 ^ 53 \<le> rnd64 x"
proof -
  have "(1::rat) / 2 ^ 1022 \<le> 1 / 10 ^ 300" "(0::rat) < 1 / 10 ^ 300" by simp_all
  then have "1 / 2 ^ 1022 \<le> x" "0 < x" using assms by (blast intro: order_trans less_le_trans)+
  then have x: "1 / 2 ^ 1022 \<le> \<bar>x\<bar>" "\<bar>x\<bar> = x" by (simp_all only: abs_of_pos)
  have "\<bar>rnd64 x - x\<bar> \<le> x / 2 ^ 53" using r64.err [OF x(1)] unfolding x(2) .
  then show "rnd64 x \<le> x + x / 2 ^ 53" and "x - x / 2 ^ 53 \<le> rnd64 x" by linarith+
qed

lemma one_e9_Fin: "\<exists>e. one_e9 = Fin e \<and> 0 \<le> e \<and> e \<le> 1 / 100000000"
proof -
  have "one_e9 = Fin (rnd64 (1 / 1000000000))" unfolding one_e9_def by (rule fl_abs_small) simp
  moreover have "0 \<le> rnd64 (1 / 1000000000)" by (rule rnd64_nonneg) simp
  moreover have "rnd64 (1 / 1000000000) \<le> 1 / 100000000"
    using rnd64_rel(1) [of "1 / 1000000000"] by simp
  ultimately show ?thesis by blast
qed


lemma rnd64_close:
  assumes "0 \<le> x" "x \<le> 2 ^ 31"
  shows "\<bar>rnd64 x - x\<bar> \<le> 1 / 2 ^ 21"
proof (cases "1 / 10 ^ 7 \<le> x")
  case True
  have "(1::rat) / 2 ^ 1022 \<le> 1 / 10 ^ 7" by simp
  then have "\<bar>rnd64 x - x\<bar> \<le> \<bar>x\<bar> / 2 ^ 53" using True by (intro r64.err) linarith
  also have "\<dots> \<le> 1 / 2 ^ 21" using assms by simp
  finally show ?thesis .
next
  case False
  then have "rnd64 x \<le> rnd64 (1 / 10 ^ 7)" by (intro rnd64_mono) simp
  also have "\<dots> \<le> 2 / 10 ^ 7" using rnd64_rel(1) [of "1 / 10 ^ 7"] by simp
  finally have "rnd64 x \<le> 2 / 10 ^ 7" .
  moreover have "(2::rat) / 10 ^ 7 \<le> 1 / 2 ^ 21" "(1::rat) / 10 ^ 7 \<le> 1 / 2 ^ 21" by simp_all
  ultimately show ?thesis
    using rnd64_nonneg [OF assms(1)] False assms(1) unfolding abs_le_iff by linarith
qed

lemma round_away_near: "\<bar>of_int (round_away x) - x\<bar> \<le> 1 / 2"
proof (cases "0 \<le> x")
  case True
  then have "round_away x = \<lfloor>x + 1 / 2\<rfloor>" by (simp add: round_away_def)
  with floor_correct [of "x + 1 / 2"] show ?thesis unfolding abs_le_iff by linarith
next
  case False
  then have "of_int (round_away x) = - (of_int \<lfloor>1 / 2 - x\<rfloor> :: rat)" by (simp add: round_away_def)
  with floor_correct [of "1 / 2 - x"] show ?thesis unfolding abs_le_iff by linarith
qed

lemma round_away_nonneg: "0 \<le> x \<Longrightarrow> 0 \<le> round_away x"
  by (simp add: round_away_def)

text \<open>The contracts of a base quantity: the quotient rounded to the nearest whole number.\<close>

lemma contracts_of:
  assumes "0 < c" "0 \<le> q" "q / c \<le> 2 ^ 31 - 1"
  obtains v where "dround (ddiv (Fin q) (Fin c)) = whole v" "0 \<le> v" "v \<le> 2 ^ 31"
    "\<bar>of_int v - q / c\<bar> \<le> 1 / 2 + 1 / 2 ^ 21"
proof -
  let ?x = "q / c" and ?v = "round_away (rnd64 (q / c))"
  have x: "0 \<le> ?x" "?x \<le> 2 ^ 31" using assms by simp_all
  have "fl ?x = Fin (rnd64 ?x)" by (rule fl_abs_small) (use x in simp)
  then have "dround (ddiv (Fin q) (Fin c)) = whole ?v" using assms(1) by (simp add: whole_def)
  moreover have near: "\<bar>of_int ?v - ?x\<bar> \<le> 1 / 2 + 1 / 2 ^ 21"
    using round_away_near [of "rnd64 ?x"] rnd64_close [OF x] by linarith
  moreover have "0 \<le> ?v" by (intro round_away_nonneg rnd64_nonneg x)
  moreover have "?v \<le> 2 ^ 31"
  proof -
    have "(of_int ?v :: rat) \<le> q / c + (1 / 2 + 1 / 2 ^ 21)" using near by linarith
    also have "\<dots> < of_int (2 ^ 31 + 1)" using assms(3) by simp
    finally have "(of_int ?v :: rat) < of_int (2 ^ 31 + 1)" .
    then have "?v < 2 ^ 31 + 1" by (simp only: of_int_less_iff)
    then show ?thesis by simp
  qed
  ultimately show thesis using that by blast
qed

lemma whole_units:
  assumes "0 \<le> v" "v \<le> 2 ^ 31" "2 \<le> u" "u \<le> 10 ^ 6"
  shows "dfloor (dadd (ddiv (whole v) (whole u)) one_e9) = whole (v div u)"
proof -
  obtain e where e: "one_e9 = Fin e" "0 \<le> e" "e \<le> 1 / 100000000" using one_e9_Fin by blast
  have x: "0 \<le> (of_int v / of_int u :: rat)" "of_int v / of_int u \<le> (2 ^ 31 :: rat)"
  proof -
    show "0 \<le> (of_int v / of_int u :: rat)" using assms by simp
    have "(of_int v :: rat) \<le> of_int (2 ^ 31)" using assms(2) by (simp only: of_int_le_iff)
    then have "(of_int v / of_int u :: rat) \<le> of_int (2 ^ 31) / 1" using assms by (intro frac_le) auto
    then show "of_int v / of_int u \<le> (2 ^ 31 :: rat)" by simp
  qed
  let ?r = "rnd64 (of_int v / of_int u)"
  have "?r \<le> of_int v / of_int u + 1 / 2 ^ 21" using rnd64_close [OF x] by linarith
  then have "?r \<le> 2 ^ 31 + 1" using x(2) by simp
  with rnd64_nonneg [OF x(1)] have r: "0 \<le> ?r" "?r \<le> 2 ^ 31 + 1" by simp_all
  have d: "ddiv (whole v) (whole u) = Fin ?r"
    using assms fl_abs_small [of "of_int v / of_int u"] x by (simp add: whole_def)
  have s: "dadd (Fin ?r) (Fin e) = Fin (rnd64 (?r + e))"
    using fl_abs_small [of "?r + e"] r e(2,3) by simp
  have "\<lfloor>rnd64 (?r + e)\<rfloor> = v div u"
  proof (cases "v = 0")
    case True
    have "rnd64 e \<le> rnd64 (1 / 100000000)" using e by (intro rnd64_mono) simp
    also have "\<dots> < 1" using rnd64_rel(1) [of "1 / 100000000"] by simp
    finally have "rnd64 e < 1" .
    then show ?thesis using True e rnd64_nonneg [of e] by (simp add: floor_eq_iff)
  next
    case False
    then show ?thesis using assms e by (intro r64.floor_div) auto
  qed
  then show ?thesis unfolding d e(1) s by (simp add: whole_def)
qed

lemma order_vol_whole:
  assumes "dround (ddiv qty cs) = whole v" "0 \<le> v" "v \<le> 2 ^ 31" "1 \<le> u" "u \<le> 10 ^ 6"
  shows "order_vol qty cs (whole u) = whole (u * (v div u))"
proof (cases "u = 1")
  case True
  then show ?thesis using assms(1) by (simp add: order_vol_def whole_def)
next
  case False
  then have u: "2 \<le> u" "dlt (Fin 1) (whole u)" using assms by (simp_all add: whole_def)
  have "u * (v div u) + v mod u = v" "0 \<le> v mod u" using assms by simp_all
  then have "u * (v div u) \<le> v" by linarith
  moreover have "0 \<le> u * (v div u)" using assms pos_imp_zdiv_nonneg_iff [of u v] by simp
  ultimately have "\<bar>u * (v div u)\<bar> \<le> v" by simp
  then have "\<bar>(v div u) * u\<bar> < 2 ^ 53" using assms(3) by (simp add: mult.commute)
  then show ?thesis
    using u whole_units [OF assms(2,3) u(1) assms(5)] assms(1)
    by (simp add: order_vol_def dmul_whole mult.commute)
qed

subsection \<open>Properties\<close>

text \<open>
  C21. The volume of an order is a whole number of volume units, and it is what the quantity affords:
  for a quantity of \<open>q\<close> base units, contracts of \<open>c\<close> base units and a volume unit of \<open>u\<close> contracts,
  the volume is the largest multiple of \<open>u\<close> not above \<open>v\<close>, the number of contracts nearest to
  \<open>q / c\<close>. No rounding of the binary64 arithmetic ever costs or adds a unit.
\<close>

theorem order_volume_floor:
  assumes "0 < c" "0 \<le> q" "q / c \<le> 2 ^ 31 - 1" "1 \<le> u" "u \<le> 10 ^ 6"
  shows "\<exists>v. order_vol (Fin q) (Fin c) (whole u) = whole (u * (v div u)) \<and>
    \<bar>of_int v - q / c\<bar> \<le> 1 / 2 + 1 / 2 ^ 21"
proof -
  obtain v where v: "dround (ddiv (Fin q) (Fin c)) = whole v" "0 \<le> v" "v \<le> 2 ^ 31"
    "\<bar>of_int v - q / c\<bar> \<le> 1 / 2 + 1 / 2 ^ 21"
    by (rule contracts_of [OF assms(1,2,3)])
  then show ?thesis using order_vol_whole [OF v(1,2,3) assms(4,5)] by blast
qed

theorem order_volume_floor_witness:
  "\<exists>v. order_vol (Fin 37) (Fin (1 / 10)) (whole 25) = whole (25 * (v div 25)) \<and>
    \<bar>of_int v - 37 / (1 / 10)\<bar> \<le> (1 / 2 + 1 / 2 ^ 21 :: rat)"
  by (rule order_volume_floor) simp_all

text \<open>
  An order can be rounded up, against the comment next to the floor: the quantity is rounded to
  the nearest number of contracts before the floor applies, so that one and a half contracts
  become two.
\<close>

theorem order_rounded_up:
  "order_vol (Fin (3 / 2)) (Fin 1) (whole 1) = whole 2 \<and>
   order_vol (Fin (19 / 2)) (Fin 1) (whole 5) = whole 10"
proof -
  have "dround (ddiv (Fin (3 / 2)) (Fin 1)) = whole 2" "dround (ddiv (Fin (19 / 2)) (Fin 1)) = whole 10"
    by code_simp+
  then show ?thesis
    using order_vol_whole [of "Fin (3 / 2)" "Fin 1" 2 1] order_vol_whole [of "Fin (19 / 2)" "Fin 1" 10 5] by simp
qed


subsection \<open>Decimals of a decimal tick\<close>

lemma one_e9_eq: "one_e9 = Fin (rnd64 (1 / 10 ^ 9))"
  unfolding one_e9_def by (subst fl_abs_small) simp_all

lemma rnd64_abs: "\<bar>rnd64 y\<bar> = rnd64 \<bar>y\<bar>"
  using rnd64_nonneg [of y] rnd64_nonneg [of "- y"] by (cases "0 \<le> y") (simp_all add: rnd64_minus)

text \<open>The loop at a value close to \<open>10 ^ - i\<close>: it stops at one, and goes on above it.\<close>

lemma loop_at_one:
  assumes "\<bar>t - 1\<bar> \<le> 9 / 2 ^ 50"
  shows "decimals_loop d (Fin t) = d"
proof -
  have "\<bar>t - 1\<bar> \<le> 1 / 10 ^ 9" "\<bar>t - 1\<bar> \<le> 2 ^ 53 - 1" using assms by simp_all
  have "round_away t = 1"
  proof -
    have "1 \<le> t + 1 / 2" "t + 1 / 2 < 2" "0 \<le> t" using \<open>\<bar>t - 1\<bar> \<le> 1 / 10 ^ 9\<close> unfolding abs_le_iff by simp_all
    then show ?thesis by (simp add: round_away_def floor_eq_iff)
  qed
  then have "dsub (Fin t) (dround (Fin t)) = Fin (rnd64 (t - 1))"
    using fl_abs_small [OF \<open>\<bar>t - 1\<bar> \<le> 2 ^ 53 - 1\<close>] by (simp add: dsub_def)
  moreover have "rnd64 \<bar>t - 1\<bar> \<le> rnd64 (1 / 10 ^ 9)" by (rule rnd64_mono) fact
  ultimately show ?thesis by (simp add: decimals_loop.simps [of d "Fin t"] one_e9_eq rnd64_abs not_less)
qed

lemma loop_above_one:
  assumes t: "\<bar>t - p\<bar> \<le> k / 2 ^ 50 * p" and p: "1 / 10 ^ 8 \<le> p" "p \<le> 1 / 10" and k: "0 \<le> k" "k \<le> 9" and d: "d < 12"
  shows "decimals_loop d (Fin t) = decimals_loop (d + 1) (Fin (rnd64 (t * 10))) \<and>
    \<bar>rnd64 (t * 10) - 10 * p\<bar> \<le> (k + 1) / 2 ^ 50 * (10 * p)"
proof -
  have kp: "k / 2 ^ 50 * p \<le> p / 10 ^ 9" "0 \<le> k / 2 ^ 50 * p"
  proof -
    have "k / 2 ^ 50 \<le> 1 / 10 ^ 9" using k by simp
    then have "k / 2 ^ 50 * p \<le> 1 / 10 ^ 9 * p" using p by (intro mult_right_mono) auto
    then show "k / 2 ^ 50 * p \<le> p / 10 ^ 9" by simp
    show "0 \<le> k / 2 ^ 50 * p" using k p by simp
  qed
  have tp: "p - k / 2 ^ 50 * p \<le> t" "t \<le> p + k / 2 ^ 50 * p" using t unfolding abs_le_iff by linarith+
  have "p / 10 ^ 9 \<le> 1 / 10 * p" using p by simp
  with tp kp(1) have lo: "9 / 10 * p \<le> t" and hi: "t \<le> 11 / 10 * p" by linarith+
  have big: "1 / 10 ^ 300 \<le> t" and small: "t \<le> 11 / 100" and t0: "9 / 10 ^ 9 \<le> t" "0 \<le> t"
  proof -
    show "9 / 10 ^ 9 \<le> t" "t \<le> 11 / 100" using lo hi p by simp_all
    have "(0::rat) \<le> 9 / 10 ^ 9" by simp
    then show "0 \<le> t" using \<open>9 / 10 ^ 9 \<le> t\<close> by (rule order_trans)
    have "(1::rat) / 10 ^ 300 \<le> 9 / 10 ^ 9" by simp
    then show "1 / 10 ^ 300 \<le> t" using \<open>9 / 10 ^ 9 \<le> t\<close> by (rule order_trans)
  qed
  have "round_away t = 0" using t0 small by (simp add: round_away_def floor_eq_iff)
  moreover have "\<bar>t\<bar> \<le> 2 ^ 53 - 1" using t0 small by simp
  ultimately have diff: "dsub (Fin t) (dround (Fin t)) = Fin (rnd64 t)"
    using fl_abs_small [of t] by (simp add: dsub_def)
  have "rnd64 (1 / 10 ^ 9) \<le> 2 / 10 ^ 9" using rnd64_rel(1) [of "1 / 10 ^ 9"] by simp
  also have "\<dots> < 9 / 10 ^ 9 - 1 / 10 ^ 10" by simp
  also have "\<dots> \<le> t - t / 2 ^ 53" using t0 small by simp
  also have "\<dots> \<le> rnd64 t" by (rule rnd64_rel(2) [OF big])
  finally have "rnd64 (1 / 10 ^ 9) < \<bar>rnd64 t\<bar>" using rnd64_nonneg [OF t0(2)] by simp
  moreover have "dmul (Fin t) (Fin 10) = Fin (rnd64 (t * 10))"
    using fl_abs_small [of "t * 10"] t0 small by simp
  ultimately have step: "decimals_loop d (Fin t) = decimals_loop (d + 1) (Fin (rnd64 (t * 10)))"
    using d by (simp add: decimals_loop.simps [of d "Fin t"] diff [simplified] one_e9_eq)
  have big10: "1 / 10 ^ 300 \<le> t * 10" using big t0(2) by linarith
  have "t * 10 / 2 ^ 53 \<le> 11 * p / 2 ^ 53" using hi by simp
  also have "\<dots> \<le> 1 / 2 ^ 50 * (10 * p)" using p by simp
  finally have r: "t * 10 / 2 ^ 53 \<le> 1 / 2 ^ 50 * (10 * p)" .
  have split: "(k + 1) / 2 ^ 50 * (10 * p) = 10 * (k / 2 ^ 50 * p) + 1 / 2 ^ 50 * (10 * p)"
    by (simp add: field_simps)
  have "\<bar>rnd64 (t * 10) - 10 * p\<bar> \<le> (k + 1) / 2 ^ 50 * (10 * p)"
    using rnd64_rel [OF big10] r tp unfolding split abs_le_iff by linarith
  with step show ?thesis by simp
qed

lemma loop_decimals:
  "i \<le> 8 \<Longrightarrow> 0 \<le> d \<Longrightarrow> d + int i \<le> 8 \<Longrightarrow> \<bar>t - 1 / 10 ^ i\<bar> \<le> of_int (9 - int i) / 2 ^ 50 * (1 / 10 ^ i) \<Longrightarrow>
   decimals_loop d (Fin t) = d + int i"
proof (induction i arbitrary: d t)
  case 0
  then show ?case using loop_at_one [of t d] by simp
next
  case (Suc i)
  let ?p = "1 / 10 ^ Suc i :: rat"
  have "(10::rat) ^ Suc i \<le> 10 ^ 8" using Suc.prems(1) by (intro power_increasing) auto
  then have p: "1 / 10 ^ 8 \<le> ?p" by (intro divide_left_mono) auto
  have p': "?p \<le> 1 / 10" by (simp add: field_simps)
  have "\<bar>t - ?p\<bar> \<le> of_int (8 - int i) / 2 ^ 50 * ?p" using Suc.prems(4) by simp
  from loop_above_one [OF this p p', of d] Suc.prems
  have step: "decimals_loop d (Fin t) = decimals_loop (d + 1) (Fin (rnd64 (t * 10)))"
    and close: "\<bar>rnd64 (t * 10) - 10 * ?p\<bar> \<le> (of_int (8 - int i) + 1) / 2 ^ 50 * (10 * ?p)" by auto
  have "10 * ?p = 1 / 10 ^ i" "of_int (8 - int i) + 1 = (of_int (9 - int i) :: rat)" by simp_all
  with close have "\<bar>rnd64 (t * 10) - 1 / 10 ^ i\<bar> \<le> of_int (9 - int i) / 2 ^ 50 * (1 / 10 ^ i)" by simp
  from Suc.IH [OF _ _ _ this, of "d + 1"] Suc.prems show ?case by (simp add: step)
qed

lemma tick_value:
  assumes "k \<le> 300"
  shows "fl (1 / 10 ^ k) = Fin (rnd64 (1 / 10 ^ k))" and "0 < rnd64 (1 / 10 ^ k)"
    and "\<bar>rnd64 (1 / 10 ^ k) - 1 / 10 ^ k\<bar> \<le> 1 / 10 ^ k / 2 ^ 53"
proof -
  let ?x = "1 / 10 ^ k :: rat"
  have "(10::rat) ^ k \<le> 10 ^ 300" using assms by (intro power_increasing) auto
  then have big: "1 / 10 ^ 300 \<le> ?x" by (intro divide_left_mono) auto
  have x: "0 < ?x" "?x \<le> 1" by simp_all
  show "fl ?x = Fin (rnd64 ?x)" 
  proof (rule fl_abs_small)
    have "\<bar>?x\<bar> \<le> 1" using x by (simp only: abs_of_pos)
    then show "\<bar>?x\<bar> \<le> 2 ^ 53 - 1" by (rule order_trans) simp
  qed
  note r = rnd64_rel [OF big]
  show "\<bar>rnd64 ?x - ?x\<bar> \<le> ?x / 2 ^ 53" using r unfolding abs_le_iff by linarith
  obtain y where "y = ?x" by simp
  with r(2) x(1) have "y - y / 2 ^ 53 \<le> rnd64 ?x" "0 < y" by simp_all
  then show "0 < rnd64 ?x" by simp
qed

text \<open>
  The decimals of a decimal tick are found for the ticks \<open>1\<close>, \<open>0.1\<close> and so on down to \<open>10 ^ - 8\<close>,
  in spite of the rounding of every step. A tick of \<open>10 ^ - 9\<close> or less is within the tolerance of
  the loop and gets no decimals at all.
\<close>

theorem tick_decimals:
  "(k \<le> 8 \<longrightarrow> decimalsOf (fl (1 / 10 ^ k)) = int k) \<and>
   (9 \<le> k \<and> k \<le> 300 \<longrightarrow> decimalsOf (fl (1 / 10 ^ k)) = 0)"
proof (intro conjI impI)
  assume k: "k \<le> 8"
  let ?x = "1 / 10 ^ k :: rat"
  have v: "fl ?x = Fin (rnd64 ?x)" "0 < rnd64 ?x" "\<bar>rnd64 ?x - ?x\<bar> \<le> ?x / 2 ^ 53"
    using tick_value [of k] k by simp_all
  have "?x / 2 ^ 53 = 1 / 2 ^ 53 * ?x" by simp
  also have "\<dots> \<le> of_int (9 - int k) / 2 ^ 50 * ?x"
  proof (rule mult_right_mono)
    have "(1::rat) \<le> of_int (9 - int k)" using k by simp
    then show "1 / 2 ^ 53 \<le> (of_int (9 - int k) / 2 ^ 50 :: rat)" by (simp add: field_simps)
  qed simp
  finally have "\<bar>rnd64 ?x - ?x\<bar> \<le> of_int (9 - int k) / 2 ^ 50 * ?x" using v(3) by linarith
  from loop_decimals [OF k _ _ this, of 0] k v(1,2) show "decimalsOf (fl ?x) = int k"
    by (simp add: decimalsOf_def)
next
  assume k: "9 \<le> k \<and> k \<le> 300"
  let ?x = "1 / 10 ^ k :: rat"
  have v: "fl ?x = Fin (rnd64 ?x)" "0 < rnd64 ?x" using tick_value [of k] k by simp_all
  have "(10::rat) ^ 9 \<le> 10 ^ k" using k by (intro power_increasing) auto
  then have x9: "?x \<le> 1 / 10 ^ 9" by (intro divide_left_mono) auto
  have small: "rnd64 ?x \<le> rnd64 (1 / 10 ^ 9)" by (rule rnd64_mono [OF x9])
  also have "\<dots> \<le> 2 / 10 ^ 9" using rnd64_rel(1) [of "1 / 10 ^ 9"] by simp
  finally have tiny: "rnd64 ?x \<le> 2 / 10 ^ 9" .
  have "round_away (rnd64 ?x) = 0" using v(2) tiny by (simp add: round_away_def floor_eq_iff)
  moreover have "fl (rnd64 ?x) = Fin (rnd64 (rnd64 ?x))"
    by (rule fl_abs_small) (use v(2) tiny in simp)
  ultimately have "dsub (Fin (rnd64 ?x)) (dround (Fin (rnd64 ?x))) = Fin (rnd64 (rnd64 ?x))"
    by (simp add: dsub_def)
  moreover have "rnd64 (rnd64 ?x) \<le> rnd64 (1 / 10 ^ 9)" using small by simp
  ultimately show "decimalsOf (fl ?x) = 0"
    using v rnd64_nonneg [of "rnd64 ?x"] by (simp add: decimalsOf_def decimals_loop.simps [of 0] one_e9_eq not_less)
qed


theorem tick_decimals_witness:
  "decimalsOf (fl (1 / 10 ^ 8)) = 8 \<and> decimalsOf (fl (1 / 10 ^ 9)) = 0"
  using tick_decimals [of 8] tick_decimals [of 9] by simp

end
