(* ===== verification/Pacing.thy ===== *)
theory Pacing
  imports Prelude
begin

section \<open>The interface of a pacer: shared state that grants or refuses a request\<close>

text \<open>
  Two components let threads contend for permission to send: the REST client's sliding-window
  \<open>RateLimiter\<close> and the gateway's order lane. Both are a state behind a mutex, so a run is a
  sequence of atomic steps: an attempt at a clock reading, which is granted or refused and may
  change the state either way, or another operation of the component. \<open>paced\<close> is such a run
  together with the list of the granted readings, oldest first. The clock readings of a run do
  not decrease.

  The locale \<open>pacer\<close> is the contract: an invariant that relates the state to the grants so far,
  kept by every step, under which a grant comes at least \<open>gap\<close> after the grant \<open>k\<close> places before
  it. From it follows, for every run, that no interval shorter than \<open>gap\<close> holds more than \<open>k\<close>
  grants.
\<close>

definition spaced :: "nat \<Rightarrow> int \<Rightarrow> int list \<Rightarrow> bool" where
  "spaced k gap h \<longleftrightarrow> (\<forall>i. i + k < length h \<longrightarrow> gap \<le> h ! (i + k) - h ! i)"

lemma spaced_Nil [simp]: "spaced k gap []"
  by (simp add: spaced_def)

lemma spaced_snoc:
  assumes "spaced k gap h" and "k \<le> length h \<longrightarrow> gap \<le> t - h ! (length h - k)" and "0 < k"
  shows "spaced k gap (h @ [t])"
  unfolding spaced_def
proof (intro allI impI)
  fix i
  assume i: "i + k < length (h @ [t])"
  show "gap \<le> (h @ [t]) ! (i + k) - (h @ [t]) ! i"
  proof (cases "i + k = length h")
    case True
    then have "i = length h - k" "k \<le> length h" by auto
    with True assms(2) have "gap \<le> t - h ! i" by simp
    moreover have "i < length h" using True assms(3) by linarith
    ultimately show ?thesis using True by (simp add: nth_append)
  next
    case False
    with i assms(1) show ?thesis by (simp add: nth_append spaced_def)
  qed
qed

text \<open>At most \<open>k\<close> grants lie in a window shorter than \<open>gap\<close>.\<close>

lemma spaced_window:
  assumes sp: "spaced k gap h"
    and win: "\<And>t. t \<in> set (take n (drop i h)) \<Longrightarrow> a \<le> t \<and> t < a + gap"
    and n: "n \<le> length (drop i h)"
  shows "n \<le> k"
proof (rule ccontr)
  assume "\<not> n \<le> k"
  then have k: "k < n" by simp
  then have lt: "i + k < length h" using n by simp
  have "h ! i \<in> set (take n (drop i h))" "h ! (i + k) \<in> set (take n (drop i h))"
    using n k lt by (auto simp: in_set_conv_nth intro: exI [of _ 0] exI [of _ k])
  then have "a \<le> h ! i" "h ! (i + k) < a + gap" using win by blast+
  then have "h ! (i + k) - h ! i < gap" by linarith
  with sp lt show False by (auto simp: spaced_def)
qed

inductive paced :: "(int \<Rightarrow> 's \<Rightarrow> bool \<times> 's) \<Rightarrow> ('s \<Rightarrow> 's \<Rightarrow> bool) \<Rightarrow> 's \<Rightarrow> int \<Rightarrow> int list \<Rightarrow> 's \<Rightarrow> bool"
  for attempt other s0 where
    start: "paced attempt other s0 c [] s0"
  | grant: "paced attempt other s0 c h s \<Longrightarrow> c \<le> t \<Longrightarrow> attempt t s = (True, s') \<Longrightarrow>
      paced attempt other s0 t (h @ [t]) s'"
  | refuse: "paced attempt other s0 c h s \<Longrightarrow> c \<le> t \<Longrightarrow> attempt t s = (False, s') \<Longrightarrow>
      paced attempt other s0 t h s'"
  | internal: "paced attempt other s0 c h s \<Longrightarrow> other s s' \<Longrightarrow> paced attempt other s0 c h s'"

lemma paced_sorted: "paced attempt other s0 c h s \<Longrightarrow> sorted h \<and> (\<forall>t \<in> set h. t \<le> c)"
  by (induction rule: paced.induct) (fastforce simp: sorted_append)+

locale pacer =
  fixes attempt :: "int \<Rightarrow> 's \<Rightarrow> bool \<times> 's"
    and other :: "'s \<Rightarrow> 's \<Rightarrow> bool"
    and inv :: "int \<Rightarrow> int list \<Rightarrow> 's \<Rightarrow> bool"
    and k :: nat
    and gap :: int
  assumes k_pos: "0 < k"
    and granted: "inv c h s \<Longrightarrow> c \<le> t \<Longrightarrow> attempt t s = (True, s') \<Longrightarrow>
        inv t (h @ [t]) s' \<and> (k \<le> length h \<longrightarrow> gap \<le> t - h ! (length h - k))"
    and refused: "inv c h s \<Longrightarrow> c \<le> t \<Longrightarrow> attempt t s = (False, s') \<Longrightarrow> inv t h s'"
    and preserved: "inv c h s \<Longrightarrow> other s s' \<Longrightarrow> inv c h s'"
begin

lemma run_inv:
  "paced attempt other s0 c h s \<Longrightarrow> (\<And>c. inv c [] s0) \<Longrightarrow> inv c h s \<and> spaced k gap h"
proof (induction rule: paced.induct)
  case (grant c h s t s')
  then have "inv t (h @ [t]) s'" "k \<le> length h \<longrightarrow> gap \<le> t - h ! (length h - k)"
    using granted [of c h s t s'] by auto
  with grant k_pos show ?case by (auto intro: spaced_snoc)
next
  case (refuse c h s t s')
  then show ?case using refused [of c h s t s'] by auto
next
  case (internal c h s s')
  then show ?case using preserved [of c h s s'] by auto
qed auto

theorem at_most_k_per_window:
  assumes "paced attempt other s0 c h s" and "\<And>c. inv c [] s0"
    and "\<And>t. t \<in> set (take n (drop i h)) \<Longrightarrow> a \<le> t \<and> t < a + gap"
    and "n \<le> length (drop i h)"
  shows "n \<le> k"
  using conjunct2 [OF run_inv [OF assms(1,2)]] assms(3,4) by (rule spaced_window)

end

end
