(* ===== verification/Order_Lane.thy ===== *)
theory Order_Lane
  imports Pacing
begin

section \<open>The order lane of the execution gateway\<close>

text \<open>
  \<open>MexcExecutionGateway::P\<close> serialises the private order requests of all legs through one lane:
  \<open>acquireOrderLane\<close> takes the mutex \<open>orderLaneM\<close> with \<open>try_lock\<close> and refuses, with a local
  \<open>Throttled\<close>, while the lane is held, in cooldown, or less than 1250 ms after the previous
  acquisition. A venue 510 extends the cooldown (\<open>extendOrderCooldownAfterThrottle\<close>), a success
  resets the streak (\<open>clearOrderThrottleStreak\<close>). Times are steady-clock readings in
  nanoseconds. \<open>held\<close> is the mutex: the returned \<open>unique_lock\<close> gives it back at the end of the
  caller's scope (\<open>releaseOrderLane\<close>). An atomic step is one of these operations.
\<close>

record lane =
  nextOrderRequestAt :: int
  orderCooldownUntil :: int
  consecutiveOrderThrottles :: int
  held :: bool

definition lane_init :: lane where
  "lane_init = \<lparr>nextOrderRequestAt = 0, orderCooldownUntil = 0, consecutiveOrderThrottles = 0, held = False\<rparr>"

definition orderRequestSpacing :: int where
  "orderRequestSpacing = ms 1250"

definition acquireOrderLane :: "int \<Rightarrow> lane \<Rightarrow> lane result" where
  "acquireOrderLane now l =
    (if held l then
       Inl (GatewayError Throttled (''MEXC local order lane busy '' @ emdash @ '' request not sent''))
     else if now < orderCooldownUntil l then
       Inl (GatewayError Throttled (''MEXC local order lane cooldown '' @ emdash @ '' request not sent''))
     else if now < nextOrderRequestAt l then
       Inl (GatewayError Throttled (''MEXC local order lane pacing '' @ emdash @ '' request not sent''))
     else Inr (l\<lparr>nextOrderRequestAt := now + orderRequestSpacing, held := True\<rparr>))"

definition releaseOrderLane :: "lane \<Rightarrow> lane" where
  "releaseOrderLane l = l\<lparr>held := False\<rparr>"

definition throttle_seconds :: "int \<Rightarrow> int" where
  "throttle_seconds n = min (5 * 2 ^ nat (n - 1)) 30"

definition extendOrderCooldownAfterThrottle :: "int \<Rightarrow> lane \<Rightarrow> lane" where
  "extendOrderCooldownAfterThrottle now l =
    (let n = min (consecutiveOrderThrottles l + 1) 4;
         until = now + secs (throttle_seconds n)
     in l\<lparr>consecutiveOrderThrottles := n,
          orderCooldownUntil := max (orderCooldownUntil l) until,
          nextOrderRequestAt := max (nextOrderRequestAt l) until\<rparr>)"

definition clearOrderThrottleStreak :: "lane \<Rightarrow> lane" where
  "clearOrderThrottleStreak l = l\<lparr>consecutiveOrderThrottles := 0\<rparr>"

lemma orderRequestSpacing_pos: "0 < orderRequestSpacing"
  by (simp add: orderRequestSpacing_def ms_def)

subsection \<open>The lane as a pacer\<close>

definition lane_attempt :: "int \<Rightarrow> lane \<Rightarrow> bool \<times> lane" where
  "lane_attempt now l = (case acquireOrderLane now l of Inl e \<Rightarrow> (False, l) | Inr l' \<Rightarrow> (True, l'))"

text \<open>What the owner of the lane does to it between acquisition and release, at any clock reading.\<close>

inductive lane_op :: "lane \<Rightarrow> lane \<Rightarrow> bool" where
  release: "lane_op l (releaseOrderLane l)"
| extend: "held l \<Longrightarrow> lane_op l (extendOrderCooldownAfterThrottle now l)"
| clear: "held l \<Longrightarrow> lane_op l (clearOrderThrottleStreak l)"

inductive_cases lane_opE: "lane_op l l'"

lemma lane_op_mono:
  "lane_op l l' \<Longrightarrow> nextOrderRequestAt l \<le> nextOrderRequestAt l' \<and> orderCooldownUntil l \<le> orderCooldownUntil l'"
  by (erule lane_opE)
    (auto simp: releaseOrderLane_def extendOrderCooldownAfterThrottle_def clearOrderThrottleStreak_def Let_def)

lemma lane_attempt_True:
  "lane_attempt now l = (True, l') \<longleftrightarrow> \<not> held l \<and> orderCooldownUntil l \<le> now \<and> nextOrderRequestAt l \<le> now \<and>
     l' = l\<lparr>nextOrderRequestAt := now + orderRequestSpacing, held := True\<rparr>"
  by (auto simp: lane_attempt_def acquireOrderLane_def)

lemma lane_attempt_False: "lane_attempt now l = (False, l') \<Longrightarrow> l' = l"
  by (auto simp: lane_attempt_def split: sum.splits)

text \<open>
  The invariant: every grant is at least one spacing before \<open>nextOrderRequestAt\<close>; and nothing was
  granted before a point \<open>u\<close> that the lane has been closed until.
\<close>

definition lane_inv :: "int \<Rightarrow> int \<Rightarrow> int list \<Rightarrow> lane \<Rightarrow> bool" where
  "lane_inv u c h l \<longleftrightarrow> u \<le> orderCooldownUntil l \<and> (\<forall>t \<in> set h. u \<le> t \<and> t + orderRequestSpacing \<le> nextOrderRequestAt l)"

interpretation olane: pacer lane_attempt lane_op "lane_inv u" 1 orderRequestSpacing for u
proof
  show "(0::nat) < 1" by simp
next
  fix c h s t s'
  assume inv: "lane_inv u c h s" and "c \<le> t" and "lane_attempt t s = (True, s')"
  then have a: "orderCooldownUntil s \<le> t" "nextOrderRequestAt s \<le> t"
    and s': "s' = s\<lparr>nextOrderRequestAt := t + orderRequestSpacing, held := True\<rparr>"
    by (auto simp: lane_attempt_True)
  have "lane_inv u t (h @ [t]) s'" using inv a orderRequestSpacing_pos by (fastforce simp: lane_inv_def s')
  moreover have "orderRequestSpacing \<le> t - h ! (length h - 1)" if "1 \<le> length h"
  proof -
    have "h ! (length h - 1) \<in> set h" using that by simp
    with inv a show ?thesis by (fastforce simp: lane_inv_def)
  qed
  ultimately show "lane_inv u t (h @ [t]) s' \<and>
      (1 \<le> length h \<longrightarrow> orderRequestSpacing \<le> t - h ! (length h - 1))" by simp
next
  fix c h s t s'
  assume "lane_inv u c h s" and "c \<le> t" and "lane_attempt t s = (False, s')"
  then show "lane_inv u t h s'" by (auto simp: lane_inv_def dest: lane_attempt_False)
next
  fix c h s s'
  assume "lane_inv u c h s" and "lane_op s s'"
  then show "lane_inv u c h s'" using lane_op_mono [of s s'] by (fastforce simp: lane_inv_def)
qed

lemma lane_inv_start: "u \<le> orderCooldownUntil l \<Longrightarrow> lane_inv u c [] l"
  by (simp add: lane_inv_def)

lemma paced_lane_inv: "paced lane_attempt lane_op l0 c h l \<Longrightarrow> lane_inv (orderCooldownUntil l0) c h l"
  using olane.run_inv [of l0 c h l "orderCooldownUntil l0"] by (auto intro: lane_inv_start)

lemma paced_lane_spaced: "paced lane_attempt lane_op l0 c h l \<Longrightarrow> spaced 1 orderRequestSpacing h"
  using olane.run_inv [of l0 c h l "orderCooldownUntil l0"] by (auto intro: lane_inv_start)

lemma extend_until:
  "now + secs (throttle_seconds (min (consecutiveOrderThrottles l + 1) 4))
     \<le> orderCooldownUntil (extendOrderCooldownAfterThrottle now l)"
  by (simp add: extendOrderCooldownAfterThrottle_def Let_def)

lemma throttle_seconds_bounds: "1 \<le> n \<Longrightarrow> 5 \<le> throttle_seconds n \<and> throttle_seconds n \<le> 30"
  using one_le_power [of "2::int" "nat (n - 1)"] by (simp add: throttle_seconds_def)

lemma extend_streak:
  "consecutiveOrderThrottles ((extendOrderCooldownAfterThrottle now ^^ k) (clearOrderThrottleStreak l)) = min (int k) 4"
  by (induction k) (auto simp: clearOrderThrottleStreak_def extendOrderCooldownAfterThrottle_def Let_def)

subsection \<open>Properties\<close>

text \<open>
  C10. Whatever the legs do, two order requests start at least 1250 ms apart: in every run of the
  lane (attempts of any legs, releases, cooldown extensions, streak resets, in any order) a
  granted acquisition comes at least 1250 ms after the granted one before it.
\<close>

theorem lane_requests_spaced:
  assumes "paced lane_attempt lane_op l0 c h l" and "i + 1 < length h"
  shows "ms 1250 \<le> h ! (i + 1) - h ! i"
  using paced_lane_spaced [OF assms(1)] assms(2) by (simp add: spaced_def orderRequestSpacing_def)

theorem lane_requests_spaced_witness:
  "paced lane_attempt lane_op lane_init (ms 1300) [0, ms 1300]
     (lane_init\<lparr>nextOrderRequestAt := ms 2550, held := True\<rparr>) \<and> ms 1250 \<le> ms 1300 - 0"
proof -
  let ?l1 = "lane_init\<lparr>nextOrderRequestAt := ms 1250, held := True\<rparr>"
  let ?l2 = "lane_init\<lparr>nextOrderRequestAt := ms 1250, held := False\<rparr>"
  let ?l3 = "lane_init\<lparr>nextOrderRequestAt := ms 2550, held := True\<rparr>"
  have "paced lane_attempt lane_op lane_init 0 [] lane_init" by (rule paced.start)
  then have "paced lane_attempt lane_op lane_init 0 ([] @ [0]) ?l1"
    by (rule paced.grant) (simp_all add: lane_attempt_True lane_init_def orderRequestSpacing_def)
  moreover have "lane_op ?l1 ?l2"
    using lane_op.release [of ?l1] by (simp add: releaseOrderLane_def)
  ultimately have "paced lane_attempt lane_op lane_init 0 ([] @ [0]) ?l2" by (rule paced.internal)
  then have r: "paced lane_attempt lane_op lane_init (ms 1300) (([] @ [0]) @ [ms 1300]) ?l3"
    by (rule paced.grant)
      (simp_all add: lane_attempt_True lane_init_def orderRequestSpacing_def ms_def)
  then show ?thesis using lane_requests_spaced [OF r, of 0] by simp
qed

text \<open>
  C11. A venue throttle closes the lane for every leg: after a throttle at \<open>now\<close>, no run of the
  lane grants an acquisition before \<open>now\<close> plus the cooldown of the current streak, which is at
  least 5 and at most 30 seconds.
\<close>

theorem lane_closed_after_throttle:
  assumes "0 \<le> consecutiveOrderThrottles l0"
    and "paced lane_attempt lane_op (extendOrderCooldownAfterThrottle now l0) c h l" and "t \<in> set h"
  shows "now + secs (throttle_seconds (min (consecutiveOrderThrottles l0 + 1) 4)) \<le> t \<and>
    5 \<le> throttle_seconds (min (consecutiveOrderThrottles l0 + 1) 4) \<and>
    throttle_seconds (min (consecutiveOrderThrottles l0 + 1) 4) \<le> 30"
proof -
  have "orderCooldownUntil (extendOrderCooldownAfterThrottle now l0) \<le> t"
    using paced_lane_inv [OF assms(2)] assms(3) by (simp add: lane_inv_def)
  with extend_until [of now l0] have "now + secs (throttle_seconds (min (consecutiveOrderThrottles l0 + 1) 4)) \<le> t"
    by linarith
  then show ?thesis using throttle_seconds_bounds assms(1) by simp
qed

theorem lane_closed_after_throttle_witness:
  "paced lane_attempt lane_op (extendOrderCooldownAfterThrottle 0 lane_init) (secs 6) [secs 6]
     (lane_init\<lparr>consecutiveOrderThrottles := 1, orderCooldownUntil := secs 5,
        nextOrderRequestAt := secs 6 + ms 1250, held := True\<rparr>) \<and> 0 + secs 5 \<le> secs 6"
proof -
  let ?l0 = "extendOrderCooldownAfterThrottle 0 lane_init"
  have "paced lane_attempt lane_op ?l0 0 [] ?l0" by (rule paced.start)
  then have r: "paced lane_attempt lane_op ?l0 (secs 6) ([] @ [secs 6])
      (lane_init\<lparr>consecutiveOrderThrottles := 1, orderCooldownUntil := secs 5,
        nextOrderRequestAt := secs 6 + ms 1250, held := True\<rparr>)"
    by (rule paced.grant)
      (simp_all add: lane_attempt_True lane_init_def orderRequestSpacing_def
        extendOrderCooldownAfterThrottle_def throttle_seconds_def secs_def)
  have "(0::int) \<le> consecutiveOrderThrottles lane_init" by (simp add: lane_init_def)
  from lane_closed_after_throttle [OF this r, of "secs 6"] r show ?thesis
    by (simp add: throttle_seconds_def lane_init_def)
qed

text \<open>
  The cooldown backs off 5, 10, 20 and then 30 seconds over consecutive throttles, restarting
  at 5 after a success: the \<open>k\<close>-th throttle in a row sets the streak to \<open>min k 4\<close>, whose cooldown
  these are.
\<close>

theorem lane_backoff_schedule:
  "map (\<lambda>k. throttle_seconds (consecutiveOrderThrottles
       ((extendOrderCooldownAfterThrottle now ^^ k) (clearOrderThrottleStreak l)))) [1, 2, 3, 4, 5 + j]
   = [5, 10, 20, 30, 30]"
  unfolding extend_streak by (simp add: throttle_seconds_def)

end
