(* ===== verification/Fill_Ledger.thy ===== *)
theory Fill_Ledger
  imports Doubles
begin

section \<open>Accounting for fills: cumulative volumes to increments\<close>

text \<open>
  The gateway is told the cumulative filled volume of an order (on the order channel, or by REST
  when it reconciles) and must credit each contract once. \<open>accountedDealVol\<close> maps an order id to
  the volume already credited; \<open>newlyFilled\<close> returns what is new and records it. The terminal
  event of an order drops its entry.

  The locale \<open>fill_ledger\<close> is the contract the two credit paths rely on, over whole numbers of
  contracts: a report of \<open>n\<close> contracts yields what exceeds the account of that order, raises the
  account to \<open>n\<close> if it was below, and leaves the other orders alone. Under it, any sequence of
  reports credits exactly what the largest of them exceeds the account by, so re-delivered and
  out-of-order reports credit nothing twice. It is interpreted on \<open>newlyFilled\<close>.
\<close>

definition newlyFilled :: "int \<Rightarrow> flt \<Rightarrow> (int \<rightharpoonup> flt) \<Rightarrow> flt \<times> (int \<rightharpoonup> flt)" where
  "newlyFilled orderId cumDealVol accountedDealVol =
    (let acc = (case accountedDealVol orderId of None \<Rightarrow> Fin 0 | Some v \<Rightarrow> v)
     in if dle cumDealVol acc then (Fin 0, accountedDealVol(orderId \<mapsto> acc))
        else (dsub cumDealVol acc, accountedDealVol(orderId \<mapsto> cumDealVol)))"

subsection \<open>The contract of a ledger\<close>

text \<open>Whole contract counts that doubles and their differences represent exactly.\<close>

definition countable_vol :: "int \<Rightarrow> bool" where
  "countable_vol n \<longleftrightarrow> 0 \<le> n \<and> n < 2 ^ 53"

fun report_all :: "(int \<Rightarrow> flt \<Rightarrow> 'm \<Rightarrow> flt \<times> 'm) \<Rightarrow> int \<Rightarrow> int list \<Rightarrow> 'm \<Rightarrow> flt list \<times> 'm" where
  "report_all newly oid [] m = ([], m)"
| "report_all newly oid (n # ns) m = (case newly oid (whole n) m of (inc, m') \<Rightarrow>
     case report_all newly oid ns m' of (incs, m'') \<Rightarrow> (inc # incs, m''))"

locale fill_ledger =
  fixes newly :: "int \<Rightarrow> flt \<Rightarrow> 'm \<Rightarrow> flt \<times> 'm"
    and drop :: "int \<Rightarrow> 'm \<Rightarrow> 'm"
    and account :: "'m \<Rightarrow> int \<Rightarrow> int"
    and ok :: "'m \<Rightarrow> bool"
  assumes account_range: "ok m \<Longrightarrow> countable_vol (account m oid)"
    and newly_inc: "ok m \<Longrightarrow> countable_vol n \<Longrightarrow> fst (newly oid (whole n) m) = whole (max 0 (n - account m oid))"
    and newly_ok: "ok m \<Longrightarrow> countable_vol n \<Longrightarrow> ok (snd (newly oid (whole n) m))"
    and newly_account: "ok m \<Longrightarrow> countable_vol n \<Longrightarrow>
        account (snd (newly oid (whole n) m)) = (account m)(oid := max n (account m oid))"
    and drop_ok: "ok m \<Longrightarrow> ok (drop oid m)"
    and drop_account: "ok m \<Longrightarrow> account (drop oid m) = (account m)(oid := 0)"
begin

text \<open>A report that is not above the account credits nothing: re-delivery is harmless.\<close>

lemma redelivery: "ok m \<Longrightarrow> countable_vol n \<Longrightarrow> n \<le> account m oid \<Longrightarrow> fst (newly oid (whole n) m) = whole 0"
  by (simp add: newly_inc)

lemma report_all_credits:
  assumes "ok m" and "list_all countable_vol ns"
  shows "\<exists>incs m'. report_all newly oid ns m = (map whole incs, m') \<and> ok m' \<and> list_all (\<lambda>i. 0 \<le> i) incs \<and>
    account m' oid = Max (set (account m oid # ns)) \<and>
    sum_list incs = Max (set (account m oid # ns)) - account m oid"
  using assms
proof (induction ns arbitrary: m)
  case Nil
  then show ?case by (intro exI [of _ "[]"]) simp
next
  case (Cons n ns)
  obtain inc m1 where step: "newly oid (whole n) m = (inc, m1)" by fastforce
  have n: "countable_vol n" "list_all countable_vol ns" using Cons.prems by auto
  have inc: "inc = whole (max 0 (n - account m oid))" and ok1: "ok m1"
    and acc1: "account m1 oid = max n (account m oid)"
    using newly_inc [of m n oid] newly_ok [of m n oid] newly_account [of m n oid] Cons.prems n step by auto
  obtain incs m' where IH: "report_all newly oid ns m1 = (map whole incs, m')" "ok m'" "list_all (\<lambda>i. 0 \<le> i) incs"
    "account m' oid = Max (set (account m1 oid # ns))"
    "sum_list incs = Max (set (account m1 oid # ns)) - account m1 oid"
    using Cons.IH [OF ok1 n(2)] by blast
  have top: "Max (set (account m1 oid # ns)) = Max (set (account m oid # n # ns))"
    by (cases "ns = []") (simp_all add: acc1 max.left_commute max.commute)
  show ?case
    using IH step inc top acc1
    by (intro exI [of _ "max 0 (n - account m oid) # incs"] exI [of _ m']) auto
qed

end

subsection \<open>The code's ledger is one\<close>

definition ledger_account :: "(int \<rightharpoonup> flt) \<Rightarrow> int \<Rightarrow> int" where
  "ledger_account m oid = (case m oid of Some (Fin x) \<Rightarrow> \<lfloor>x\<rfloor> | _ \<Rightarrow> 0)"

definition ledger_ok :: "(int \<rightharpoonup> flt) \<Rightarrow> bool" where
  "ledger_ok m \<longleftrightarrow> (\<forall>v \<in> ran m. \<exists>n. countable_vol n \<and> v = whole n)"

definition ledger_drop :: "int \<Rightarrow> (int \<rightharpoonup> flt) \<Rightarrow> (int \<rightharpoonup> flt)" where
  "ledger_drop oid m = m(oid := None)"

lemma ledger_entry:
  assumes "ledger_ok m"
  shows "(case m oid of None \<Rightarrow> Fin 0 | Some v \<Rightarrow> v) = whole (ledger_account m oid)"
    and "countable_vol (ledger_account m oid)"
proof -
  have "(case m oid of None \<Rightarrow> Fin 0 | Some v \<Rightarrow> v) = whole (ledger_account m oid) \<and>
      countable_vol (ledger_account m oid)"
  proof (cases "m oid")
    case None
    then show ?thesis by (simp add: ledger_account_def whole_0 countable_vol_def)
  next
    case (Some v)
    then have "v \<in> ran m" by (auto simp: ran_def)
    with assms obtain n where "countable_vol n" "v = whole n" by (auto simp: ledger_ok_def)
    with Some show ?thesis by (simp add: ledger_account_def whole_def)
  qed
  then show "(case m oid of None \<Rightarrow> Fin 0 | Some v \<Rightarrow> v) = whole (ledger_account m oid)"
    and "countable_vol (ledger_account m oid)" by auto
qed

lemma newlyFilled_whole:
  assumes "ledger_ok m" and "countable_vol n"
  shows "newlyFilled oid (whole n) m =
    (whole (max 0 (n - ledger_account m oid)), m(oid \<mapsto> whole (max n (ledger_account m oid))))"
proof -
  have "\<bar>n - ledger_account m oid\<bar> < 2 ^ 53"
    using ledger_entry(2) [OF assms(1), of oid] assms(2) by (auto simp: countable_vol_def)
  then show ?thesis
    using ledger_entry(1) [OF assms(1), of oid]
    by (auto simp: newlyFilled_def Let_def dsub_whole whole_0 max_def)
qed

lemma ledger_ok_update: "ledger_ok m \<Longrightarrow> countable_vol n \<Longrightarrow> ledger_ok (m(oid \<mapsto> whole n))"
  by (auto simp: ledger_ok_def ran_def)

lemma ledger_account_update: "ledger_account (m(oid \<mapsto> whole n)) = (ledger_account m)(oid := n)"
  by (auto simp: ledger_account_def whole_def fun_eq_iff)

interpretation ledger: fill_ledger newlyFilled ledger_drop ledger_account ledger_ok
proof
  fix m :: "int \<rightharpoonup> flt" and n oid :: int
  assume ok: "ledger_ok m"
  show acc: "countable_vol (ledger_account m oid)" by (rule ledger_entry(2) [OF ok])
  show "ledger_ok (ledger_drop oid m)" using ok by (auto simp: ledger_ok_def ledger_drop_def ran_def)
  show "ledger_account (ledger_drop oid m) = (ledger_account m)(oid := 0)"
    by (auto simp: ledger_account_def ledger_drop_def fun_eq_iff)
  assume n: "countable_vol n"
  show "fst (newlyFilled oid (whole n) m) = whole (max 0 (n - ledger_account m oid))"
    by (simp add: newlyFilled_whole [OF ok n])
  have "countable_vol (max n (ledger_account m oid))" using n acc by (simp add: max_def)
  then show "ledger_ok (snd (newlyFilled oid (whole n) m))"
    by (simp add: newlyFilled_whole [OF ok n] ledger_ok_update [OF ok])
  show "ledger_account (snd (newlyFilled oid (whole n) m)) = (ledger_account m)(oid := max n (ledger_account m oid))"
    by (simp add: newlyFilled_whole [OF ok n] ledger_account_update)
qed

end
