(* ===== verification/Event_Models.thy ===== *)
theory Event_Models
  imports Json
begin

section \<open>The event models of the WebSocket streams\<close>

text \<open>
  \<open>mexc_event_models.h\<close> and \<open>mexc_event_models.cpp\<close>: the subscription request and the events the
  streams carry, each a record with the fields of the struct, its defaults, and its \<open>toJson\<close> or
  \<open>fromJson\<close>. The private events read their numbers with \<open>readNum\<close> and \<open>readI64\<close>, which accept a
  number or a string and fall back to the default on anything else; the lemmas say that these
  never throw and that the two spellings of a number read alike.
\<close>

subsection \<open>The tolerant readers\<close>

definition readNum :: "jlib \<Rightarrow> json \<Rightarrow> string \<Rightarrow> flt \<Rightarrow> flt" where
  "readNum L j key def = (case jfind j key of None \<Rightarrow> def | Some v \<Rightarrow>
     (case v of
        JNull \<Rightarrow> def
      | JStr s \<Rightarrow> if s = [] then def else (case stod s of Inr d \<Rightarrow> d | Inl e \<Rightarrow> def)
      | _ \<Rightarrow> if is_number v then (case get_dbl L v of Inr d \<Rightarrow> d | Inl e \<Rightarrow> def) else def))"

definition readI64 :: "jlib \<Rightarrow> json \<Rightarrow> string \<Rightarrow> int \<Rightarrow> int" where
  "readI64 L j key def = (case jfind j key of None \<Rightarrow> def | Some v \<Rightarrow>
     (case v of
        JNull \<Rightarrow> def
      | JStr s \<Rightarrow> if s = [] then def else (case stoll s of Inr n \<Rightarrow> n | Inl e \<Rightarrow> def)
      | _ \<Rightarrow> if is_number v then (case get_i64 L v of Inr n \<Rightarrow> n | Inl e \<Rightarrow> def) else def))"

definition readI32 :: "jlib \<Rightarrow> json \<Rightarrow> string \<Rightarrow> int \<Rightarrow> int" where
  "readI32 L j key def = to_i32 (readI64 L j key def)"

definition readBoolT :: "jlib \<Rightarrow> json \<Rightarrow> string \<Rightarrow> bool \<Rightarrow> bool result" where
  "readBoolT L j key def = (case jfind j key of None \<Rightarrow> Inr def | Some v \<Rightarrow>
     (case v of
        JNull \<Rightarrow> Inr def
      | JBool b \<Rightarrow> get_bool L v
      | JStr s \<Rightarrow> Inr (s = ''true'' \<or> s = ''1'')
      | _ \<Rightarrow> if is_number v then rmap (\<lambda>d. \<not> deq d (Fin 0)) (get_dbl L v) else Inr def))"

subsection \<open>Subscription requests\<close>

record WSSubscriptionParameters =
  sp_symbol :: string
  sp_interval :: string
  sp_limit :: int
  sp_compress :: bool

definition WSSubscriptionParameters_default :: WSSubscriptionParameters where
  "WSSubscriptionParameters_default =
     \<lparr>sp_symbol = '''', sp_interval = '''', sp_limit = - 1, sp_compress = False\<rparr>"

definition WSSubscriptionParameters_toJson :: "WSSubscriptionParameters \<Rightarrow> json" where
  "WSSubscriptionParameters_toJson p =
    (let r0 = jset ''symbol'' (JStr (sp_symbol p)) JNull;
         r1 = (if sp_compress p then jset ''compress'' (JBool (sp_compress p)) r0 else r0);
         r2 = (if sp_limit p \<noteq> - 1 then jset ''limit'' (JInt (sp_limit p)) r1 else r1)
     in if sp_interval p \<noteq> [] then jset ''interval'' (JStr (sp_interval p)) r2 else r2)"

record WSSubscription =
  ws_method :: string
  ws_parameters :: WSSubscriptionParameters

definition WSSubscription_toJson :: "WSSubscription \<Rightarrow> json" where
  "WSSubscription_toJson s =
     jset ''param'' (WSSubscriptionParameters_toJson (ws_parameters s))
       (jset ''method'' (JStr (ws_method s)) JNull)"

subsection \<open>Events\<close>

record Event =
  ev_channel :: string
  ev_symbol :: string
  ev_ts :: int
  ev_data :: json

definition Event_default :: Event where
  "Event_default = \<lparr>ev_channel = '''', ev_symbol = '''', ev_ts = 0, ev_data = JNull\<rparr>"

definition Event_fromJson :: "jlib \<Rightarrow> json \<Rightarrow> Event reader" where
  "Event_fromJson L j = run_reads [
     field (rd_str L j ''channel'') ev_channel ev_channel_update,
     field (rd_str L j ''symbol'') ev_symbol ev_symbol_update,
     field (rd_i64 L j ''ts'') ev_ts ev_ts_update,
     (\<lambda>r. (None, case jfind j ''data'' of None \<Rightarrow> r | Some d \<Rightarrow> r\<lparr>ev_data := d\<rparr>))]"

record EventTicker =
  et_symbol :: string
  et_bid1 :: flt
  et_ask1 :: flt
  et_volume24 :: flt
  et_holdVol :: flt
  et_lower24Price :: flt
  et_high24Price :: flt
  et_riseFallRate :: flt
  et_riseFallValue :: flt
  et_indexPrice :: flt
  et_fairPrice :: flt
  et_fundingRate :: flt
  et_timestamp :: int
  et_receivedTimestamp :: int

definition EventTicker_default :: EventTicker where
  "EventTicker_default = \<lparr>et_symbol = '''', et_bid1 = Fin 0, et_ask1 = Fin 0, et_volume24 = Fin 0,
     et_holdVol = Fin 0, et_lower24Price = Fin 0, et_high24Price = Fin 0, et_riseFallRate = Fin 0,
     et_riseFallValue = Fin 0, et_indexPrice = Fin 0, et_fairPrice = Fin 0, et_fundingRate = Fin 0,
     et_timestamp = 0, et_receivedTimestamp = 0\<rparr>"

definition EventTicker_fromJson :: "jlib \<Rightarrow> json \<Rightarrow> EventTicker reader" where
  "EventTicker_fromJson L j = run_reads [
     field (rd_str L j ''symbol'') et_symbol et_symbol_update,
     field (rd_dbl L j ''bid1'') et_bid1 et_bid1_update,
     field (rd_dbl L j ''ask1'') et_ask1 et_ask1_update,
     field (rd_dbl L j ''volume24'') et_volume24 et_volume24_update,
     field (rd_dbl L j ''holdVol'') et_holdVol et_holdVol_update,
     field (rd_dbl L j ''lower24Price'') et_lower24Price et_lower24Price_update,
     field (rd_dbl L j ''high24Price'') et_high24Price et_high24Price_update,
     field (rd_dbl L j ''riseFallRate'') et_riseFallRate et_riseFallRate_update,
     field (rd_dbl L j ''riseFallValue'') et_riseFallValue et_riseFallValue_update,
     field (rd_dbl L j ''indexPrice'') et_indexPrice et_indexPrice_update,
     field (rd_dbl L j ''fairPrice'') et_fairPrice et_fairPrice_update,
     field (rd_dbl L j ''fundingRate'') et_fundingRate et_fundingRate_update,
     field (rd_i64 L j ''timestamp'') et_timestamp et_timestamp_update]"

record EventCandlestick =
  ek_symbol :: string
  ek_amount :: flt
  ek_interval :: CandleInterval
  ek_open :: flt
  ek_high :: flt
  ek_low :: flt
  ek_close :: flt
  ek_volume :: flt
  ek_start :: int

definition EventCandlestick_default :: EventCandlestick where
  "EventCandlestick_default = \<lparr>ek_symbol = '''', ek_amount = Fin 0, ek_interval = I_1m,
     ek_open = Fin 0, ek_high = Fin 0, ek_low = Fin 0, ek_close = Fin 0, ek_volume = Fin 0, ek_start = 0\<rparr>"

definition EventCandlestick_fromJson :: "jlib \<Rightarrow> json \<Rightarrow> EventCandlestick reader" where
  "EventCandlestick_fromJson L j = run_reads [
     field (rd_str L j ''symbol'') ek_symbol ek_symbol_update,
     field (rd_dbl L j ''a'') ek_amount ek_amount_update,
     field (rd_interval L j ''interval'') ek_interval ek_interval_update,
     field (rd_dbl L j ''o'') ek_open ek_open_update,
     field (rd_dbl L j ''h'') ek_high ek_high_update,
     field (rd_dbl L j ''l'') ek_low ek_low_update,
     field (rd_dbl L j ''c'') ek_close ek_close_update,
     field (rd_dbl L j ''q'') ek_volume ek_volume_update,
     field (rd_i64 L j ''t'') ek_start ek_start_update]"

record EventOrder =
  eo_orderId :: int
  eo_symbol :: string
  eo_externalOid :: string
  eo_side :: OrderSide
  eo_orderType :: OrderType
  eo_state :: OrderState
  eo_price :: flt
  eo_vol :: flt
  eo_dealVol :: flt
  eo_dealAvgPrice :: flt
  eo_errorCode :: int
  eo_updateTime :: int

definition EventOrder_default :: EventOrder where
  "EventOrder_default = \<lparr>eo_orderId = 0, eo_symbol = '''', eo_externalOid = '''', eo_side = OpenLong,
     eo_orderType = OT_Limit, eo_state = OS_New, eo_price = Fin 0, eo_vol = Fin 0, eo_dealVol = Fin 0,
     eo_dealAvgPrice = Fin 0, eo_errorCode = 0, eo_updateTime = 0\<rparr>"

definition EventOrder_fromJson :: "jlib \<Rightarrow> json \<Rightarrow> EventOrder reader" where
  "EventOrder_fromJson L j = run_reads [
     (\<lambda>r. (None, r\<lparr>eo_orderId := readI64 L j ''orderId'' (eo_orderId r)\<rparr>)),
     field (rd_str L j ''symbol'') eo_symbol eo_symbol_update,
     field (rd_str L j ''externalOid'') eo_externalOid eo_externalOid_update,
     (\<lambda>r. (None, r\<lparr>eo_side := OrderSide_of (readI32 L j ''side'' 1),
        eo_orderType := OrderType_of (readI32 L j ''orderType'' 1),
        eo_state := OrderState_of (readI32 L j ''state'' 1),
        eo_price := readNum L j ''price'' (eo_price r),
        eo_vol := readNum L j ''vol'' (eo_vol r),
        eo_dealVol := readNum L j ''dealVol'' (eo_dealVol r),
        eo_dealAvgPrice := readNum L j ''dealAvgPrice'' (eo_dealAvgPrice r),
        eo_errorCode := readI32 L j ''errorCode'' (eo_errorCode r),
        eo_updateTime := readI64 L j ''updateTime'' (eo_updateTime r)\<rparr>))]"

record EventDeal =
  ed_id :: int
  ed_orderId :: int
  ed_symbol :: string
  ed_side :: OrderSide
  ed_price :: flt
  ed_vol :: flt
  ed_fee :: flt
  ed_isTaker :: bool
  ed_timestamp :: int

definition EventDeal_default :: EventDeal where
  "EventDeal_default = \<lparr>ed_id = 0, ed_orderId = 0, ed_symbol = '''', ed_side = OpenLong, ed_price = Fin 0,
     ed_vol = Fin 0, ed_fee = Fin 0, ed_isTaker = False, ed_timestamp = 0\<rparr>"

definition EventDeal_fromJson :: "jlib \<Rightarrow> json \<Rightarrow> EventDeal reader" where
  "EventDeal_fromJson L j = run_reads [
     (\<lambda>r. (None, r\<lparr>ed_id := readI64 L j ''id'' (ed_id r), ed_orderId := readI64 L j ''orderId'' (ed_orderId r)\<rparr>)),
     field (rd_str L j ''symbol'') ed_symbol ed_symbol_update,
     (\<lambda>r. (None, r\<lparr>ed_side := OrderSide_of (readI32 L j ''side'' 1),
        ed_price := readNum L j ''price'' (ed_price r),
        ed_vol := readNum L j ''vol'' (ed_vol r),
        ed_fee := readNum L j ''fee'' (ed_fee r)\<rparr>)),
     field (readBoolT L j ''isTaker'') ed_isTaker ed_isTaker_update,
     (\<lambda>r. (None, r\<lparr>ed_timestamp := readI64 L j ''timestamp'' (ed_timestamp r)\<rparr>))]"

subsection \<open>Lemmas\<close>

lemma readI64_string: "in_i64 n \<Longrightarrow> jfind j k = Some (JStr (int_str n)) \<Longrightarrow> readI64 L j k d = n"
  using digits_ok [of n] digits_ok [of "- n"] stoll_int_str [of n] by (auto simp: readI64_def int_str_def)

lemma readI64_number: "get_i64 L (JInt n) = Inr n \<Longrightarrow> jfind j k = Some (JInt n) \<Longrightarrow> readI64 L j k d = n"
  by (simp add: readI64_def)

lemma readI64_absent: "jfind j k = None \<Longrightarrow> readI64 L j k d = d"
  by (simp add: readI64_def)

lemma readNum_absent: "jfind j k = None \<Longrightarrow> readNum L j k d = d"
  by (simp add: readNum_def)

lemma readI32_range: "- (2 ^ 31) \<le> readI32 L j k d \<and> readI32 L j k d < 2 ^ 31"
  unfolding readI32_def by (rule to_i32_range)

end
