(* ===== verification/Gateway.thy ===== *)
theory Gateway
  imports Reject_Kinds Order_Sizing Order_Lane Fill_Ledger Event_Models
begin

section \<open>The execution gateway\<close>

text \<open>
  \<open>MexcExecutionGateway\<close> of \<open>mexc_execution_gateway.cpp\<close>, over the REST client, the order lane and
  the fill ledger. The record \<open>gw\<close> is its \<open>P\<close>; the maps keep their names. An operation returns its
  result, what it did (\<open>out\<close>: traffic and callbacks, in order) and the state after it. The
  callbacks are the client's code: a flag says whether one is set, and they are taken to return.
\<close>

subsection \<open>The types of the gateway interface\<close>

datatype Side = Buy | Sell

datatype UpdateState = Accepted | Filled | Cancelled | Rejected

record InstrumentSpec =
  is_symbol :: string
  is_tickSize :: flt
  is_qtyStep :: flt
  is_minQty :: flt
  is_maxQty :: flt
  is_minNotional :: flt

record FillEvent =
  fe_clientOrderId :: string
  fe_symbol :: string
  fe_fillId :: string
  fe_qty :: flt
  fe_price :: flt
  fe_isMaker :: bool

record OrderUpdate =
  ou_clientOrderId :: string
  ou_symbol :: string
  ou_price :: flt
  ou_cumFilledQty :: flt
  ou_reason :: string
  ou_state :: UpdateState
  ou_rejectKind :: "RejectKind option"

record Quote =
  qu_bid :: flt
  qu_ask :: flt
  qu_receivedAt :: int

datatype out =
    Net ev
  | FillCB FillEvent
  | OrderCB OrderUpdate
  | QuoteCB string Quote

subsection \<open>State\<close>

record ('c, 'w) gw =
  specCache :: "string \<rightharpoonup> InstrumentSpec"
  contractSize :: "string \<rightharpoonup> flt"
  priceDecimals :: "string \<rightharpoonup> int"
  tickSize :: "string \<rightharpoonup> flt"
  volUnit :: "string \<rightharpoonup> flt"
  orderLane :: lane
  accountedDealVol :: "int \<rightharpoonup> flt"
  orderUpdateCB :: bool
  fillCB :: bool
  quoteCB :: bool
  http :: "('c, 'w) http_state"

type_synonym ('a, 'c, 'w) gw_action = "('c, 'w) gw \<Rightarrow> 'a result \<times> out list \<times> ('c, 'w) gw"

definition priceDecimalsFor :: "('c, 'w) gw \<Rightarrow> string \<Rightarrow> int" where
  "priceDecimalsFor g symbol = (case priceDecimals g symbol of Some v \<Rightarrow> v | None \<Rightarrow> 2)"

definition tickFor :: "('c, 'w) gw \<Rightarrow> string \<Rightarrow> flt" where
  "tickFor g symbol = (case tickSize g symbol of Some v \<Rightarrow> v | None \<Rightarrow> Fin 0)"

definition volUnitFor :: "('c, 'w) gw \<Rightarrow> string \<Rightarrow> flt" where
  "volUnitFor g symbol = (case volUnit g symbol of Some v \<Rightarrow> v | None \<Rightarrow> Fin 1)"

definition contractSizeFor :: "('c, 'w) gw \<Rightarrow> string \<Rightarrow> flt" where
  "contractSizeFor g symbol = (case contractSize g symbol of Some v \<Rightarrow> v | None \<Rightarrow> Fin 0)"

definition csEff :: "('c, 'w) gw \<Rightarrow> string \<Rightarrow> flt" where
  "csEff g symbol = (let cs = contractSizeFor g symbol in if dlt (Fin 0) cs then cs else Fin 1)"

definition run_rest :: "('a, 'c, 'w) action \<Rightarrow> ('a, 'c, 'w) gw_action" where
  "run_rest m g = (case m (http g) of (r, es, h) \<Rightarrow> (r, map Net es, g\<lparr>http := h\<rparr>))"

definition read_clock :: "('c, 'w) rest \<Rightarrow> ('c, 'w) gw \<Rightarrow> int \<times> ('c, 'w) gw" where
  "read_clock R g = (case steady_now (rc_net R) (world (http g)) of (now, w) \<Rightarrow> (now, g\<lparr>http := (http g)\<lparr>world := w\<rparr>\<rparr>))"

subsection \<open>Quotes and sides\<close>

definition toQuote :: "EventTicker \<Rightarrow> Quote" where
  "toQuote ticker = \<lparr>qu_bid = et_bid1 ticker, qu_ask = et_ask1 ticker, qu_receivedAt = ms (et_receivedTimestamp ticker)\<rparr>"

definition on_ticker :: "EventTicker \<Rightarrow> ('c, 'w) gw \<Rightarrow> out list" where
  "on_ticker ticker g = (if quoteCB g then [QuoteCB (et_symbol ticker) (toQuote ticker)] else [])"

definition lastQuote :: "EventTicker option \<Rightarrow> Quote option" where
  "lastQuote readEventTicker = map_option toQuote readEventTicker"

definition toMexcSide :: "Side \<Rightarrow> bool \<Rightarrow> OrderSide" where
  "toMexcSide side reduceOnly =
    (if side = Buy then (if reduceOnly then CloseShort else OpenLong)
     else (if reduceOnly then CloseLong else OpenShort))"

subsection \<open>Crediting fills\<close>

text \<open>
  The credit of a cumulative volume, as both paths do it: nothing when the ledger knows it, else a
  fill of the increment.
\<close>

definition credit ::
  "jlib \<Rightarrow> string \<Rightarrow> string \<Rightarrow> int \<Rightarrow> flt \<Rightarrow> flt \<Rightarrow> flt \<Rightarrow> ('c, 'w) gw \<Rightarrow> out list \<times> ('c, 'w) gw" where
  "credit L clientOrderId symbol orderId dealVol dealAvgPrice price g =
    (case newlyFilled orderId dealVol (accountedDealVol g) of (inc, acc) \<Rightarrow>
       (if dlt (Fin 0) inc
        then [FillCB \<lparr>fe_clientOrderId = clientOrderId, fe_symbol = symbol,
                fe_fillId = int_str orderId @ ''-'' @ fmt_dbl L dealVol,
                fe_qty = dmul inc (csEff g symbol),
                fe_price = (if dlt (Fin 0) dealAvgPrice then dealAvgPrice else price),
                fe_isMaker = True\<rparr>]
        else [],
        g\<lparr>accountedDealVol := acc\<rparr>))"

definition terminal :: "OrderState \<Rightarrow> bool" where
  "terminal st \<longleftrightarrow> st = OS_Completed \<or> st = OS_Cancelled \<or> st = OS_Invalid"

definition order_update :: "EventOrder \<Rightarrow> flt \<Rightarrow> OrderUpdate option" where
  "order_update event cs =
    (let u = (\<lambda>st kind. Some \<lparr>ou_clientOrderId = eo_externalOid event, ou_symbol = eo_symbol event,
           ou_price = eo_price event, ou_cumFilledQty = dmul (eo_dealVol event) cs,
           ou_reason = ''errorCode='' @ int_str (eo_errorCode event), ou_state = st, ou_rejectKind = kind\<rparr>)
     in case eo_state event of
          OS_New \<Rightarrow> u Accepted None
        | OS_Uncompleted \<Rightarrow> u Accepted None
        | OS_Completed \<Rightarrow> u Filled None
        | OS_Cancelled \<Rightarrow> if eo_errorCode event = 20 then u Rejected (Some BenignPostOnlyCross) else u Cancelled None
        | OS_Invalid \<Rightarrow> u Rejected (Some (classifyErrorCode (eo_errorCode event)))
        | OS_unnamed n \<Rightarrow> None)"

definition on_order :: "jlib \<Rightarrow> EventOrder \<Rightarrow> ('c, 'w) gw \<Rightarrow> out list \<times> ('c, 'w) gw" where
  "on_order L event g =
    (if eo_externalOid event = [] then ([], g)
     else
       let (fills, g1) = (if fillCB g \<and> dlt (Fin 0) (eo_dealVol event)
              then credit L (eo_externalOid event) (eo_symbol event) (eo_orderId event) (eo_dealVol event)
                     (eo_dealAvgPrice event) (eo_price event) g
              else ([], g));
           g2 = (if terminal (eo_state event)
              then g1\<lparr>accountedDealVol := ledger_drop (eo_orderId event) (accountedDealVol g1)\<rparr> else g1);
           updates = (if orderUpdateCB g
              then (case order_update event (csEff g (eo_symbol event)) of Some u \<Rightarrow> [OrderCB u] | None \<Rightarrow> [])
              else [])
       in (fills @ updates, g2))"

definition reconcileMissedFills ::
  "('c, 'w) rest \<Rightarrow> string \<Rightarrow> string \<Rightarrow> ('c, 'w) gw \<Rightarrow> out list \<times> ('c, 'w) gw" where
  "reconcileMissedFills R clientOrderId symbol g =
    (if \<not> fillCB g then ([], g)
     else case run_rest (getOrderByExternalOid R symbol clientOrderId) g of
       (Inl e, es, g1) \<Rightarrow> (es, g1)
     | (Inr order, es, g1) \<Rightarrow>
         if dle (od_dealVol order) (Fin 0) then (es, g1)
         else case credit (rc_lib R) clientOrderId symbol (od_orderId order) (od_dealVol order)
                     (od_dealAvgPrice order) (od_price order) g1 of
           (fills, g2) \<Rightarrow> (es @ fills, g2))"

subsection \<open>Contract specifications\<close>

definition spec_of :: "ContractDetail \<Rightarrow> InstrumentSpec" where
  "spec_of detail =
    (let cs = (if dlt (Fin 0) (ct_contractSize detail) then ct_contractSize detail else Fin 1)
     in \<lparr>is_symbol = ct_symbol detail, is_tickSize = ct_priceUnit detail,
          is_qtyStep = dmul (whole (ct_volUnit detail)) cs, is_minQty = dmul (whole (ct_minVol detail)) cs,
          is_maxQty = dmul (whole (ct_maxVol detail)) cs, is_minNotional = Fin 0\<rparr>)"

definition store_spec :: "string \<Rightarrow> ContractDetail \<Rightarrow> ('c, 'w) gw \<Rightarrow> ('c, 'w) gw" where
  "store_spec symbol detail g =
    (let cs = (if dlt (Fin 0) (ct_contractSize detail) then ct_contractSize detail else Fin 1)
     in g\<lparr>specCache := (specCache g)(symbol \<mapsto> spec_of detail),
          contractSize := (contractSize g)(symbol \<mapsto> cs),
          priceDecimals := (priceDecimals g)(symbol \<mapsto>
            (if 0 < ct_pricePrecision detail then ct_pricePrecision detail else decimalsOf (ct_priceUnit detail))),
          tickSize := (tickSize g)(symbol \<mapsto> ct_priceUnit detail),
          volUnit := (volUnit g)(symbol \<mapsto> (if 0 < ct_volUnit detail then whole (ct_volUnit detail) else Fin 1))\<rparr>)"

definition instrumentSpec :: "('c, 'w) rest \<Rightarrow> string \<Rightarrow> (InstrumentSpec, 'c, 'w) gw_action" where
  "instrumentSpec R symbol g =
    (case specCache g symbol of
       Some spec \<Rightarrow> (Inr spec, [], g)
     | None \<Rightarrow>
        (case run_rest (getContractDetails R symbol) g of
           (Inl e, es, g1) \<Rightarrow> (Inl e, es, g1)
         | (Inr details, es, g1) \<Rightarrow>
            (case find (\<lambda>d. ct_symbol d = symbol) details of
               Some detail \<Rightarrow> (Inr (spec_of detail), es, store_spec symbol detail g1)
             | None \<Rightarrow> (Inl (RuntimeError (''MEXC: unknown instrument '' @ symbol)), es, g1))))"

definition refreshInstruments :: "('c, 'w) gw \<Rightarrow> ('c, 'w) gw" where
  "refreshInstruments g = g\<lparr>specCache := Map.empty\<rparr>"

definition refetchSpecAfterPrecisionReject ::
  "('c, 'w) rest \<Rightarrow> string \<Rightarrow> string \<Rightarrow> ('c, 'w) gw \<Rightarrow> out list \<times> ('c, 'w) gw" where
  "refetchSpecAfterPrecisionReject R symbol reason g =
    (if \<not> isPrecisionReject reason then ([], g)
     else case instrumentSpec R symbol (g\<lparr>specCache := (specCache g)(symbol := None)\<rparr>) of
       (r, es, g1) \<Rightarrow> (es, g1))"

subsection \<open>Orders\<close>

text \<open>
  What both submits do once the request is built: take the lane, send the order, and on failure
  classify the reject, extend the cooldown after a venue throttle, refetch the contract after a
  precision reject, and rethrow. The lane is given back on every way out.
\<close>

definition venue_throttle :: "('c, 'w) rest \<Rightarrow> RejectKind \<Rightarrow> ('c, 'w) gw \<Rightarrow> ('c, 'w) gw" where
  "venue_throttle R kind g =
    (if kind = Throttled
     then (case read_clock R g of (now, g1) \<Rightarrow>
       g1\<lparr>orderLane := extendOrderCooldownAfterThrottle now (orderLane g1)\<rparr>)
     else g)"

definition release_lane :: "('c, 'w) gw \<Rightarrow> ('c, 'w) gw" where
  "release_lane g = g\<lparr>orderLane := releaseOrderLane (orderLane g)\<rparr>"

definition clear_streak :: "('c, 'w) gw \<Rightarrow> ('c, 'w) gw" where
  "clear_streak g = g\<lparr>orderLane := clearOrderThrottleStreak (orderLane g)\<rparr>"

definition with_lane :: "('c, 'w) rest \<Rightarrow> ('a, 'c, 'w) gw_action \<Rightarrow> ('a, 'c, 'w) gw_action" where
  "with_lane R body g =
    (case read_clock R g of (now, g1) \<Rightarrow>
     case acquireOrderLane now (orderLane g1) of
       Inl e \<Rightarrow> (Inl e, [], g1)
     | Inr l \<Rightarrow> (case body (g1\<lparr>orderLane := l\<rparr>) of (r, es, g2) \<Rightarrow> (r, es, release_lane g2)))"

definition send_order :: "('c, 'w) rest \<Rightarrow> string \<Rightarrow> OrderRequest \<Rightarrow> (unit, 'c, 'w) gw_action" where
  "send_order R symbol req =
    with_lane R (\<lambda>g. case run_rest (submitOrder R req) g of
       (Inr response, es, g1) \<Rightarrow> (Inr (), es, clear_streak g1)
     | (Inl e, es, g1) \<Rightarrow>
        (let kind = classifyReject (what e);
             g2 = venue_throttle R kind g1
         in case refetchSpecAfterPrecisionReject R symbol (what e) g2 of
           (es', g3) \<Rightarrow> (Inl (GatewayError kind (what e)), es @ es', g3)))"

definition below_one_volUnit :: "jlib \<Rightarrow> flt \<Rightarrow> string \<Rightarrow> exn" where
  "below_one_volUnit L qty symbol = GatewayError Hard
     (''MEXC: qty '' @ fmt_dbl L qty @ '' is below one volUnit for '' @ symbol @ '' '' @ emdash @ '' not submitting'')"

definition submitPostOnlyLimit ::
  "('c, 'w) rest \<Rightarrow> string \<Rightarrow> string \<Rightarrow> Side \<Rightarrow> flt \<Rightarrow> flt \<Rightarrow> bool \<Rightarrow> (unit, 'c, 'w) gw_action" where
  "submitPostOnlyLimit R clientOrderId symbol side qty price reduceOnly g =
    (let cs = contractSizeFor g symbol in
     if dle cs (Fin 0) then
       (Inl (GatewayError Hard (''MEXC: no contractSize for '' @ symbol @ '' (instrumentSpec not fetched)'')), [], g)
     else case roundToDecimals (rc_lib R) (snapPrice price (tickFor g symbol)) (priceDecimalsFor g symbol) of
       Inl e \<Rightarrow> (Inl e, [], g)
     | Inr px \<Rightarrow>
        let vol = order_vol qty cs (volUnitFor g symbol) in
        if dle vol (Fin 0) then (Inl (below_one_volUnit (rc_lib R) qty symbol), [], g)
        else send_order R symbol
          (OrderRequest_default\<lparr>oq_symbol := symbol, oq_price := px, oq_vol := vol,
             oq_side := toMexcSide side reduceOnly, oq_type := OT_PostOnly, oq_openType := Cross,
             oq_externalOid := clientOrderId\<rparr>) g)"

definition submitReduceOnlyMarket ::
  "('c, 'w) rest \<Rightarrow> string \<Rightarrow> string \<Rightarrow> Side \<Rightarrow> flt \<Rightarrow> (unit, 'c, 'w) gw_action" where
  "submitReduceOnlyMarket R clientOrderId symbol side qty g =
    (let cs = contractSizeFor g symbol in
     if dle cs (Fin 0) then
       (Inl (GatewayError Hard (''MEXC: no contractSize for '' @ symbol)), [], g)
     else
       let vol = order_vol qty cs (volUnitFor g symbol) in
       if dle vol (Fin 0) then (Inl (below_one_volUnit (rc_lib R) qty symbol), [], g)
       else send_order R symbol
         (OrderRequest_default\<lparr>oq_symbol := symbol, oq_price := Fin 0, oq_vol := vol,
            oq_side := toMexcSide side True, oq_type := OT_Market, oq_openType := Cross,
            oq_externalOid := clientOrderId\<rparr>) g)"

definition cancel :: "('c, 'w) rest \<Rightarrow> string \<Rightarrow> string \<Rightarrow> (bool, 'c, 'w) gw_action" where
  "cancel R clientOrderId symbol =
    with_lane R (\<lambda>g. case run_rest (cancelOrderByExternalOid R symbol clientOrderId) g of
       (Inr resp, es, g1) \<Rightarrow> (Inr True, es, clear_streak g1)
     | (Inl e, es, g1) \<Rightarrow>
         if isOrderGoneReason (what e) then
           (case reconcileMissedFills R clientOrderId symbol g1 of (es', g2) \<Rightarrow> (Inr False, es @ es', g2))
         else
           (let kind = classifyReject (what e)
            in (Inl (GatewayError kind (what e)), es, venue_throttle R kind g1)))"

definition supportsAmend :: bool where
  "supportsAmend = False"

definition amendPrice :: "string \<Rightarrow> string \<Rightarrow> flt \<Rightarrow> (unit, 'c, 'w) gw_action" where
  "amendPrice clientOrderId symbol price g =
     (Inl (RuntimeError ''MEXC has no amend endpoint (supportsAmend() is false)''), [], g)"

subsection \<open>Construction, callbacks, start\<close>

definition gw_init :: "('c, 'w) http_state \<Rightarrow> ('c, 'w) gw" where
  "gw_init h = \<lparr>specCache = Map.empty, contractSize = Map.empty, priceDecimals = Map.empty, tickSize = Map.empty,
     volUnit = Map.empty, orderLane = lane_init, accountedDealVol = Map.empty, orderUpdateCB = False, fillCB = False,
     quoteCB = False, http = h\<rparr>"

definition setOrderUpdateCallback :: "bool \<Rightarrow> ('c, 'w) gw \<Rightarrow> ('c, 'w) gw" where
  "setOrderUpdateCallback cb g = g\<lparr>orderUpdateCB := cb\<rparr>"

definition setFillCallback :: "bool \<Rightarrow> ('c, 'w) gw \<Rightarrow> ('c, 'w) gw" where
  "setFillCallback cb g = g\<lparr>fillCB := cb\<rparr>"

definition setQuoteCallback :: "bool \<Rightarrow> ('c, 'w) gw \<Rightarrow> ('c, 'w) gw" where
  "setQuoteCallback cb g = g\<lparr>quoteCB := cb\<rparr>"

text \<open>
  \<open>start\<close> connects the private stream and polls it. The stream is another component, so its
  \<open>connect\<close> and \<open>isAuthenticated\<close> are arguments on the world they share.
\<close>

primrec poll_authenticated :: "('c, 'w) rest \<Rightarrow> ('w \<Rightarrow> bool \<times> 'w) \<Rightarrow> nat \<Rightarrow> 'w \<Rightarrow> unit result \<times> 'w" where
  "poll_authenticated R isAuthenticated 0 w =
     (Inl (RuntimeError ''MexcExecutionGateway: private stream login timeout (10 s)''), w)"
| "poll_authenticated R isAuthenticated (Suc n) w =
     (case isAuthenticated w of (up, w') \<Rightarrow>
        if up then (Inr (), w') else poll_authenticated R isAuthenticated n (sleep_ms (rc_net R) 100 w'))"

definition start :: "('c, 'w) rest \<Rightarrow> ('w \<Rightarrow> 'w) \<Rightarrow> ('w \<Rightarrow> bool \<times> 'w) \<Rightarrow> (unit, 'c, 'w) gw_action" where
  "start R connect_stream isAuthenticated g =
    (case poll_authenticated R isAuthenticated 100 (connect_stream (world (http g))) of
       (r, w) \<Rightarrow> (r, [], g\<lparr>http := (http g)\<lparr>world := w\<rparr>\<rparr>))"

end
