(* ===== verification/Gateway_Fills.thy ===== *)
theory Gateway_Fills
  imports Gateway
begin

section \<open>Every contract is credited once\<close>

text \<open>
  Fills reach the gateway on two paths: the order events of the private channel and the REST query
  that follows a cancel of an order that is gone. This theory runs any interleaving of the two and
  shows, over the ledger contract of \<open>Fill_Ledger\<close>, what the client is told in total, and in which
  order it is told fills and state changes.
\<close>

subsection \<open>Runs of reports\<close>

datatype report = Channel EventOrder | Rest string string

definition report_step :: "('c, 'w) rest \<Rightarrow> report \<Rightarrow> ('c, 'w) gw \<Rightarrow> out list \<times> ('c, 'w) gw" where
  "report_step R rep g = (case rep of
     Channel event \<Rightarrow> on_order (rc_lib R) event g
   | Rest clientOrderId symbol \<Rightarrow> reconcileMissedFills R clientOrderId symbol g)"

text \<open>What a report says: client order id, symbol, order id, cumulative volume.\<close>

definition told :: "('c, 'w) rest \<Rightarrow> report \<Rightarrow> ('c, 'w) gw \<Rightarrow> (string \<times> string \<times> int \<times> flt) list" where
  "told R rep g = (case rep of
     Channel event \<Rightarrow> if eo_externalOid event = [] then []
       else [(eo_externalOid event, eo_symbol event, eo_orderId event, eo_dealVol event)]
   | Rest clientOrderId symbol \<Rightarrow>
       (case run_rest (getOrderByExternalOid R symbol clientOrderId) g of
          (Inr order, es, g1) \<Rightarrow> [(clientOrderId, symbol, od_orderId order, od_dealVol order)]
        | _ \<Rightarrow> []))"

fun run_reports :: "('c, 'w) rest \<Rightarrow> report list \<Rightarrow> ('c, 'w) gw \<Rightarrow>
    out list \<times> (string \<times> string \<times> int \<times> flt) list \<times> ('c, 'w) gw" where
  "run_reports R [] g = ([], [], g)"
| "run_reports R (rep # reps) g =
    (case report_step R rep g of (outs, g1) \<Rightarrow>
     case run_reports R reps g1 of (outs', tolds, g2) \<Rightarrow> (outs @ outs', told R rep g @ tolds, g2))"

definition fills_for :: "string \<Rightarrow> out list \<Rightarrow> FillEvent list" where
  "fills_for cid outs =
     concat (map (\<lambda>x. case x of FillCB f \<Rightarrow> if fe_clientOrderId f = cid then [f] else [] | _ \<Rightarrow> []) outs)"

lemma fills_for_simps [simp]:
  "fills_for cid [] = []" "fills_for cid (Net e # outs) = fills_for cid outs"
  "fills_for cid (OrderCB u # outs) = fills_for cid outs" "fills_for cid (QuoteCB s q # outs) = fills_for cid outs"
  "fills_for cid (FillCB f # outs) = (if fe_clientOrderId f = cid then f # fills_for cid outs else fills_for cid outs)"
  "fills_for cid (xs @ ys) = fills_for cid xs @ fills_for cid ys"
  by (simp_all add: fills_for_def)

lemma fills_for_Net [simp]: "fills_for cid (map Net es) = []"
  by (induction es) auto

definition vol_int :: "flt \<Rightarrow> int" where
  "vol_int v = (case v of Fin x \<Rightarrow> \<lfloor>x\<rfloor> | _ \<Rightarrow> 0)"

lemma vol_int_whole [simp]: "vol_int (whole n) = n"
  by (simp add: vol_int_def whole_def)

definition reported :: "int \<Rightarrow> (string \<times> string \<times> int \<times> flt) list \<Rightarrow> int list" where
  "reported oid tolds = map (\<lambda>(c, s, o', v). vol_int v) (filter (\<lambda>(c, s, o', v). o' = oid) tolds)"

lemma reported_simps [simp]:
  "reported oid [] = []"
  "reported oid ((c, s, o', v) # ts) = (if o' = oid then vol_int v # reported oid ts else reported oid ts)"
  "reported oid (ts @ us) = reported oid ts @ reported oid us"
  by (simp_all add: reported_def)

subsection \<open>One credit\<close>

lemma credit_whole:
  assumes "ledger_ok (accountedDealVol g)" and "countable_vol n"
    and "credit L cid symb oid (whole n) avg price g = (outs, g')"
  defines "a \<equiv> ledger_account (accountedDealVol g) oid"
  shows "map fe_qty (fills_for c outs) = (if c = cid \<and> a < n then [dmul (whole (n - a)) (csEff g symb)] else [])"
    and "\<exists>fs. outs = map FillCB fs \<and> length fs \<le> 1 \<and> (fs \<noteq> [] \<longleftrightarrow> a < n)"
    and "ledger_ok (accountedDealVol g')"
    and "ledger_account (accountedDealVol g') = (ledger_account (accountedDealVol g))(oid := max n a)"
    and "g' = g\<lparr>accountedDealVol := accountedDealVol g'\<rparr>"
proof -
  note facts = ledger.newly_inc [OF assms(1,2), of oid] ledger.newly_ok [OF assms(1,2), of oid]
    ledger.newly_account [OF assms(1,2), of oid]
  obtain inc acc where nf: "newlyFilled oid (whole n) (accountedDealVol g) = (inc, acc)" by fastforce
  have inc: "inc = whole (max 0 (n - a))" using facts(1) nf by (simp add: a_def)
  have outs: "outs = (if a < n then [FillCB \<lparr>fe_clientOrderId = cid, fe_symbol = symb,
      fe_fillId = int_str oid @ ''-'' @ fmt_dbl L (whole n), fe_qty = dmul (whole (n - a)) (csEff g symb),
      fe_price = (if dlt (Fin 0) avg then avg else price), fe_isMaker = True\<rparr>] else [])"
    and g': "g' = g\<lparr>accountedDealVol := acc\<rparr>"
    using assms(3) nf inc by (auto simp: credit_def)
  show "map fe_qty (fills_for c outs) = (if c = cid \<and> a < n then [dmul (whole (n - a)) (csEff g symb)] else [])"
    by (auto simp: outs)
  show "\<exists>fs. outs = map FillCB fs \<and> length fs \<le> 1 \<and> (fs \<noteq> [] \<longleftrightarrow> a < n)"
  proof (cases "a < n")
    case True
    then show ?thesis unfolding outs by (intro exI [of _ "[_]"]) simp
  qed (simp add: outs)
  show "ledger_ok (accountedDealVol g')" using facts(2) nf by (simp add: g')
  show "ledger_account (accountedDealVol g') = (ledger_account (accountedDealVol g))(oid := max n a)"
    using facts(3) nf by (simp add: g' a_def)
  show "g' = g\<lparr>accountedDealVol := accountedDealVol g'\<rparr>" by (simp add: g')
qed

lemma whole_pos_credit:
  "ledger_ok m \<Longrightarrow> countable_vol n \<Longrightarrow> \<not> dlt (Fin 0) (whole n) \<Longrightarrow> n = 0 \<and> 0 \<le> ledger_account m oid"
  using ledger.account_range [of m oid] by (auto simp: countable_vol_def)


text \<open>The effect of a step on one order, and on everything that the credit of an order depends on.\<close>

definition same_setting :: "('c, 'w) gw \<Rightarrow> ('c, 'w) gw \<Rightarrow> bool" where
  "same_setting g g' \<longleftrightarrow> contractSize g' = contractSize g \<and> fillCB g' = fillCB g"

lemma same_setting_csEff: "same_setting g g' \<Longrightarrow> csEff g' symb = csEff g symb"
  by (simp add: same_setting_def csEff_def contractSizeFor_def)

lemma update_no_fill [simp]: "fills_for c (if b then (case u of None \<Rightarrow> [] | Some u \<Rightarrow> [OrderCB u]) else []) = []"
  by (cases u) auto

lemma on_order_whole:
  assumes "eo_externalOid event \<noteq> []" and v: "eo_dealVol event = whole n" and n: "countable_vol n"
    and cb: "fillCB g" and ok: "ledger_ok (accountedDealVol g)"
    and run: "on_order L event g = (outs, g')"
  defines "oid \<equiv> eo_orderId event"
  defines "a \<equiv> ledger_account (accountedDealVol g) oid"
  shows "map fe_qty (fills_for c outs) =
      (if c = eo_externalOid event \<and> a < n then [dmul (whole (n - a)) (csEff g (eo_symbol event))] else [])"
    and "ledger_ok (accountedDealVol g')"
    and "ledger_account (accountedDealVol g') =
      (ledger_account (accountedDealVol g))(oid := (if terminal (eo_state event) then 0 else max n a))"
    and "same_setting g g'"
    and "\<exists>fs us. outs = map FillCB fs @ map OrderCB us \<and> length fs \<le> 1 \<and> length us \<le> 1 \<and> (fs \<noteq> [] \<longleftrightarrow> a < n)"
proof -
  obtain fills g1 where c1: "(if fillCB g \<and> dlt (Fin 0) (eo_dealVol event)
      then credit L (eo_externalOid event) (eo_symbol event) (eo_orderId event) (eo_dealVol event)
             (eo_dealAvgPrice event) (eo_price event) g else ([], g)) = (fills, g1)" by fastforce
  let ?us = "if orderUpdateCB g then (case order_update event (csEff g (eo_symbol event)) of Some u \<Rightarrow> [OrderCB u] | None \<Rightarrow> []) else []"
  let ?g2 = "if terminal (eo_state event) then g1\<lparr>accountedDealVol := ledger_drop (eo_orderId event) (accountedDealVol g1)\<rparr> else g1"
  have outs: "outs = fills @ ?us" and g': "g' = ?g2"
    using run assms(1) c1 by (simp_all add: on_order_def Let_def)
  have all: "map fe_qty (fills_for c fills) =
        (if c = eo_externalOid event \<and> a < n then [dmul (whole (n - a)) (csEff g (eo_symbol event))] else []) \<and>
      ledger_ok (accountedDealVol g1) \<and>
      ledger_account (accountedDealVol g1) = (ledger_account (accountedDealVol g))(oid := max n a) \<and>
      same_setting g g1 \<and> (\<exists>fs. fills = map FillCB fs \<and> length fs \<le> 1 \<and> (fs \<noteq> [] \<longleftrightarrow> a < n))"
  proof (cases "dlt (Fin 0) (whole n)")
    case True
    then have cr: "credit L (eo_externalOid event) (eo_symbol event) oid (whole n)
        (eo_dealAvgPrice event) (eo_price event) g = (fills, g1)" using c1 cb v by (simp add: oid_def)
    note C = credit_whole [OF ok n cr, folded a_def]
    have "same_setting g g1" by (subst C(5)) (simp add: same_setting_def)
    with C(1-4) show ?thesis by blast
  next
    case False
    then have "n = 0" "0 \<le> a" using whole_pos_credit [OF ok n] by (auto simp: a_def)
    moreover have "fills = []" "g1 = g" using c1 v False by auto
    ultimately show ?thesis
      using ok by (auto simp: a_def same_setting_def max_def)
  qed
  then have step: "ledger_ok (accountedDealVol g1)"
    "ledger_account (accountedDealVol g1) = (ledger_account (accountedDealVol g))(oid := max n a)"
    "\<exists>fs. fills = map FillCB fs \<and> length fs \<le> 1 \<and> (fs \<noteq> [] \<longleftrightarrow> a < n)" by blast+
  show "map fe_qty (fills_for c outs) =
      (if c = eo_externalOid event \<and> a < n then [dmul (whole (n - a)) (csEff g (eo_symbol event))] else [])"
    using all by (simp add: outs)
  show "ledger_ok (accountedDealVol g')" using step(1) ledger.drop_ok by (simp add: g')
  show "ledger_account (accountedDealVol g') =
      (ledger_account (accountedDealVol g))(oid := (if terminal (eo_state event) then 0 else max n a))"
    using step(2) ledger.drop_account [OF step(1), of oid] by (simp add: g' oid_def)
  show "same_setting g g'" using all by (simp add: g' same_setting_def)
  obtain us where "?us = map OrderCB us" "length us \<le> 1"
  proof (cases "orderUpdateCB g")
    case True
    then show thesis
      using that [of "[]"] that [of "[the (order_update event (csEff g (eo_symbol event)))]"]
      by (cases "order_update event (csEff g (eo_symbol event))") auto
  qed (use that [of "[]"] in simp)
  with step(3) outs show "\<exists>fs us. outs = map FillCB fs @ map OrderCB us \<and> length fs \<le> 1 \<and> length us \<le> 1 \<and> (fs \<noteq> [] \<longleftrightarrow> a < n)"
    by blast
qed

lemma reconcile_whole:
  assumes q: "run_rest (getOrderByExternalOid R symb cid) g = (Inr order, es, g1)"
    and v: "od_dealVol order = whole n" and n: "countable_vol n"
    and cb: "fillCB g" and ok: "ledger_ok (accountedDealVol g)"
    and run: "reconcileMissedFills R cid symb g = (outs, g')"
  defines "oid \<equiv> od_orderId order"
  defines "a \<equiv> ledger_account (accountedDealVol g) oid"
  shows "map fe_qty (fills_for c outs) = (if c = cid \<and> a < n then [dmul (whole (n - a)) (csEff g symb)] else [])"
    and "ledger_ok (accountedDealVol g')"
    and "ledger_account (accountedDealVol g') = (ledger_account (accountedDealVol g))(oid := max n a)"
    and "same_setting g g'"
    and "\<exists>fs. outs = es @ map FillCB fs \<and> length fs \<le> 1 \<and> (fs \<noteq> [] \<longleftrightarrow> a < n)"
proof -
  have g1: "accountedDealVol g1 = accountedDealVol g" "same_setting g g1" "fills_for c es = []"
    using q by (auto simp: run_rest_def same_setting_def split: prod.splits)
  have "map fe_qty (fills_for c outs) = (if c = cid \<and> a < n then [dmul (whole (n - a)) (csEff g symb)] else []) \<and>
    ledger_ok (accountedDealVol g') \<and>
    ledger_account (accountedDealVol g') = (ledger_account (accountedDealVol g))(oid := max n a) \<and>
    same_setting g g' \<and> (\<exists>fs. outs = es @ map FillCB fs \<and> length fs \<le> 1 \<and> (fs \<noteq> [] \<longleftrightarrow> a < n))"
  proof (cases "dle (whole n) (Fin 0)")
    case True
    then have "n = 0" "0 \<le> a" using n ledger.account_range [OF ok, of oid] by (auto simp: countable_vol_def a_def)
    moreover have "outs = es" "g' = g1" using run q v True cb by (auto simp: reconcileMissedFills_def)
    ultimately show ?thesis using g1 ok by (auto simp: a_def)
  next
    case False
    then obtain fills where cr: "credit (rc_lib R) cid symb oid (whole n) (od_dealAvgPrice order) (od_price order) g1 = (fills, g')"
      and outs: "outs = es @ fills"
      using run q v cb by (auto simp: reconcileMissedFills_def oid_def split: prod.splits)
    note C = credit_whole [OF ok [folded g1(1)] n cr, unfolded g1(1) same_setting_csEff [OF g1(2)], folded a_def]
    have "same_setting g1 g'" by (subst C(5)) (simp add: same_setting_def)
    then have "same_setting g g'" using g1(2) by (simp add: same_setting_def)
    with C(1-4) outs g1(3) show ?thesis by auto
  qed
  then show "map fe_qty (fills_for c outs) = (if c = cid \<and> a < n then [dmul (whole (n - a)) (csEff g symb)] else [])"
    and "ledger_ok (accountedDealVol g')"
    and "ledger_account (accountedDealVol g') = (ledger_account (accountedDealVol g))(oid := max n a)"
    and "same_setting g g'"
    and "\<exists>fs. outs = es @ map FillCB fs \<and> length fs \<le> 1 \<and> (fs \<noteq> [] \<longleftrightarrow> a < n)" by blast+
qed

lemma reconcile_failed:
  assumes "run_rest (getOrderByExternalOid R symb cid) g = (Inl e, es, g1)" and "fillCB g"
  shows "reconcileMissedFills R cid symb g = (es, g1) \<and> fills_for c es = [] \<and>
    accountedDealVol g1 = accountedDealVol g \<and> same_setting g g1"
  using assms by (auto simp: reconcileMissedFills_def run_rest_def same_setting_def split: prod.splits)


subsection \<open>Any interleaving of reports\<close>

text \<open>
  The setting of the theorem: every report speaks of whole contracts, the client order id \<open>cid\<close>
  belongs to order \<open>oid\<close> alone, whose symbol is \<open>symb\<close>, and no terminal event of \<open>oid\<close> is among
  the reports.
\<close>

definition tolds_ok :: "string \<Rightarrow> int \<Rightarrow> string \<Rightarrow> (string \<times> string \<times> int \<times> flt) list \<Rightarrow> bool" where
  "tolds_ok cid oid symb tolds \<longleftrightarrow> (\<forall>(c, s, o', v) \<in> set tolds.
     (c = cid \<longleftrightarrow> o' = oid) \<and> (o' = oid \<longrightarrow> s = symb) \<and> countable_vol (vol_int v) \<and> v = whole (vol_int v))"

definition not_ended :: "int \<Rightarrow> report list \<Rightarrow> bool" where
  "not_ended oid reps \<longleftrightarrow> (\<forall>event. Channel event \<in> set reps \<longrightarrow> eo_orderId event = oid \<longrightarrow> \<not> terminal (eo_state event))"

lemma report_step_credit:
  assumes t: "tolds_ok cid oid symb (told R rep g)" and ne: "not_ended oid [rep]"
    and cb: "fillCB g" and ok: "ledger_ok (accountedDealVol g)"
    and step: "report_step R rep g = (outs, g')"
  defines "a \<equiv> ledger_account (accountedDealVol g) oid"
  shows "ledger_ok (accountedDealVol g') \<and> same_setting g g' \<and>
    ledger_account (accountedDealVol g') oid = Max (set (a # reported oid (told R rep g))) \<and>
    (\<exists>incs. map fe_qty (fills_for cid outs) = map (\<lambda>i. dmul (whole i) (csEff g symb)) incs \<and>
      (\<forall>i \<in> set incs. 0 < i) \<and> sum_list incs = Max (set (a # reported oid (told R rep g))) - a)"
proof (cases "told R rep g")
  case Nil
  have "fills_for cid outs = [] \<and> accountedDealVol g' = accountedDealVol g \<and> same_setting g g'"
  proof (cases rep)
    case (Channel event)
    then show ?thesis
      using Nil step by (auto simp: told_def report_step_def on_order_def same_setting_def split: if_splits)
  next
    case (Rest cid' symb')
    obtain r es g1 where q: "run_rest (getOrderByExternalOid R symb' cid') g = (r, es, g1)" by (metis prod_cases3)
    with Nil Rest obtain e where "r = Inl e" by (auto simp: told_def split: sum.splits)
    from reconcile_failed [OF q [unfolded this] cb, of cid] step Rest show ?thesis by (simp add: report_step_def)
  qed
  with Nil ok show ?thesis by (simp add: a_def)
next
  case (Cons t0 ts)
  obtain c s o' v where t0: "t0 = (c, s, o', v)" by (metis prod_cases4)
  have ts: "told R rep g = [(c, s, o', v)]"
    using Cons t0 by (cases rep) (auto simp: told_def split: if_splits prod.splits sum.splits)
  obtain n where v: "v = whole n" "countable_vol n" and id: "c = cid \<longleftrightarrow> o' = oid" "o' = oid \<Longrightarrow> s = symb"
    using t ts by (auto simp: tolds_ok_def)
  let ?b = "ledger_account (accountedDealVol g) o'"
  have all: "map fe_qty (fills_for cid outs) = (if cid = c \<and> ?b < n then [dmul (whole (n - ?b)) (csEff g s)] else []) \<and>
      ledger_ok (accountedDealVol g') \<and> same_setting g g' \<and>
      ledger_account (accountedDealVol g') oid = (if o' = oid then max n ?b else a)"
  proof (cases rep)
    case (Channel event)
    then have ev: "eo_externalOid event \<noteq> []" "c = eo_externalOid event" "s = eo_symbol event" "o' = eo_orderId event"
      "eo_dealVol event = whole n" and run: "on_order (rc_lib R) event g = (outs, g')"
      using ts step v by (auto simp: told_def report_step_def split: if_splits)
    note E = on_order_whole [OF ev(1,5) v(2) cb ok run]
    have "o' = oid \<Longrightarrow> \<not> terminal (eo_state event)" using ne Channel ev(4) by (auto simp: not_ended_def)
    with E(1) [where c = cid] E(2-4) ev show ?thesis
      by (auto simp: a_def)
  next
    case (Rest cid' symb')
    then obtain order es g1 where q: "run_rest (getOrderByExternalOid R symb' cid') g = (Inr order, es, g1)"
      and ev: "c = cid'" "s = symb'" "o' = od_orderId order" "od_dealVol order = whole n"
      and run: "reconcileMissedFills R cid' symb' g = (outs, g')"
      using ts step v by (auto simp: told_def report_step_def split: sum.splits prod.splits)
    note E = reconcile_whole [OF q ev(4) v(2) cb ok run]
    with ev show ?thesis
      by (auto simp: a_def)
  qed
  then have eff: "map fe_qty (fills_for cid outs) = (if cid = c \<and> ?b < n then [dmul (whole (n - ?b)) (csEff g s)] else [])"
      "ledger_ok (accountedDealVol g')" "same_setting g g'"
      "ledger_account (accountedDealVol g') oid = (if o' = oid then max n ?b else a)" by blast+
  show ?thesis
  proof (cases "o' = oid")
    case True
    have "\<exists>incs. map fe_qty (fills_for cid outs) = map (\<lambda>i. dmul (whole i) (csEff g symb)) incs \<and>
        (\<forall>i \<in> set incs. 0 < i) \<and> sum_list incs = max n a - a"
    proof (cases "a < n")
      case lt: True
      then show ?thesis using eff(1) True id by (intro exI [of _ "[n - a]"]) (simp add: a_def)
    next
      case False
      then show ?thesis using eff(1) True id by (intro exI [of _ "[]"]) (simp add: a_def)
    qed
    then show ?thesis using eff True ts v by (simp add: a_def max.commute)
  next
    case False
    then show ?thesis using eff ts id by auto
  qed
qed

lemma tolds_ok_append [simp]: "tolds_ok cid oid symb (xs @ ys) \<longleftrightarrow> tolds_ok cid oid symb xs \<and> tolds_ok cid oid symb ys"
  by (simp add: tolds_ok_def ball_Un)

lemma not_ended_Cons: "not_ended oid (r # rs) \<longleftrightarrow> not_ended oid [r] \<and> not_ended oid rs"
  by (auto simp: not_ended_def)

lemma Max_chain: "Max (set (Max (set (a # xs)) # ys)) = Max (set (a # xs @ ys :: int list))"
proof -
  have "Max (insert a (set xs) \<union> set ys) = max (Max (insert a (set xs))) (Max (set ys))" if "ys \<noteq> []"
    using that by (intro Max_Un) auto
  then show ?thesis by (cases "ys = []") (simp_all del: Max_insert add: Max_insert [of "set ys"])
qed


lemma run_reports_credit:
  "run_reports R reps g = (outs, tolds, g') \<Longrightarrow> tolds_ok cid oid symb tolds \<Longrightarrow> not_ended oid reps \<Longrightarrow>
   fillCB g \<Longrightarrow> ledger_ok (accountedDealVol g) \<Longrightarrow>
   \<exists>incs. map fe_qty (fills_for cid outs) = map (\<lambda>i. dmul (whole i) (csEff g symb)) incs \<and> (\<forall>i \<in> set incs. 0 < i) \<and>
     sum_list incs = Max (set (ledger_account (accountedDealVol g) oid # reported oid tolds))
       - ledger_account (accountedDealVol g) oid"
proof (induction reps arbitrary: g outs tolds)
  case Nil
  then show ?case by simp
next
  case (Cons rep reps)
  let ?a = "ledger_account (accountedDealVol g) oid"
  obtain outs1 g1 where s1: "report_step R rep g = (outs1, g1)" by fastforce
  obtain outs2 tolds2 where s2: "run_reports R reps g1 = (outs2, tolds2, g')"
    and outs: "outs = outs1 @ outs2" and tolds: "tolds = told R rep g @ tolds2"
    using Cons.prems(1) s1 by (auto split: prod.splits)
  have ok1: "tolds_ok cid oid symb (told R rep g)" and ok2: "tolds_ok cid oid symb tolds2"
    using Cons.prems(2) tolds by auto
  have ne1: "not_ended oid [rep]" and ne2: "not_ended oid reps" using Cons.prems(3) not_ended_Cons by blast+
  let ?a1 = "ledger_account (accountedDealVol g1) oid"
  obtain incs1 where step: "ledger_ok (accountedDealVol g1)" "same_setting g g1"
      "?a1 = Max (set (?a # reported oid (told R rep g)))"
      "map fe_qty (fills_for cid outs1) = map (\<lambda>i. dmul (whole i) (csEff g symb)) incs1"
      "\<forall>i \<in> set incs1. 0 < i" "sum_list incs1 = Max (set (?a # reported oid (told R rep g))) - ?a"
    using report_step_credit [OF ok1 ne1 Cons.prems(4,5) s1] by blast
  have cb1: "fillCB g1" using step(2) Cons.prems(4) by (simp add: same_setting_def)
  obtain incs2 where rest: "map fe_qty (fills_for cid outs2) = map (\<lambda>i. dmul (whole i) (csEff g1 symb)) incs2"
      "\<forall>i \<in> set incs2. 0 < i" "sum_list incs2 = Max (set (?a1 # reported oid tolds2)) - ?a1"
    using Cons.IH [OF s2 ok2 ne2 cb1 step(1)] by blast
  have "Max (set (?a1 # reported oid tolds2)) = Max (set (?a # reported oid tolds))"
    using Max_chain [of ?a "reported oid (told R rep g)" "reported oid tolds2"] step(3) tolds by simp
  then show ?case
    using step rest by (intro exI [of _ "incs1 @ incs2"]) (auto simp: outs same_setting_csEff [OF step(2)])
qed

subsection \<open>Properties\<close>

text \<open>
  C1. Every contract is credited once. Take any interleaving of order events and of REST
  reconciliations, in which the reports of order \<open>oid\<close> may repeat and come in any order, and no
  terminal event of it has come yet. The fills handed to the client for that order are positive
  increments, converted to base units, that add up to the largest volume reported less what had
  been credited before.
\<close>

theorem fills_credited_once:
  assumes "run_reports R reps g = (outs, tolds, g')" and "tolds_ok cid oid symb tolds" and "not_ended oid reps"
    and "fillCB g" and "ledger_ok (accountedDealVol g)"
  shows "\<exists>incs. map fe_qty (fills_for cid outs) = map (\<lambda>i. dmul (whole i) (csEff g symb)) incs \<and>
    (\<forall>i \<in> set incs. 0 < i) \<and>
    sum_list incs = Max (set (ledger_account (accountedDealVol g) oid # reported oid tolds))
      - ledger_account (accountedDealVol g) oid"
  by (rule run_reports_credit [OF assms])

definition partial_fill :: "rat \<Rightarrow> EventOrder" where
  "partial_fill v = EventOrder_default\<lparr>eo_orderId := 7, eo_symbol := ''BTC_USDT'', eo_externalOid := ''leg1'',
     eo_state := OS_Uncompleted, eo_price := Fin 100, eo_vol := Fin 10, eo_dealVol := Fin v\<rparr>"

definition example_gw :: "(unit, nat) gw" where
  "example_gw = setFillCallback True (setOrderUpdateCallback True (gw_init canned_start))"

definition example_rest :: "(unit, nat) rest" where
  "example_rest = canned_rest refused_always (parse_to accepted)"

lemma example_ledger [simp]: "ledger_ok (accountedDealVol example_gw)" "ledger_account (accountedDealVol example_gw) oid = 0"
    "fillCB example_gw" "orderUpdateCB example_gw" "csEff example_gw s = Fin 1"
  by (simp_all add: example_gw_def setFillCallback_def setOrderUpdateCallback_def gw_init_def ledger_ok_def
      ledger_account_def csEff_def contractSizeFor_def)

theorem fills_credited_once_witness:
  "case run_reports example_rest [Channel (partial_fill 4), Channel (partial_fill 4), Channel (partial_fill 10),
       Channel (partial_fill 6)] example_gw of (outs, tolds, g') \<Rightarrow>
     reported 7 tolds = [4, 4, 10, 6] \<and>
     (\<exists>incs. map fe_qty (fills_for ''leg1'' outs) = map (\<lambda>i. dmul (whole i) (Fin 1)) incs \<and> sum_list incs = 10)"
proof -
  let ?reps = "[Channel (partial_fill 4), Channel (partial_fill 4), Channel (partial_fill 10), Channel (partial_fill 6)]"
  obtain outs tolds g' where run: "run_reports example_rest ?reps example_gw = (outs, tolds, g')" by (metis prod_cases3)
  have tolds: "tolds = [(''leg1'', ''BTC_USDT'', 7, whole 4), (''leg1'', ''BTC_USDT'', 7, whole 4),
      (''leg1'', ''BTC_USDT'', 7, whole 10), (''leg1'', ''BTC_USDT'', 7, whole 6)]"
    using run by (auto simp: told_def partial_fill_def whole_def split: prod.splits)
  then have rep: "reported 7 tolds = [4, 4, 10, 6]" and ok: "tolds_ok ''leg1'' 7 ''BTC_USDT'' tolds"
    by (auto simp: tolds_ok_def countable_vol_def)
  have "not_ended 7 ?reps" by (auto simp: not_ended_def partial_fill_def terminal_def)
  from fills_credited_once [OF run ok this]
  have "\<exists>incs. map fe_qty (fills_for ''leg1'' outs) = map (\<lambda>i. dmul (whole i) (Fin 1)) incs \<and> sum_list incs = 10"
    unfolding rep by auto
  with rep show ?thesis unfolding run prod.case by blast
qed

text \<open>
  C16. A fill reaches the client before the state change that comes with it. An order event hands over
  at most one fill, of what it adds to the volume credited so far, and after it at most one order
  update; when the event is terminal the entry of the order leaves the ledger.
\<close>

theorem fill_before_update:
  assumes "eo_externalOid event \<noteq> []" and "eo_dealVol event = whole n" and "countable_vol n"
    and "fillCB g" and "ledger_ok (accountedDealVol g)"
  shows "\<exists>fs us. fst (on_order L event g) = map FillCB fs @ map OrderCB us \<and> length us \<le> 1 \<and>
    map fe_qty (fills_for (eo_externalOid event) (map FillCB fs)) =
      (if ledger_account (accountedDealVol g) (eo_orderId event) < n
       then [dmul (whole (n - ledger_account (accountedDealVol g) (eo_orderId event))) (csEff g (eo_symbol event))]
       else []) \<and>
    ledger_account (accountedDealVol (snd (on_order L event g))) (eo_orderId event) =
      (if terminal (eo_state event) then 0 else max n (ledger_account (accountedDealVol g) (eo_orderId event)))"
proof -
  obtain outs g' where run: "on_order L event g = (outs, g')" by fastforce
  note E = on_order_whole [OF assms run]
  obtain fs us where sh: "outs = map FillCB fs @ map OrderCB us" "length us \<le> 1" using E(5) by blast
  have "fills_for c (map OrderCB us) = []" for c by (induction us) auto
  with E(1) [where c = "eo_externalOid event"] sh
  have "map fe_qty (fills_for (eo_externalOid event) (map FillCB fs)) =
      (if ledger_account (accountedDealVol g) (eo_orderId event) < n
       then [dmul (whole (n - ledger_account (accountedDealVol g) (eo_orderId event))) (csEff g (eo_symbol event))]
       else [])" by simp
  then show ?thesis using sh E(3) run by (intro exI [of _ fs] exI [of _ us]) simp
qed

theorem fill_before_update_witness:
  "\<exists>fs us. fst (on_order std_jlib (partial_fill 4) example_gw) = map FillCB fs @ map OrderCB us \<and>
    map fe_qty (fills_for ''leg1'' (map FillCB fs)) = [dmul (whole 4) (Fin 1)]"
proof -
  have e: "eo_externalOid (partial_fill 4) = ''leg1''" "eo_dealVol (partial_fill 4) = whole 4"
    "eo_orderId (partial_fill 4) = 7" by (simp_all add: partial_fill_def whole_def)
  have "eo_externalOid (partial_fill 4) \<noteq> []" "countable_vol 4" by (simp_all add: e countable_vol_def)
  from fill_before_update [OF this(1) e(2) this(2), of example_gw std_jlib] e show ?thesis by auto
qed


subsection \<open>A cancel of an order that is gone\<close>

lemma with_lane_cases:
  assumes "with_lane R body g = (res, outs, g')"
  obtains (refused) now g1 e where "read_clock R g = (now, g1)" "acquireOrderLane now (orderLane g) = Inl e"
      "res = Inl e" "outs = []" "g' = g1"
  | (granted) now g1 l g2 where "read_clock R g = (now, g1)" "acquireOrderLane now (orderLane g) = Inr l"
      "body (g1\<lparr>orderLane := l\<rparr>) = (res, outs, g2)" "g' = release_lane g2"
proof -
  obtain now g1 where c: "read_clock R g = (now, g1)" by fastforce
  then have "orderLane g1 = orderLane g" by (auto simp: read_clock_def split: prod.splits)
  with assms c that show thesis by (auto simp: with_lane_def split: sum.splits prod.splits)
qed

lemma cancel_gone:
  assumes "cancel R cid symb g = (Inr False, outs, g')" and cb: "fillCB g" and ok: "ledger_ok (accountedDealVol g)"
  obtains g1 es1 outs2 g2 where "accountedDealVol g1 = accountedDealVol g" "same_setting g g1"
    "reconcileMissedFills R cid symb g1 = (outs2, g2)" "outs = map Net es1 @ outs2" "g' = release_lane g2"
  using assms(1) unfolding cancel_def
proof (cases rule: with_lane_cases)
  case (granted now g0 l g2)
  obtain r es gr where q: "run_rest (cancelOrderByExternalOid R symb cid) (g0\<lparr>orderLane := l\<rparr>) = (r, es, gr)"
    by (metis prod_cases3)
  obtain e where "r = Inl e" and gone: "isOrderGoneReason (what e)"
    using granted(3) q by (cases r) (auto simp: Let_def split: if_splits)
  then obtain outs2 where rec: "reconcileMissedFills R cid symb gr = (outs2, g2)" and outs: "outs = es @ outs2"
    using granted(3) q by (auto split: prod.splits)
  have "accountedDealVol gr = accountedDealVol g" "same_setting g gr" and "\<exists>es1. es = map Net es1"
    using q granted(1) by (auto simp: run_rest_def read_clock_def same_setting_def split: prod.splits)
  with that rec outs granted(4) show thesis by blast
qed auto


definition order_json :: json where
  "order_json = JObj [(''data'', JObj [(''dealVol'', JFloat (Fin 5)), (''orderId'', JStr ''7'')]), (''success'', JBool True)]"

definition gone_json :: json where
  "gone_json = JObj [(''code'', JInt 2040), (''message'', JStr ''order finished''), (''success'', JBool False)]"

definition gone_rest :: "(unit, nat) rest" where
  "gone_rest = canned_rest (\<lambda>q k. if rq_method q = GET then answer_with ''order'' q k else answer_with ''gone'' q k)
     (\<lambda>body. Inr (if body = ''order'' then order_json else gone_json))"

lemma gone_cancel: "\<exists>outs g'. cancel gone_rest ''leg1'' ''BTC_USDT'' example_gw = (Inr False, outs, g')"
proof -
  have "case cancel gone_rest ''leg1'' ''BTC_USDT'' example_gw of (r, outs, g') \<Rightarrow> r = Inr False" by code_simp
  then show ?thesis by (auto split: prod.splits)
qed



subsection \<open>After the terminal event\<close>

text \<open>
  C37. Once the terminal event has dropped the entry of an order, its volume counts from zero again: an
  event of the same order that arrives after it, with whatever it reports, is credited in full a
  second time. In the witness 10 contracts filled become 14 credited.
\<close>

theorem late_event_credited_again:
  assumes "eo_externalOid ended \<noteq> []" "eo_dealVol ended = whole m" "countable_vol m" "terminal (eo_state ended)"
    and "eo_externalOid late = eo_externalOid ended" "eo_orderId late = eo_orderId ended" "eo_symbol late = eo_symbol ended"
    and "eo_dealVol late = whole n" "countable_vol n" "0 < n"
    and "fillCB g" "ledger_ok (accountedDealVol g)"
    and "on_order L ended g = (outs, g')" "on_order L late g' = (outs', g'')"
  defines "credited \<equiv> ledger_account (accountedDealVol g) (eo_orderId ended)"
  shows "map fe_qty (fills_for (eo_externalOid ended) (outs @ outs')) =
    (if credited < m then [dmul (whole (m - credited)) (csEff g (eo_symbol ended))] else []) @
    [dmul (whole n) (csEff g (eo_symbol ended))]"
proof -
  note E = on_order_whole [OF assms(1-3,11-13)]
  have acc: "ledger_account (accountedDealVol g') (eo_orderId late) = 0" using E(3) assms(4,6) by simp
  have g': "fillCB g'" "csEff g' (eo_symbol late) = csEff g (eo_symbol ended)"
    using E(4) assms(7,11) same_setting_csEff [OF E(4)] by (simp_all add: same_setting_def)
  have "eo_externalOid late \<noteq> []" using assms(1,5) by simp
  note L = on_order_whole(1) [OF this assms(8,9) g'(1) E(2) assms(14), where c = "eo_externalOid ended"]
  show ?thesis using E(1) [where c = "eo_externalOid ended"] L acc g'(2) assms(5,10)
    by (simp add: credited_def)
qed

theorem late_event_credited_again_witness:
  "case on_order std_jlib ((partial_fill 10)\<lparr>eo_state := OS_Completed\<rparr>) example_gw of (outs, g') \<Rightarrow>
   case on_order std_jlib (partial_fill 4) g' of (outs', g'') \<Rightarrow>
     map fe_qty (fills_for ''leg1'' (outs @ outs')) = [Fin 10, Fin 4]"
proof -
  let ?e = "(partial_fill 10)\<lparr>eo_state := OS_Completed\<rparr>" and ?l = "partial_fill 4"
  obtain outs g' where 1: "on_order std_jlib ?e example_gw = (outs, g')" by fastforce
  obtain outs' g'' where 2: "on_order std_jlib ?l g' = (outs', g'')" by fastforce
  have e: "eo_externalOid ?e = ''leg1''" "eo_dealVol ?e = whole 10" "eo_orderId ?e = 7" "terminal (eo_state ?e)"
    "eo_symbol ?e = ''BTC_USDT''" "eo_externalOid ?l = ''leg1''" "eo_dealVol ?l = whole 4" "eo_orderId ?l = 7"
    "eo_symbol ?l = ''BTC_USDT''" "countable_vol 10" "countable_vol 4"
    by (simp_all add: partial_fill_def whole_def terminal_def countable_vol_def)
  have m: "dmul (whole 10) (Fin 1) = Fin 10" "dmul (whole 4) (Fin 1) = Fin 4"
    using dmul_whole [of 10 1] dmul_whole [of 4 1] by (simp_all add: whole_def)
  show ?thesis
    using late_event_credited_again [OF _ e(2,10,4) _ _ _ e(7,11) _ _ _ 1 2] by (simp add: 1 2 e m del: dmul.simps)
qed

end
