(* ===== verification/Gateway_Orders.thy ===== *)
theory Gateway_Orders
  imports Gateway_Fills
begin

section \<open>Submitting and cancelling\<close>

text \<open>
  What the order operations of the gateway put on the wire and do to the lane, and what every
  operation keeps of the cached contract metadata.
\<close>

subsection \<open>Frames: what an operation leaves alone\<close>

lemma run_rest_frame:
  assumes "run_rest m g = (r, outs, g')"
  shows "g' = g\<lparr>http := http g'\<rparr>" and "\<exists>es. outs = map Net es \<and> m (http g) = (r, es, http g')"
  using assms by (auto simp: run_rest_def split: prod.splits)

lemma read_clock_frame: "read_clock R g = (now, g') \<Longrightarrow> g' = g\<lparr>http := http g'\<rparr>"
  by (auto simp: read_clock_def split: prod.splits)

lemma venue_throttle_lane:
  "kind = Throttled \<Longrightarrow> \<exists>now. orderLane (venue_throttle R kind g) = extendOrderCooldownAfterThrottle now (orderLane g)"
  "kind \<noteq> Throttled \<Longrightarrow> venue_throttle R kind g = g"
  by (auto simp: venue_throttle_def read_clock_def split: prod.splits)

text \<open>The contract metadata agree with the cached specification, symbol by symbol.\<close>

definition metadata_of :: "ContractDetail \<Rightarrow> string \<Rightarrow> ('c, 'w) gw \<Rightarrow> bool" where
  "metadata_of d symb g \<longleftrightarrow> ct_symbol d = symb \<and>
     contractSize g symb = Some (if dlt (Fin 0) (ct_contractSize d) then ct_contractSize d else Fin 1) \<and>
     tickSize g symb = Some (ct_priceUnit d) \<and>
     priceDecimals g symb = Some (if 0 < ct_pricePrecision d then ct_pricePrecision d else decimalsOf (ct_priceUnit d)) \<and>
     volUnit g symb = Some (if 0 < ct_volUnit d then whole (ct_volUnit d) else Fin 1)"

definition spec_inv :: "('c, 'w) gw \<Rightarrow> bool" where
  "spec_inv g \<longleftrightarrow> (\<forall>symb spec. specCache g symb = Some spec \<longrightarrow> (\<exists>d. spec = spec_of d \<and> metadata_of d symb g))"

definition same_metadata :: "('c, 'w) gw \<Rightarrow> ('c, 'w) gw \<Rightarrow> bool" where
  "same_metadata g g' \<longleftrightarrow> specCache g' = specCache g \<and> contractSize g' = contractSize g \<and> tickSize g' = tickSize g \<and>
     priceDecimals g' = priceDecimals g \<and> volUnit g' = volUnit g"

lemma same_metadata_refl [simp]: "same_metadata g g"
  by (simp add: same_metadata_def)

lemma same_metadata_trans: "same_metadata g g' \<Longrightarrow> same_metadata g' g'' \<Longrightarrow> same_metadata g g''"
  by (simp add: same_metadata_def)

lemma same_metadata_upd [simp]:
  "same_metadata g (g\<lparr>http := h\<rparr>)" "same_metadata g (g\<lparr>orderLane := l\<rparr>)" "same_metadata g (g\<lparr>accountedDealVol := m\<rparr>)"
  "same_metadata g (release_lane g)" "same_metadata g (clear_streak g)"
  by (simp_all add: same_metadata_def release_lane_def clear_streak_def)

lemma spec_inv_same: "same_metadata g g' \<Longrightarrow> spec_inv g \<Longrightarrow> spec_inv g'"
  by (simp add: same_metadata_def spec_inv_def metadata_of_def)

lemma spec_inv_drop: "spec_inv g \<Longrightarrow> spec_inv (g\<lparr>specCache := (specCache g)(symb := None)\<rparr>)"
  by (simp add: spec_inv_def metadata_of_def)

lemma spec_inv_store: "spec_inv g \<Longrightarrow> ct_symbol d = symb \<Longrightarrow> spec_inv (store_spec symb d g) \<and> metadata_of d symb (store_spec symb d g)"
  by (auto simp: spec_inv_def metadata_of_def store_spec_def Let_def)

lemma run_rest_metadata: "run_rest m g = (r, outs, g') \<Longrightarrow> same_metadata g g'"
  using run_rest_frame(1) [of m g r outs g'] same_metadata_upd(1) by metis

lemma read_clock_metadata: "read_clock R g = (now, g') \<Longrightarrow> same_metadata g g'"
  using read_clock_frame same_metadata_upd(1) by metis

lemma venue_throttle_metadata: "same_metadata g (venue_throttle R kind g)"
  by (auto simp: venue_throttle_def read_clock_def same_metadata_def split: prod.splits)

lemma credit_metadata: "credit L cid symb oid v avg price g = (outs, g') \<Longrightarrow> same_metadata g g'"
  by (auto simp: credit_def split: prod.splits)

lemma on_order_metadata: "on_order L event g = (outs, g') \<Longrightarrow> same_metadata g g'"
  by (auto simp: on_order_def Let_def same_metadata_def credit_def split: if_splits prod.splits)

lemma reconcile_metadata: "reconcileMissedFills R cid symb g = (outs, g') \<Longrightarrow> same_metadata g g'"
  by (auto simp: reconcileMissedFills_def split: if_splits prod.splits sum.splits
      dest!: run_rest_metadata credit_metadata intro: same_metadata_trans)

lemma instrumentSpec_inv:
  assumes "spec_inv g" and "instrumentSpec R symb g = (r, outs, g')"
  shows "spec_inv g' \<and> (\<forall>spec. r = Inr spec \<longrightarrow> (\<exists>d. spec = spec_of d \<and> metadata_of d symb g'))"
proof (cases "specCache g symb")
  case (Some spec)
  then show ?thesis using assms by (auto simp: instrumentSpec_def spec_inv_def)
next
  case None
  obtain rd es g1 where q: "run_rest (getContractDetails R symb) g = (rd, es, g1)" by (metis prod_cases3)
  have inv: "spec_inv g1" using spec_inv_same [OF run_rest_metadata [OF q] assms(1)] .
  show ?thesis
  proof (cases rd)
    case (Inl e)
    then show ?thesis using assms(2) None q inv by (auto simp: instrumentSpec_def)
  next
    case (Inr details)
    show ?thesis
    proof (cases "find (\<lambda>d. ct_symbol d = symb) details")
      case None2: None
      then show ?thesis using assms(2) None q inv Inr by (auto simp: instrumentSpec_def)
    next
      case (Some d)
      then have "ct_symbol d = symb" by (auto simp: find_Some_iff)
      from spec_inv_store [OF inv this] show ?thesis
        using assms(2) None q Inr Some by (auto simp: instrumentSpec_def)
    qed
  qed
qed

lemma refetch_inv:
  "spec_inv g \<Longrightarrow> refetchSpecAfterPrecisionReject R symb reason g = (outs, g') \<Longrightarrow> spec_inv g'"
  by (auto simp: refetchSpecAfterPrecisionReject_def split: if_splits prod.splits
      dest: instrumentSpec_inv [OF spec_inv_drop])

subsection \<open>Sending through the lane\<close>

lemma instrumentSpec_lane:
  "instrumentSpec R symb g = (r, outs, g') \<Longrightarrow> orderLane g' = orderLane g \<and> accountedDealVol g' = accountedDealVol g"
  by (auto simp: instrumentSpec_def run_rest_def store_spec_def Let_def split: option.splits sum.splits prod.splits)

lemma refetch_lane:
  "refetchSpecAfterPrecisionReject R symb reason g = (outs, g') \<Longrightarrow> orderLane g' = orderLane g"
  by (auto simp: refetchSpecAfterPrecisionReject_def split: if_splits prod.splits dest!: instrumentSpec_lane)

text \<open>
  The outcome of an order operation that got the lane at a clock reading \<open>t\<close>, as a sequence of lane
  operations: an acquisition, then the success or throttle that the venue answered, then the release.
\<close>

definition lane_after :: "lane \<Rightarrow> 'a result \<Rightarrow> RejectKind option \<Rightarrow> lane \<Rightarrow> bool" where
  "lane_after l r reject l' \<longleftrightarrow>
    (case reject of
       None \<Rightarrow> \<not> isl r \<and> (l' = releaseOrderLane (clearOrderThrottleStreak l) \<or> l' = releaseOrderLane l)
     | Some kind \<Rightarrow> isl r \<and> (if kind = Throttled
         then \<exists>now. l' = releaseOrderLane (extendOrderCooldownAfterThrottle now l) else l' = releaseOrderLane l))"

lemma lane_after_reject:
  assumes "isl r" and "orderLane g' = releaseOrderLane (orderLane (venue_throttle R kind g))" and "orderLane g = l"
  shows "lane_after l r (Some kind) (orderLane g')"
  using assms venue_throttle_lane [where kind = kind and R = R and g = g]
  by (cases "kind = Throttled") (auto simp: lane_after_def)

lemma send_order_cases:
  assumes "send_order R symb req g = (res, outs, g')"
  obtains (refused) t e where "fst (read_clock R g) = t" "acquireOrderLane t (orderLane g) = Inl e" "res = Inl e" "outs = []"
      "orderLane g' = orderLane g"
  | (sent) t l response h es h' where "fst (read_clock R g) = t" "acquireOrderLane t (orderLane g) = Inr l"
      "submitOrder R req h = (Inr response, es, h')" "res = Inr ()" "outs = map Net es"
      "orderLane g' = releaseOrderLane (clearOrderThrottleStreak l)"
  | (rejected) t l e h es h' outs' where "fst (read_clock R g) = t" "acquireOrderLane t (orderLane g) = Inr l"
      "submitOrder R req h = (Inl e, es, h')" "outs = map Net es @ outs'"
      "res = Inl (GatewayError (classifyReject (what e)) (what e))"
      "lane_after l res (Some (classifyReject (what e))) (orderLane g')"
  using assms unfolding send_order_def
proof (cases rule: with_lane_cases)
  case (refused now g1 e)
  then have "orderLane g1 = orderLane g" using read_clock_frame by (metis gw.select_convs(6) gw.surjective gw.update_convs(11))
  with refused show thesis by (intro that(1) [of now e]) auto
next
  case (granted now g1 l g2)
  obtain r outs1 g3 where q: "run_rest (submitOrder R req) (g1\<lparr>orderLane := l\<rparr>) = (r, outs1, g3)" by (metis prod_cases3)
  obtain es where es: "outs1 = map Net es" "submitOrder R req (http (g1\<lparr>orderLane := l\<rparr>)) = (r, es, http g3)"
    using run_rest_frame(2) [OF q] by blast
  have lane3: "orderLane g3 = l"
    using q by (auto simp: run_rest_def split: prod.splits)
  show thesis
  proof (cases r)
    case (Inr response)
    then have "res = Inr ()" "outs = outs1" "g2 = clear_streak g3" using granted(3) q by auto
    then show thesis
      using that(2) [of now l _ response] es Inr granted lane3 by (auto simp: release_lane_def clear_streak_def)
  next
    case (Inl e)
    let ?k = "classifyReject (what e)"
    obtain outs2 where rf: "refetchSpecAfterPrecisionReject R symb (what e) (venue_throttle R ?k g3) = (outs2, g2)"
      and o: "outs = outs1 @ outs2" and res: "res = Inl (GatewayError ?k (what e))"
      using granted(3) q Inl by (auto simp: Let_def split: prod.splits)
    have "orderLane g2 = orderLane (venue_throttle R ?k g3)" by (rule refetch_lane [OF rf])
    then have "orderLane g' = releaseOrderLane (orderLane (venue_throttle R ?k g3))"
      using granted(4) by (simp add: release_lane_def)
    then have "lane_after l res (Some ?k) (orderLane g')" using lane3 res by (intro lane_after_reject) simp_all
    then show thesis using that(3) [of now l _ e es _ outs2] granted es Inl o res by auto
  qed
qed

lemma send_order_spec_inv:
  assumes "spec_inv g" and "send_order R symb req g = (res, outs, g')"
  shows "spec_inv g'"
  using assms(2) unfolding send_order_def
proof (cases rule: with_lane_cases)
  case (refused now g1 e)
  then show ?thesis using spec_inv_same [OF read_clock_metadata assms(1)] by metis
next
  case (granted now g1 l g2)
  obtain r outs1 g3 where q: "run_rest (submitOrder R req) (g1\<lparr>orderLane := l\<rparr>) = (r, outs1, g3)" by (metis prod_cases3)
  have "same_metadata g g3"
    using read_clock_metadata [OF granted(1)] run_rest_metadata [OF q] by (simp add: same_metadata_def)
  then have inv3: "spec_inv g3" using assms(1) by (rule spec_inv_same)
  have inv2: "spec_inv g2"
  proof (cases r)
    case (Inr response)
    then have "g2 = clear_streak g3" using granted(3) q by auto
    then show ?thesis using spec_inv_same [OF same_metadata_upd(5) inv3] by simp
  next
    case (Inl e)
    then obtain outs2 where "refetchSpecAfterPrecisionReject R symb (what e) (venue_throttle R (classifyReject (what e)) g3) = (outs2, g2)"
      using granted(3) q by (auto simp: Let_def split: prod.splits)
    then show ?thesis by (rule refetch_inv [OF spec_inv_same [OF venue_throttle_metadata inv3]])
  qed
  then show ?thesis using granted(4) spec_inv_same [OF same_metadata_upd(4)] by simp
qed

lemma cancel_cases:
  assumes "cancel R cid symb g = (res, outs, g')"
  obtains (refused) t e where "fst (read_clock R g) = t" "acquireOrderLane t (orderLane g) = Inl e" "res = Inl e" "outs = []"
      "orderLane g' = orderLane g"
  | (answered) t l r h es h' outs' where "fst (read_clock R g) = t" "acquireOrderLane t (orderLane g) = Inr l"
      "cancelOrderByExternalOid R symb cid h = (r, es, h')" "outs = map Net es @ outs'"
      "res = (case r of Inr x \<Rightarrow> Inr True
         | Inl e \<Rightarrow> if isOrderGoneReason (what e) then Inr False else Inl (GatewayError (classifyReject (what e)) (what e)))"
      "lane_after l res (case r of Inl e \<Rightarrow> if isOrderGoneReason (what e) then None else Some (classifyReject (what e)) | Inr x \<Rightarrow> None)
        (orderLane g')"
  using assms unfolding cancel_def
proof (cases rule: with_lane_cases)
  case (refused now g1 e)
  then have "orderLane g1 = orderLane g" using read_clock_frame by (metis gw.select_convs(6) gw.surjective gw.update_convs(11))
  with refused show thesis by (intro that(1) [of now e]) auto
next
  case (granted now g1 l g2)
  obtain r outs1 g3 where q: "run_rest (cancelOrderByExternalOid R symb cid) (g1\<lparr>orderLane := l\<rparr>) = (r, outs1, g3)" by (metis prod_cases3)
  obtain es where es: "outs1 = map Net es" "cancelOrderByExternalOid R symb cid (http (g1\<lparr>orderLane := l\<rparr>)) = (r, es, http g3)"
    using run_rest_frame(2) [OF q] by blast
  have lane3: "orderLane g3 = l" using q by (auto simp: run_rest_def split: prod.splits)
  have lanes: "orderLane (snd (reconcileMissedFills R cid symb g3)) = l"
    using lane3 by (auto simp: reconcileMissedFills_def credit_def run_rest_def split: sum.splits prod.splits)
  consider (ok) x where "r = Inr x" | (gone) e where "r = Inl e" "isOrderGoneReason (what e)"
    | (rejected) e where "r = Inl e" "\<not> isOrderGoneReason (what e)" by (cases r) auto
  then show thesis
  proof cases
    case ok
    then have "res = Inr True" "outs = outs1" "g2 = clear_streak g3" using granted(3) q by auto
    then show thesis
      using that(2) [of now l _ r es _ "[]"] es ok granted lane3 by (auto simp: lane_after_def release_lane_def clear_streak_def)
  next
    case gone
    then obtain outs2 where "reconcileMissedFills R cid symb g3 = (outs2, g2)" "outs = outs1 @ outs2" "res = Inr False"
      using granted(3) q by (auto split: prod.splits)
    then show thesis
      using that(2) [of now l _ r es _ outs2] es gone granted lanes by (auto simp: lane_after_def release_lane_def)
  next
    case rejected
    then have "g2 = venue_throttle R (classifyReject (what e)) g3" "outs = outs1"
        "res = Inl (GatewayError (classifyReject (what e)) (what e))"
      using granted(3) q by (auto simp: Let_def)
    moreover from this have "lane_after l res (Some (classifyReject (what e))) (orderLane g')"
      using lane3 granted(4) by (intro lane_after_reject [where g = g3 and R = R]) (simp_all add: release_lane_def)
    ultimately show thesis using that(2) [of now l _ r es _ "[]"] es rejected granted(1,2) by auto
  qed
qed


subsection \<open>Properties\<close>

lemma rest_orders_nonempty:
  "submitOrder R req h = (r, es, h') \<Longrightarrow> es \<noteq> []"
  "cancelOrderByExternalOid R symb cid h = (r', es', h'') \<Longrightarrow> es' \<noteq> []"
  by (auto simp: submitOrder_def cancelOrderByExternalOid_def elim!: post_endpoint_trace)

lemma acquire_grant:
  "acquireOrderLane t l = Inr l' \<Longrightarrow> lane_attempt t l = (True, l') \<and> held l' \<and>
     consecutiveOrderThrottles l' = consecutiveOrderThrottles l"
  by (auto simp: lane_attempt_def acquireOrderLane_def split: if_splits)

lemma lane_after_released: "lane_after l r k l' \<Longrightarrow> \<not> held l'"
  by (auto simp: lane_after_def releaseOrderLane_def split: option.splits if_splits)

lemma lane_after_any:
  "lane_after l (r :: 'a result) k l' \<Longrightarrow> \<exists>(r' :: 'b result). lane_after l r' k l'"
proof -
  assume "lane_after l r k l'"
  then have "lane_after l (if isl r then Inl undefined else Inr undefined :: 'b result) k l'"
    by (auto simp: lane_after_def split: option.splits if_splits)
  then show ?thesis by blast
qed

lemma lane_after_paced:
  assumes "paced lane_attempt lane_op l0 c h l" and "c \<le> t" and "acquireOrderLane t l = Inr l1"
    and "lane_after l1 r reject l2"
  shows "paced lane_attempt lane_op l0 t (h @ [t]) l2"
proof -
  have grant: "paced lane_attempt lane_op l0 t (h @ [t]) l1" and held: "held l1"
    using acquire_grant [OF assms(3)] paced.grant [OF assms(1,2)] by auto
  have op: "paced lane_attempt lane_op l0 t (h @ [t]) (releaseOrderLane x)"
    if "lane_op l1 x" for x
    using paced.internal [OF paced.internal [OF grant that] lane_op.release] .
  consider "l2 = releaseOrderLane (clearOrderThrottleStreak l1)" | "l2 = releaseOrderLane l1"
    | now where "l2 = releaseOrderLane (extendOrderCooldownAfterThrottle now l1)"
    using assms(4) by (auto simp: lane_after_def split: option.splits if_splits)
  then show ?thesis
    using op lane_op.clear [OF held] lane_op.extend [OF held] paced.internal [OF grant lane_op.release] by cases auto
qed

text \<open>
  C5. The order operations of the gateway are steps of the paced lane. A submit or a cancel at clock
  reading \<open>t\<close> that the lane refuses does nothing at all: no request, no callback, the lane as it was.
  One that it grants extends the run of the lane by a start at \<open>t\<close> and gives the lane back; so every
  order request of the gateway obeys the spacing and the cooldown of the lane.
\<close>

theorem order_operations_paced:
  assumes "paced lane_attempt lane_op l0 c h (orderLane g)" and "c \<le> fst (read_clock R g)"
    and "send_order R symb req g = (res, outs, g') \<or> cancel R cid symb g = (gone, outs, g')"
  shows "case acquireOrderLane (fst (read_clock R g)) (orderLane g) of
      Inl e \<Rightarrow> outs = [] \<and> orderLane g' = orderLane g
    | Inr l \<Rightarrow> outs \<noteq> [] \<and> \<not> held (orderLane g') \<and>
        paced lane_attempt lane_op l0 (fst (read_clock R g)) (h @ [fst (read_clock R g)]) (orderLane g')"
proof -
  let ?t = "fst (read_clock R g)"
  have granted: ?thesis if "acquireOrderLane ?t (orderLane g) = Inr l" "outs \<noteq> []" "lane_after l r k (orderLane g')"
    for l and r :: "'z result" and k
    using that lane_after_released [OF that(3)] lane_after_paced [OF assms(1,2) that(1,3)] by simp
  have refused: ?thesis if "acquireOrderLane ?t (orderLane g) = Inl e" "outs = []" "orderLane g' = orderLane g" for e
    using that by simp
  from assms(3) show ?thesis
  proof
    assume "send_order R symb req g = (res, outs, g')"
    then show ?thesis
    proof (cases rule: send_order_cases)
      case (sent t l response h' es h'')
      have "outs \<noteq> []" using sent(5) rest_orders_nonempty(1) [OF sent(3)] by simp
      moreover have "lane_after l (Inr undefined) None (orderLane g')" using sent(6) by (simp add: lane_after_def)
      ultimately show ?thesis using granted sent(1,2) by blast
    next
      case (rejected t l e h' es h'' outs')
      have "outs \<noteq> []" using rejected(4) rest_orders_nonempty(1) [OF rejected(3)] by simp
      moreover have "lane_after l (Inl e) (Some (classifyReject (what e))) (orderLane g')"
        using rejected(6) by (simp add: lane_after_def split: if_splits)
      ultimately show ?thesis using granted rejected(1,2) by blast
    qed (use refused in blast)
  next
    assume "cancel R cid symb g = (gone, outs, g')"
    then show ?thesis
    proof (cases rule: cancel_cases)
      case (answered t l r h' es h'' outs')
      have "outs \<noteq> []" using answered(4) rest_orders_nonempty(2) [OF answered(3)] by simp
      moreover obtain r' :: "'z result" and k where "lane_after l r' k (orderLane g')"
        using lane_after_any [OF answered(6)] by blast
      ultimately show ?thesis using granted answered(1,2) by blast
    qed (use refused in blast)
  qed
qed

theorem order_operations_paced_witness:
  "case cancel gone_rest ''leg1'' ''BTC_USDT'' example_gw of (gone, outs, g') \<Rightarrow>
     outs \<noteq> [] \<and> paced lane_attempt lane_op lane_init 0 [0] (orderLane g')"
proof -
  obtain gone outs g' where run: "cancel gone_rest ''leg1'' ''BTC_USDT'' example_gw = (gone, outs, g')" by (metis prod_cases3)
  have lane: "orderLane example_gw = lane_init"
    by (simp add: example_gw_def setFillCallback_def setOrderUpdateCallback_def gw_init_def)
  have clock: "fst (read_clock gone_rest example_gw) = 0"
    by (simp add: read_clock_def gone_rest_def canned_net_def example_gw_def setFillCallback_def
        setOrderUpdateCallback_def gw_init_def canned_start_def)
  have start: "paced lane_attempt lane_op lane_init 0 [] (orderLane example_gw)" unfolding lane by (rule paced.start)
  have free: "acquireOrderLane 0 (orderLane example_gw) \<noteq> Inl e" for e
    by (simp add: lane acquireOrderLane_def lane_init_def)
  have "0 \<le> fst (read_clock gone_rest example_gw)" by (simp add: clock)
  note p = order_operations_paced [OF start this disjI2 [OF run], unfolded clock]
  show ?thesis using p free run by (auto split: sum.splits)
qed

text \<open>
  C4. An accepted order is the order that was asked for. When \<open>submitPostOnlyLimit\<close> returns, requests
  were sent, each of them the POST of one post-only order: the symbol and the client order id given,
  the four-way side of the side and the reduce-only flag, the price snapped to the tick and rounded
  to the venue's decimals, the volume in whole volume units, which is positive; and the throttle
  streak of the lane is reset.
\<close>

theorem accepted_order_as_asked:
  assumes "submitPostOnlyLimit R cid symb side qty price reduceOnly g = (Inr (), outs, g')"
  shows "\<exists>req es. outs = map Net es \<and> sents es \<noteq> [] \<and>
    (\<forall>q \<in> set (sents es). plain_request POST ''/api/v1/private/order/submit'' (dump (rc_lib R) (OrderRequest_toJson req)) q) \<and>
    oq_symbol req = symb \<and> oq_externalOid req = cid \<and> oq_side req = toMexcSide side reduceOnly \<and>
    oq_type req = OT_PostOnly \<and> oq_openType req = Cross \<and>
    roundToDecimals (rc_lib R) (snapPrice price (tickFor g symb)) (priceDecimalsFor g symb) = Inr (oq_price req) \<and>
    oq_vol req = order_vol qty (contractSizeFor g symb) (volUnitFor g symb) \<and> \<not> dle (oq_vol req) (Fin 0) \<and>
    consecutiveOrderThrottles (orderLane g') = 0"
proof -
  obtain px where px: "roundToDecimals (rc_lib R) (snapPrice price (tickFor g symb)) (priceDecimalsFor g symb) = Inr px"
    and vol: "\<not> dle (order_vol qty (contractSizeFor g symb) (volUnitFor g symb)) (Fin 0)"
    and sent: "send_order R symb (OrderRequest_default\<lparr>oq_symbol := symb, oq_price := px,
        oq_vol := order_vol qty (contractSizeFor g symb) (volUnitFor g symb),
        oq_side := toMexcSide side reduceOnly, oq_type := OT_PostOnly, oq_openType := Cross,
        oq_externalOid := cid\<rparr>) g = (Inr (), outs, g')" (is "send_order R symb ?req g = _")
    using assms by (auto simp: submitPostOnlyLimit_def Let_def split: if_splits sum.splits)
  from sent show ?thesis
  proof (cases rule: send_order_cases)
    case (sent t l response h es h')
    note p = post_endpoint_safe [OF sent(3) [unfolded submitOrder_def]]
    obtain es' r where tr: "es = Slot # es'"
      "ladder (\<lambda>q. plain_request POST ''/api/v1/private/order/submit'' (dump (rc_lib R) (OrderRequest_toJson ?req)) q \<and>
        signed_for (rc_net R) (rc_cfg R) (dump (rc_lib R) (OrderRequest_toJson ?req)) q) (retryPacingHook (rc_cfg R)) POST 0 False r es'"
      "Inr response = rbind r (\<lambda>response. rbind (checkResponse response) (handleMEXCResponse (rc_lib R) OrderResponse_fromJson OrderResponse_default))"
      by (rule post_endpoint_trace [OF sent(3) [unfolded submitOrder_def]])
    then obtain reply where "r = Inr reply" by (cases r) auto
    with ladder_result tr(1,2) have "sents es \<noteq> []" by fastforce
    with p(3) sent(5,6) px vol show ?thesis
      by (intro exI [of _ ?req] exI [of _ es]) (auto simp: releaseOrderLane_def clearOrderThrottleStreak_def)
  qed auto
qed


definition listed_gw :: "(unit, nat) gw" where
  "listed_gw = example_gw\<lparr>contractSize := [''BTC_USDT'' \<mapsto> Fin 1]\<rparr>"

theorem accepted_order_as_asked_witness:
  "case submitPostOnlyLimit (canned_rest refused_once (parse_to accepted)) ''leg1'' ''BTC_USDT'' Buy (Fin 5) (Fin 100)
      False listed_gw of (r, outs, g') \<Rightarrow>
     r = Inr () \<and> (\<exists>(req::OrderRequest) es. outs = map Net es \<and> sents es \<noteq> [] \<and> oq_side req = OpenLong \<and> oq_type req = OT_PostOnly)"
proof -
  let ?run = "submitPostOnlyLimit (canned_rest refused_once (parse_to accepted)) ''leg1'' ''BTC_USDT'' Buy (Fin 5) (Fin 100)
      False listed_gw"
  obtain r outs g' where run: "?run = (r, outs, g')" by (metis prod_cases3)
  have "case ?run of (r, outs, g') \<Rightarrow> r = Inr ()" by code_simp
  then have r: "r = Inr ()" by (simp add: run)
  from accepted_order_as_asked [OF run [unfolded r]]
  have "\<exists>(req::OrderRequest) es. outs = map Net es \<and> sents es \<noteq> [] \<and> oq_side req = toMexcSide Buy False \<and> oq_type req = OT_PostOnly"
    by blast
  then show ?thesis unfolding run r prod.case by (simp add: toMexcSide_def)
qed


definition cancel_refused_rest :: "(unit, nat) rest" where
  "cancel_refused_rest = canned_rest (answer_with ''busy'')
     (\<lambda>body. Inr (JObj [(''code'', JInt 510), (''message'', JStr ''Requests are too frequent''), (''success'', JBool False)]))"

definition throttle_text :: string where
  "throttle_text = ''MEXC API error, code: 510, msg: Requests are too frequent''"


subsection \<open>Every operation keeps the metadata consistent\<close>

datatype gw_op =
    Op_spec string
  | Op_refresh
  | Op_submit string string Side flt flt bool
  | Op_market string string Side flt
  | Op_cancel string string
  | Op_order EventOrder
  | Op_callbacks bool bool bool

definition gw_do :: "('c, 'w) rest \<Rightarrow> gw_op \<Rightarrow> ('c, 'w) gw \<Rightarrow> out list \<times> ('c, 'w) gw" where
  "gw_do R x g = (case x of
     Op_spec symb \<Rightarrow> snd (instrumentSpec R symb g)
   | Op_refresh \<Rightarrow> ([], refreshInstruments g)
   | Op_submit cid symb side qty price reduceOnly \<Rightarrow> snd (submitPostOnlyLimit R cid symb side qty price reduceOnly g)
   | Op_market cid symb side qty \<Rightarrow> snd (submitReduceOnlyMarket R cid symb side qty g)
   | Op_cancel cid symb \<Rightarrow> snd (cancel R cid symb g)
   | Op_order event \<Rightarrow> on_order (rc_lib R) event g
   | Op_callbacks u f q \<Rightarrow> ([], setQuoteCallback q (setFillCallback f (setOrderUpdateCallback u g))))"

fun gw_run :: "('c, 'w) rest \<Rightarrow> gw_op list \<Rightarrow> ('c, 'w) gw \<Rightarrow> out list \<times> ('c, 'w) gw" where
  "gw_run R [] g = ([], g)"
| "gw_run R (x # xs) g = (case gw_do R x g of (outs, g1) \<Rightarrow> case gw_run R xs g1 of (outs', g2) \<Rightarrow> (outs @ outs', g2))"

lemma cancel_spec_inv:
  assumes "spec_inv g" and "cancel R cid symb g = (res, outs, g')"
  shows "spec_inv g'"
  using assms(2) unfolding cancel_def
proof (cases rule: with_lane_cases)
  case (refused now g1 e)
  then show ?thesis using spec_inv_same [OF read_clock_metadata assms(1)] by metis
next
  case (granted now g1 l g2)
  obtain r outs1 g3 where q: "run_rest (cancelOrderByExternalOid R symb cid) (g1\<lparr>orderLane := l\<rparr>) = (r, outs1, g3)"
    by (metis prod_cases3)
  have "same_metadata g g3"
    using read_clock_metadata [OF granted(1)] run_rest_metadata [OF q] by (simp add: same_metadata_def)
  moreover have "same_metadata g3 g2"
    using granted(3) q venue_throttle_metadata
    by (cases r) (auto simp: Let_def split: if_splits prod.splits dest!: reconcile_metadata)
  ultimately have "same_metadata g g'" using granted(4) same_metadata_trans same_metadata_upd(4) by metis
  then show ?thesis using assms(1) by (rule spec_inv_same)
qed

lemma gw_do_spec_inv: "spec_inv g \<Longrightarrow> gw_do R x g = (outs, g') \<Longrightarrow> spec_inv g'"
proof (cases x)
  case (Op_submit cid symb side qty price reduceOnly)
  assume "spec_inv g" "gw_do R x g = (outs, g')"
  then show ?thesis using Op_submit
    by (cases "submitPostOnlyLimit R cid symb side qty price reduceOnly g")
      (auto simp: gw_do_def submitPostOnlyLimit_def Let_def split: if_splits sum.splits dest: send_order_spec_inv)
next
  case (Op_market cid symb side qty)
  assume "spec_inv g" "gw_do R x g = (outs, g')"
  then show ?thesis using Op_market
    by (cases "submitReduceOnlyMarket R cid symb side qty g")
      (auto simp: gw_do_def submitReduceOnlyMarket_def Let_def split: if_splits dest: send_order_spec_inv)
next
  case (Op_spec symb)
  assume "spec_inv g" "gw_do R x g = (outs, g')"
  then show ?thesis using Op_spec instrumentSpec_inv [of g R symb]
    by (cases "instrumentSpec R symb g") (auto simp: gw_do_def)
next
  case (Op_cancel cid symb)
  assume "spec_inv g" "gw_do R x g = (outs, g')"
  then show ?thesis using Op_cancel cancel_spec_inv by (cases "cancel R cid symb g") (auto simp: gw_do_def)
next
  case (Op_order event)
  assume "spec_inv g" "gw_do R x g = (outs, g')"
  then show ?thesis using Op_order spec_inv_same [OF on_order_metadata] by (auto simp: gw_do_def)
next
  case (Op_callbacks u f q)
  assume "spec_inv g" "gw_do R x g = (outs, g')"
  moreover have "same_metadata g (setQuoteCallback q (setFillCallback f (setOrderUpdateCallback u g)))"
    by (simp add: same_metadata_def setQuoteCallback_def setFillCallback_def setOrderUpdateCallback_def)
  ultimately show ?thesis using Op_callbacks spec_inv_same by (auto simp: gw_do_def)
next
  case Op_refresh
  assume "gw_do R x g = (outs, g')"
  then show ?thesis using Op_refresh by (auto simp: gw_do_def refreshInstruments_def spec_inv_def)
qed

lemma gw_run_spec_inv: "spec_inv g \<Longrightarrow> gw_run R xs g = (outs, g') \<Longrightarrow> spec_inv g'"
proof (induction xs arbitrary: g outs)
  case (Cons x xs)
  then show ?case using gw_do_spec_inv by (fastforce split: prod.splits)
qed simp

lemma spec_inv_init [simp]: "spec_inv (gw_init h)"
  by (simp add: spec_inv_def gw_init_def)

text \<open>
  C20. After any sequence of operations, a specification that \<open>instrumentSpec\<close> returns is the one the
  order path computes with: the contract size of the symbol is known and positive, so no submit is
  rejected for lack of it, the tick is the one of the specification, and the quantity step is the
  volume unit times the contract size.
\<close>

theorem spec_is_what_orders_use:
  assumes "gw_run R xs (gw_init h) = (outs, g)" and "instrumentSpec R symb g = (Inr spec, outs', g')"
  shows "is_symbol spec = symb \<and> dlt (Fin 0) (contractSizeFor g' symb) \<and> tickFor g' symb = is_tickSize spec \<and>
    (\<exists>u. is_qtyStep spec = dmul (whole u) (contractSizeFor g' symb) \<and>
       volUnitFor g' symb = (if 0 < u then whole u else Fin 1))"
proof -
  have "spec_inv g" using gw_run_spec_inv [OF _ assms(1)] by simp
  with instrumentSpec_inv assms(2) obtain d where "spec = spec_of d" "metadata_of d symb g'" by blast
  then show ?thesis
    by (intro conjI exI [of _ "ct_volUnit d"]) (auto simp: spec_of_def metadata_of_def contractSizeFor_def tickFor_def volUnitFor_def Let_def dlt_def)
qed

definition listing :: json where
  "listing = JObj [(''data'', JArr [JObj [(''contractSize'', JFloat (Fin 1)), (''symbol'', JStr ''BTC_USDT''), (''volUnit'', JInt 5)]]),
     (''success'', JBool True)]"

definition listing_rest :: "(unit, nat) rest" where
  "listing_rest = canned_rest (answer_with ''listing'') (parse_to listing)"

lemma listing_parsed:
  "\<exists>c d. fresh (ContractDetails_fromJson (std_jlib\<lparr>parse := p\<rparr>) listing) ContractDetails_default = Inr c \<and> r_success c \<and>
     cts_contractDetails c = [d] \<and> ct_symbol d = ''BTC_USDT''"
  by (simp add: fresh_def ContractDetails_fromJson_def ContractDetail_fromJson_def Response_fromJson_def field_def
      std_jlib_simps listing_def ContractDetails_default_def ContractDetail_default_def)

lemma listing_spec:
  assumes "http g = canned_start" "specCache g = Map.empty" "instrumentSpec listing_rest ''BTC_USDT'' g = (r, outs, g')"
  shows "\<exists>spec. r = Inr spec"
proof -
  obtain c d where c: "fresh (ContractDetails_fromJson (std_jlib\<lparr>parse := parse_to listing\<rparr>) listing) ContractDetails_default = Inr c"
      "r_success c" "cts_contractDetails c = [d]" "ct_symbol d = ''BTC_USDT''" using listing_parsed by blast
  have "handleMEXCResponse (std_jlib\<lparr>parse := parse_to listing\<rparr>) ContractDetails_fromJson ContractDetails_default x = Inr c" for x
    using c(1,2) by (simp add: handleMEXCResponse_def parse_to_def)
  then have "fst (get_endpoint listing_rest path ps pub ContractDetails_fromJson ContractDetails_default canned_start) = Inr c"
    for path ps pub unfolding listing_rest_def by (intro canned_get) (simp_all add: throttled_def)
  then have "fst (getContractDetails listing_rest ''BTC_USDT'' canned_start) = Inr [d]"
    using c(3) by (auto simp: getContractDetails_def act_map_def act_bind_def act_lift_def after_def
        split: prod.splits sum.splits) (metis fst_conv sum.inject(2) sum.distinct(1))+
  then obtain es h where "getContractDetails listing_rest ''BTC_USDT'' canned_start = (Inr [d], es, h)"
    by (metis prod.collapse)
  then show ?thesis using assms c(4) by (auto simp: instrumentSpec_def run_rest_def)
qed

theorem spec_is_what_orders_use_witness:
  "case gw_run listing_rest [Op_refresh] (gw_init canned_start) of (outs, g) \<Rightarrow>
   case instrumentSpec listing_rest ''BTC_USDT'' g of (r, outs', g') \<Rightarrow>
     \<not> isl r \<and> dlt (Fin 0) (contractSizeFor g' ''BTC_USDT'')"
proof -
  let ?g = "snd (gw_run listing_rest [Op_refresh] (gw_init canned_start))"
  obtain outs where g: "gw_run listing_rest [Op_refresh] (gw_init canned_start) = (outs, ?g)" by (metis prod.collapse)
  obtain r outs' g' where run: "instrumentSpec listing_rest ''BTC_USDT'' ?g = (r, outs', g')" by (metis prod_cases3)
  have "http ?g = canned_start" "specCache ?g = Map.empty" by (simp_all add: gw_do_def refreshInstruments_def gw_init_def)
  then obtain spec where r: "r = Inr spec" using run listing_spec by blast
  from spec_is_what_orders_use [OF g run [unfolded r]] show ?thesis
    using g run r by (auto split: prod.splits)
qed

end
