(* ===== verification/Rate_Limiter.thy ===== *)
theory Rate_Limiter
  imports Pacing
begin

section \<open>The sliding-window rate limiters of the REST clients\<close>

text \<open>
  \<open>RateLimiter::wait\<close> of \<open>mexc_futures_rest_client.cpp\<close> (6 requests per second, one limiter per
  process) and of \<open>mexc_spot_rest_client.cpp\<close> (10 requests per second, one per client). The state
  is the deque \<open>requestTimes\<close> of system-clock readings in milliseconds, oldest first, behind a
  mutex. A critical section of the futures limiter (\<open>wait_attempt\<close>) reads the clock, drops the
  readings that left the window, and either records the reading and returns or computes how long
  to sleep; \<open>wait\<close> repeats it after the sleep. Other threads run between two critical sections,
  so the shared state evolves by \<open>paced\<close> runs of \<open>wait_attempt\<close>. The spot limiter sleeps at most
  once and records the reading taken before the sleep.
\<close>

subsection \<open>The futures limiter\<close>

definition localLimit :: nat where
  "localLimit = 6"

definition windowSizeMs :: int where
  "windowSizeMs = 1000"

definition prune :: "int \<Rightarrow> int list \<Rightarrow> int list" where
  "prune now requestTimes = dropWhile (\<lambda>t. now - t > windowSizeMs) requestTimes"

definition wait_attempt :: "int \<Rightarrow> int list \<Rightarrow> bool \<times> int list" where
  "wait_attempt now requestTimes =
    (let q = prune now requestTimes
     in if length q < localLimit then (True, q @ [now]) else (False, q))"

definition wait_time :: "int \<Rightarrow> int list \<Rightarrow> int" where
  "wait_time now q = max (hd q + windowSizeMs - now + 10) 1"

text \<open>
  The whole call over a world that can be asked the time and can sleep. A loop that contention
  could keep from ever returning returns \<open>None\<close>.
\<close>

partial_function (option) wait ::
  "('w \<Rightarrow> int \<times> 'w) \<Rightarrow> (int \<Rightarrow> 'w \<Rightarrow> 'w) \<Rightarrow> int list \<Rightarrow> 'w \<Rightarrow> (int list \<times> 'w) option" where
  "wait now sleep_for requestTimes w =
    (case now w of (t, w') \<Rightarrow>
      (case wait_attempt t requestTimes of (granted, q) \<Rightarrow>
         if granted then Some (q, w')
         else wait now sleep_for q (sleep_for (wait_time t q) w')))"

subsection \<open>The futures limiter as a pacer\<close>

text \<open>
  The deque is a suffix of the readings granted so far; those no longer in it left the window
  before the current clock reading.
\<close>

definition limiter_inv :: "int \<Rightarrow> int list \<Rightarrow> int list \<Rightarrow> bool" where
  "limiter_inv c h q \<longleftrightarrow> length q \<le> localLimit \<and> (\<exists>d. h = d @ q \<and> (\<forall>t \<in> set d. c - t > windowSizeMs))"

lemma prune_suffix: "\<exists>d. q = d @ prune now q \<and> (\<forall>t \<in> set d. now - t > windowSizeMs)"
  unfolding prune_def by (metis set_takeWhileD takeWhile_dropWhile_id)

lemma prune_length: "length (prune now q) \<le> length q"
  by (simp add: prune_def length_dropWhile_le)

lemma limiter_inv_prune:
  assumes "limiter_inv c h q" and "c \<le> t"
  shows "limiter_inv t h (prune t q)"
proof -
  from assms(1) obtain d where d: "h = d @ q" "\<forall>x \<in> set d. c - x > windowSizeMs"
    and len: "length q \<le> localLimit" by (auto simp: limiter_inv_def)
  obtain e where e: "q = e @ prune t q" "\<forall>x \<in> set e. t - x > windowSizeMs"
    using prune_suffix by blast
  have "h = (d @ e) @ prune t q" using d(1) e(1) by simp
  moreover have "\<forall>x \<in> set (d @ e). t - x > windowSizeMs" using d(2) e(2) assms(2) by fastforce
  moreover have "length (prune t q) \<le> localLimit" using len prune_length [of t q] by simp
  ultimately show ?thesis unfolding limiter_inv_def by blast
qed

lemma limiter_inv_grant:
  assumes "limiter_inv t h q" and room: "length q < localLimit"
  shows "limiter_inv t (h @ [t]) (q @ [t]) \<and>
    (localLimit \<le> length h \<longrightarrow> windowSizeMs + 1 \<le> t - h ! (length h - localLimit))"
proof -
  from assms obtain d where d: "h = d @ q" "\<forall>x \<in> set d. t - x > windowSizeMs"
    by (auto simp: limiter_inv_def)
  have "limiter_inv t (h @ [t]) (q @ [t])"
    unfolding limiter_inv_def using d room by (intro conjI exI [of _ d]) auto
  moreover have "windowSizeMs + 1 \<le> t - h ! (length h - localLimit)" if "localLimit \<le> length h"
  proof -
    have "length h - localLimit < length d" using d(1) room that by simp
    then have "h ! (length h - localLimit) \<in> set d" using d(1) by (simp add: nth_append)
    with d(2) show ?thesis by fastforce
  qed
  ultimately show ?thesis by simp
qed

interpretation fut: pacer wait_attempt "\<lambda>q q'. False" limiter_inv localLimit "windowSizeMs + 1"
proof
  show "0 < localLimit" by (simp add: localLimit_def)
next
  fix c h s t s'
  assume "limiter_inv c h s" and "c \<le> t" and "wait_attempt t s = (True, s')"
  then show "limiter_inv t (h @ [t]) s' \<and>
      (localLimit \<le> length h \<longrightarrow> windowSizeMs + 1 \<le> t - h ! (length h - localLimit))"
    using limiter_inv_grant [OF limiter_inv_prune, of c h s t]
    by (auto simp: wait_attempt_def Let_def split: if_splits)
next
  fix c h s t s'
  assume "limiter_inv c h s" and "c \<le> t" and "wait_attempt t s = (False, s')"
  then show "limiter_inv t h s'"
    using limiter_inv_prune [of c h s t] by (auto simp: wait_attempt_def Let_def split: if_splits)
next
  fix c h s s'
  assume "limiter_inv c h s" and False
  then show "limiter_inv c h s'" by simp
qed

lemma limiter_inv_init [simp]: "limiter_inv c [] []"
  by (simp add: limiter_inv_def)

subsection \<open>The futures wait returns\<close>

text \<open>
  What the standard promises of the clock and of \<open>sleep_for\<close>: after a sleep of \<open>d\<close> the clock reads
  at least \<open>d\<close> more (the system clock is not set back meanwhile).
\<close>

definition clock_ok :: "('w \<Rightarrow> int \<times> 'w) \<Rightarrow> (int \<Rightarrow> 'w \<Rightarrow> 'w) \<Rightarrow> bool" where
  "clock_ok now sleep_for \<longleftrightarrow>
    (\<forall>w t w' d. now w = (t, w') \<longrightarrow> 0 \<le> d \<longrightarrow> t + d \<le> fst (now (sleep_for d w')))"

lemma prune_expired_head:
  "q \<noteq> [] \<Longrightarrow> now - hd q > windowSizeMs \<Longrightarrow> length (prune now q) < length q"
  by (cases q) (auto simp: prune_def length_dropWhile_le le_imp_less_Suc)

lemma wait_attempt_granted: "wait_attempt t q = (True, q') \<Longrightarrow> q' = prune t q @ [t] \<and> length q' \<le> localLimit"
  by (auto simp: wait_attempt_def Let_def split: if_splits)

lemma wait_attempt_after_sleep:
  assumes "length q \<le> localLimit" and "wait_attempt t q = (False, q1)" and "t + wait_time t q1 \<le> t'"
  shows "wait_attempt t' q1 = (True, prune t' q1 @ [t'])"
proof -
  have q1: "length q1 = localLimit"
    using assms(1,2) prune_length [of t q] by (auto simp: wait_attempt_def Let_def split: if_splits)
  then have "q1 \<noteq> []" by (auto simp: localLimit_def)
  moreover have "t' - hd q1 > windowSizeMs" using assms(3) by (simp add: wait_time_def)
  ultimately have "length (prune t' q1) < localLimit" using prune_expired_head q1 by metis
  then show ?thesis by (simp add: wait_attempt_def)
qed

lemma wait_two_attempts:
  assumes ok: "clock_ok now sleep_for" and len: "length q \<le> localLimit" and n: "now w = (t, w1)"
  shows "\<exists>q' w'. wait now sleep_for q w = Some (q', w') \<and> q' \<noteq> [] \<and> t \<le> last q' \<and> length q' \<le> localLimit"
proof (cases "fst (wait_attempt t q)")
  case True
  then obtain q' where a: "wait_attempt t q = (True, q')" by (metis prod.collapse)
  have "q' = prune t q @ [t]" "length q' \<le> localLimit" using wait_attempt_granted [OF a] by auto
  then show ?thesis by (subst wait.simps) (simp add: n a)
next
  case False
  then obtain q1 where a: "wait_attempt t q = (False, q1)" by (metis prod.collapse)
  let ?d = "wait_time t q1"
  obtain t' w2 where n': "now (sleep_for ?d w1) = (t', w2)" by fastforce
  have "0 \<le> ?d" by (simp add: wait_time_def)
  then have t': "t + ?d \<le> t'" using ok n n' unfolding clock_ok_def by (metis fst_conv)
  then have a': "wait_attempt t' q1 = (True, prune t' q1 @ [t'])"
    by (rule wait_attempt_after_sleep [OF len a])
  have "t \<le> t'" using t' \<open>0 \<le> ?d\<close> by linarith
  then show ?thesis
    using wait_attempt_granted [OF a'] by (subst wait.simps, simp add: n a, subst wait.simps) (simp add: n' a')
qed

subsection \<open>The spot limiter\<close>

text \<open>
  One pass: the clock is read once, and the reading recorded at the end is that first one, also
  when the call slept in between. The result is how long the call slept and the new deque.
\<close>

definition spot_localLimit :: nat where
  "spot_localLimit = 10"

definition spot_wait :: "int \<Rightarrow> int list \<Rightarrow> int \<times> int list" where
  "spot_wait now requestTimes =
    (let q = prune now requestTimes in
     if length q \<ge> spot_localLimit then
       (let waitTime = hd q + windowSizeMs - now + 10 in
        if waitTime > 0 then (waitTime, q @ [now]) else (0, q @ [now]))
     else (0, q @ [now]))"

text \<open>One thread calling \<open>wait\<close> at the given readings: when each request is let go.\<close>

fun spot_departures :: "int list \<Rightarrow> int list \<Rightarrow> int list" where
  "spot_departures q [] = []"
| "spot_departures q (now # rest) =
    (case spot_wait now q of (slept, q') \<Rightarrow> (now + slept) # spot_departures q' rest)"

subsection \<open>Properties\<close>

text \<open>
  C18. However the threads of the process interleave, at most six requests are granted in any
  window shorter than 1001 ms: of the grants of a run of the shared futures limiter, no seven
  consecutive ones fit into such a window.
\<close>

theorem futures_limiter_window:
  assumes "paced wait_attempt (\<lambda>q q'. False) [] c h q"
    and "\<forall>t \<in> set (take n (drop i h)). a \<le> t \<and> t < a + windowSizeMs + 1"
    and "n \<le> length (drop i h)"
  shows "n \<le> localLimit"
  using assms by (intro fut.at_most_k_per_window [of "[]" c h q n i a]) auto

theorem futures_limiter_window_witness:
  "paced wait_attempt (\<lambda>q q'. False) [] 5 [0, 5] [0, 5] \<and> (2::nat) \<le> localLimit"
proof -
  have "paced wait_attempt (\<lambda>q q'. False) [] 0 [] []" by (rule paced.start)
  then have "paced wait_attempt (\<lambda>q q'. False) [] 0 ([] @ [0]) [0]"
    by (rule paced.grant) (simp_all add: wait_attempt_def prune_def localLimit_def)
  then have r: "paced wait_attempt (\<lambda>q q'. False) [] 5 ([0] @ [5]) [0, 5]"
    by (intro paced.grant [of _ _ _ 0 "[0]" "[0]"])
      (simp_all add: wait_attempt_def prune_def localLimit_def windowSizeMs_def)
  then show ?thesis
    using futures_limiter_window [of 5 "[0, 5]" "[0, 5]" 2 0 0] by (simp add: windowSizeMs_def)
qed

text \<open>
  A caller that no other thread contends with always gets through \<open>wait\<close>, after at most one
  sleep, and what it records is a fresh reading, never the one from before the sleep: the
  recorded time is at or after the reading on entry.
\<close>

theorem futures_wait_returns:
  assumes "clock_ok now sleep_for" and "length q \<le> localLimit"
  shows "\<exists>q' w'. wait now sleep_for q w = Some (q', w') \<and> q' \<noteq> [] \<and> fst (now w) \<le> last q' \<and>
    length q' \<le> localLimit"
proof -
  obtain t w1 where "now w = (t, w1)" by fastforce
  from wait_two_attempts [OF assms this] this show ?thesis by simp
qed

theorem futures_wait_returns_witness:
  "clock_ok (\<lambda>w::int. (w, w)) (\<lambda>d w. w + d) \<and> length [0::int, 0, 0, 0, 0, 0] \<le> localLimit \<and>
   (\<exists>q' w'. wait (\<lambda>w::int. (w, w)) (\<lambda>d w. w + d) [0, 0, 0, 0, 0, 0] 0 = Some (q', w') \<and> 0 \<le> last q')"
proof -
  have ok: "clock_ok (\<lambda>w::int. (w, w)) (\<lambda>d w. w + d)" by (simp add: clock_ok_def)
  have len: "length [0::int, 0, 0, 0, 0, 0] \<le> localLimit" by (simp add: localLimit_def)
  show ?thesis using ok len futures_wait_returns [OF ok len, of 0] by auto
qed

text \<open>
  The spot limiter lets more requests go than its limit of ten per second: a thread that
  asks eleven times at 0 ms is held back until 1010 ms by the last call, but that call is recorded
  as of 0 ms, so ten more calls at 1010 ms all pass at once and eleven requests leave in the same
  millisecond.
\<close>

theorem spot_limiter_overruns:
  "count_list (spot_departures [] (replicate 11 0 @ replicate 10 1010)) 1010 = spot_localLimit + 1"
  by code_simp

end
