(* ===== verification/Ws_Topics.thy ===== *)
theory Ws_Topics
  imports Event_Models
begin

section \<open>Subscription requests as topics\<close>

text \<open>
  What \<open>mexc_futures_ws_session.cpp\<close> does with subscription requests as values, and the contract
  of a store of them.
  \<^item> \<open>sameRequest\<close> is \<open>operator==\<close> of \<open>nlohmann::json\<close>: an integer and a floating number are equal
    when their values are, everything else is compared structurally.
  \<^item> \<open>toUnsubscribe\<close> turns a request into the frame that takes it back.
  \<^item> \<open>exact\<close> holds of the requests without floating numbers, which the stream managers send; on
    them the comparison is equality of terms.
  \<^item> The locale \<open>topic_store\<close> is what the session promises the WebSocket client: after any sequence
    of requests the store holds what the last request on each topic left. It is interpreted on
    the session's own \<open>addTopic\<close>, \<open>removeTopic\<close> and \<open>isSubscribed\<close>.
\<close>

subsection \<open>Equality of requests\<close>

fun sameRequest :: "json \<Rightarrow> json \<Rightarrow> bool" where
  "sameRequest JNull JNull = True"
| "sameRequest (JBool p) (JBool q) = (p = q)"
| "sameRequest (JInt m) (JInt n) = (m = n)"
| "sameRequest (JInt m) (JFloat y) = deq (fl (of_int m)) y"
| "sameRequest (JFloat x) (JInt n) = deq x (fl (of_int n))"
| "sameRequest (JFloat x) (JFloat y) = deq x y"
| "sameRequest (JStr s) (JStr t) = (s = t)"
| "sameRequest (JArr xs) (JArr ys) = list_all2 sameRequest xs ys"
| "sameRequest (JObj es) (JObj fs) =
     list_all2 (\<lambda>e f. fst e = fst f \<and> sameRequest (snd e) (snd f)) es fs"
| "sameRequest _ _ = False"

fun exact :: "json \<Rightarrow> bool" where
  "exact (JFloat x) = False"
| "exact (JArr xs) = list_all exact xs"
| "exact (JObj es) = list_all (\<lambda>e. exact (snd e)) es"
| "exact j = True"

lemma list_all2_same:
  "(\<And>x y. x \<in> set xs \<Longrightarrow> y \<in> set ys \<Longrightarrow> P x y \<longleftrightarrow> x = y) \<Longrightarrow> list_all2 P xs ys \<longleftrightarrow> xs = ys"
  by (induction xs arbitrary: ys; case_tac ys) auto

lemma sameRequest_exact: "exact a \<Longrightarrow> exact b \<Longrightarrow> sameRequest a b \<longleftrightarrow> a = b"
proof (induction a b rule: sameRequest.induct)
  case (8 xs ys)
  then show ?case by (auto simp: list_all_iff list_all2_same)
next
  case (9 es fs)
  then have "\<And>e f. e \<in> set es \<Longrightarrow> f \<in> set fs \<Longrightarrow>
      (fst e = fst f \<and> sameRequest (snd e) (snd f)) \<longleftrightarrow> e = f"
    by (fastforce simp: list_all_iff prod_eq_iff)
  then show ?case by (simp add: list_all2_same)
qed auto

subsection \<open>The frame that takes a request back\<close>

definition toUnsubscribe :: "jlib \<Rightarrow> json \<Rightarrow> json result" where
  "toUnsubscribe L subscription =
    (case jfind subscription ''method'' of
       None \<Rightarrow> Inr subscription
     | Some m \<Rightarrow> rbind (get_str L m) (\<lambda>method.
         if starts_with method ''sub.''
         then Inr (jset ''method'' (JStr (''un'' @ method)) subscription) else Inr subscription))"

lemma toUnsubscribe_sub:
  assumes "jfind (JObj es) ''method'' = Some (JStr (''sub.'' @ ch))" "get_str L (JStr (''sub.'' @ ch)) = Inr (''sub.'' @ ch)"
  shows "toUnsubscribe L (JObj es) = Inr (JObj (put ''method'' (JStr (''unsub.'' @ ch)) es))"
  using assms by (simp add: toUnsubscribe_def starts_with_def)

subsection \<open>The contract of the store\<close>

datatype 't request = Want 't | Drop 't

fun wanted_after :: "'t request list \<Rightarrow> 't set \<Rightarrow> 't set" where
  "wanted_after [] T = T"
| "wanted_after (Want t # rs) T = wanted_after rs (insert t T)"
| "wanted_after (Drop t # rs) T = wanted_after rs (T - {t})"

fun topic_of :: "'t request \<Rightarrow> 't" where
  "topic_of (Want t) = t"
| "topic_of (Drop t) = t"

lemma wanted_after_append: "wanted_after (rs @ rs') T = wanted_after rs' (wanted_after rs T)"
  by (induction rs T rule: wanted_after.induct) simp_all

locale topic_store =
  fixes add :: "'t \<Rightarrow> 's \<Rightarrow> 's"
    and remove :: "'t \<Rightarrow> 's \<Rightarrow> 's"
    and mem :: "'t \<Rightarrow> 's \<Rightarrow> bool"
    and ok :: "'t \<Rightarrow> bool"
    and inv :: "'s \<Rightarrow> bool"
  assumes inv_add: "ok t \<Longrightarrow> inv s \<Longrightarrow> inv (add t s)"
    and inv_remove: "ok t \<Longrightarrow> inv s \<Longrightarrow> inv (remove t s)"
    and mem_add: "ok t \<Longrightarrow> ok u \<Longrightarrow> inv s \<Longrightarrow> mem u (add t s) \<longleftrightarrow> u = t \<or> mem u s"
    and mem_remove: "ok t \<Longrightarrow> ok u \<Longrightarrow> inv s \<Longrightarrow> mem u (remove t s) \<longleftrightarrow> u \<noteq> t \<and> mem u s"
begin

fun serve :: "'t request list \<Rightarrow> 's \<Rightarrow> 's" where
  "serve [] s = s"
| "serve (Want t # rs) s = serve rs (add t s)"
| "serve (Drop t # rs) s = serve rs (remove t s)"

lemma serve_append: "serve (rs @ rs') s = serve rs' (serve rs s)"
  by (induction rs s rule: serve.induct) simp_all

lemma serve_ok:
  "(\<forall>r \<in> set rs. ok (topic_of r)) \<Longrightarrow> inv s \<Longrightarrow> (\<And>u. ok u \<Longrightarrow> mem u s \<longleftrightarrow> u \<in> T) \<Longrightarrow>
   inv (serve rs s) \<and> (\<forall>u. ok u \<longrightarrow> (mem u (serve rs s) \<longleftrightarrow> u \<in> wanted_after rs T))"
proof (induction rs s arbitrary: T rule: serve.induct)
  case (2 t rs s)
  then show ?case using "2.IH" [of "insert t T"] by (simp add: inv_add mem_add)
next
  case (3 t rs s)
  have "inv (remove t s)" and "\<And>u. ok u \<Longrightarrow> mem u (remove t s) \<longleftrightarrow> u \<in> T - {t}"
    using "3.prems" by (simp_all add: inv_remove mem_remove conj_commute)
  then show ?case using "3.IH" [of "T - {t}"] "3.prems"(1) by simp
qed simp

lemma add_twice: "ok t \<Longrightarrow> ok u \<Longrightarrow> inv s \<Longrightarrow> mem u (add t (add t s)) \<longleftrightarrow> mem u (add t s)"
  by (simp add: inv_add mem_add)

lemma remove_add: "ok t \<Longrightarrow> ok u \<Longrightarrow> inv s \<Longrightarrow> \<not> mem t s \<Longrightarrow> mem u (remove t (add t s)) \<longleftrightarrow> mem u s"
  by (auto simp: inv_add mem_add mem_remove)

end

end
