(* ===== verification/Ws_Session.thy ===== *)
theory Ws_Session
  imports Ws_Topics
begin

section \<open>The WebSocket session\<close>

text \<open>
  \<open>mexc_futures_ws_session.cpp\<close>: one connection with its write queue, its topic store and its
  reconnect logic. The record \<open>session\<close> has the members of \<open>WebSocketSession::P\<close>, and two more
  fields for the executor that runs it: \<open>armed\<close>, the asynchronous operations started and not yet
  completed, each with the generation its completion captured, and \<open>posted\<close>, the jobs posted to
  the strand in order. The field \<open>did\<close> is a history of what the session made the network do; no
  operation reads it.
  \<^item> \<open>hasStream\<close> says that the pointer \<open>ws\<close> is set. \<open>startConnect\<close> makes a new stream and counts
    the generation up together, so a stream is named by the generation that made it.
  \<^item> Each completion handler of the source is one definition, run to its end on the strand. The
    topic store is the only state that other threads change, under the lock, and every
    handler touches it in one critical section, so a request of another thread that falls into
    a handler is one that comes before or after it.
  \<^item> What a handler reads from outside is the record \<open>reading\<close>: the error code of the completion, the
    clocks, whether the stream is open, and the bytes that were read. Nothing is assumed of it.
  \<^item> JSON, HMAC and hexadecimal printing are the parameter \<open>ws_lib\<close>; what \<open>parse\<close> and \<open>readValue\<close>
    throw are exceptions of the JSON library, which is what \<open>onRead\<close> catches.
  \<^item> Logging and the options set on the stream (timeouts, user agent, certificate check) are left
    out. The data callback is an entry of \<open>did\<close>; an exception it throws is logged and dropped.
\<close>

subsection \<open>The state\<close>

datatype op =
    Resolve int
  | Connect int
  | TlsHandshake int
  | Handshake int
  | Read int
  | Write int
  | PingWait int
  | ReconnectWait int

datatype job = Flush | TakeBack json | Start | CloseUser

datatype act =
    Dial int string string
  | Upgrade int string string
  | Wrote int string
  | Deliver Event
  | SocketClosed int
  | CloseFrame int
  | Backoff int int
  | Escaped exn

record session =
  host :: string
  port :: string
  path :: string
  hostHeader :: string
  apiKey :: string
  apiSecret :: string
  authRequired :: bool
  hasDataCB :: bool
  outboundQueue :: "string list"
  writeInFlight :: bool
  writeBuffer :: string
  subscriptions :: "json list"
  pendingTopics :: "json list"
  reconnectDelayS :: int
  generation :: int
  hasStream :: bool
  connected :: bool
  authenticated :: bool
  authenticatedFlag :: bool
  reconnectScheduled :: bool
  userClosed :: bool
  lastPongTime :: int
  authDeadline :: "int option"
  armed :: "op list"
  posted :: "job list"
  did :: "act list"

text \<open>The deadline \<open>None\<close> is \<open>time_point::max()\<close>, which no clock passes.\<close>

definition session_default :: session where
  "session_default = \<lparr>host = [], port = [], path = ''/edge'', hostHeader = [], apiKey = [], apiSecret = [],
     authRequired = False, hasDataCB = False, outboundQueue = [], writeInFlight = False,
     writeBuffer = [], subscriptions = [], pendingTopics = [], reconnectDelayS = 1, generation = 0,
     hasStream = False, connected = False, authenticated = False, authenticatedFlag = False,
     reconnectScheduled = False, userClosed = False, lastPongTime = 0, authDeadline = None,
     armed = [], posted = [], did = []\<rparr>"

record reading =
  failed :: bool
  steady :: int
  steadyLogin :: int
  wallMs :: int
  isOpen :: bool
  sniSet :: bool
  peerPort :: int
  frame :: string

record ws_lib =
  wl_json :: jlib
  wl_hmac :: "string \<Rightarrow> string \<Rightarrow> string"

definition PING_INTERVAL_IN_S :: int where
  "PING_INTERVAL_IN_S = 15"

definition PONG_TIMEOUT_IN_S :: int where
  "PONG_TIMEOUT_IN_S = 40"

definition RECONNECT_DELAY_MAX_IN_S :: int where
  "RECONNECT_DELAY_MAX_IN_S = 30"

definition AUTH_ACK_TIMEOUT_IN_S :: int where
  "AUTH_ACK_TIMEOUT_IN_S = 15"

definition arm :: "op \<Rightarrow> session \<Rightarrow> session" where
  "arm o' s = s\<lparr>armed := armed s @ [o']\<rparr>"

definition note_act :: "act \<Rightarrow> session \<Rightarrow> session" where
  "note_act a s = s\<lparr>did := did s @ [a]\<rparr>"

definition post :: "job \<Rightarrow> session \<Rightarrow> session" where
  "post j s = s\<lparr>posted := posted s @ [j]\<rparr>"

subsection \<open>The write queue\<close>

definition enqueueOp :: "string \<Rightarrow> session \<Rightarrow> session" where
  "enqueueOp payload s = s\<lparr>outboundQueue := outboundQueue s @ [payload]\<rparr>"

definition pump :: "reading \<Rightarrow> session \<Rightarrow> session" where
  "pump io s =
    (if writeInFlight s \<or> \<not> connected s \<or> \<not> hasStream s \<or> \<not> isOpen io then s
     else case outboundQueue s of
       [] \<Rightarrow> s
     | p # q \<Rightarrow> note_act (Wrote (generation s) p) (arm (Write (generation s))
         (s\<lparr>writeBuffer := p, outboundQueue := q, writeInFlight := True\<rparr>)))"

subsection \<open>The topic store\<close>

definition addTopic :: "json \<Rightarrow> session \<Rightarrow> session" where
  "addTopic topic s =
    (if list_ex (\<lambda>x. sameRequest x topic) (subscriptions s) then s
     else if list_ex (\<lambda>x. sameRequest x topic) (pendingTopics s) then s
     else s\<lparr>pendingTopics := pendingTopics s @ [topic]\<rparr>)"

fun erase_first :: "('a \<Rightarrow> bool) \<Rightarrow> 'a list \<Rightarrow> 'a list option" where
  "erase_first P [] = None"
| "erase_first P (x # xs) = (if P x then Some xs else map_option (Cons x) (erase_first P xs))"

definition removeTopic :: "json \<Rightarrow> session \<Rightarrow> bool \<times> session" where
  "removeTopic topic s =
    (let s = s\<lparr>pendingTopics := filter (\<lambda>x. \<not> sameRequest x topic) (pendingTopics s)\<rparr>
     in case erase_first (\<lambda>x. sameRequest x topic) (subscriptions s) of
          Some rest \<Rightarrow> (True, s\<lparr>subscriptions := rest\<rparr>)
        | None \<Rightarrow> (False, s))"

definition isSubscribed :: "json \<Rightarrow> session \<Rightarrow> bool" where
  "isSubscribed topic s \<longleftrightarrow> list_ex (\<lambda>x. sameRequest x topic) (subscriptions s) \<or>
     list_ex (\<lambda>x. sameRequest x topic) (pendingTopics s)"

definition flushTopics :: "ws_lib \<Rightarrow> reading \<Rightarrow> session \<Rightarrow> session" where
  "flushTopics L io s =
    (if \<not> connected s \<or> (authRequired s \<and> \<not> authenticated s) then s
     else let toSend = pendingTopics s;
              s = s\<lparr>subscriptions := subscriptions s @ toSend, pendingTopics := []\<rparr>
          in pump io (fold (\<lambda>topic. enqueueOp (dump (wl_json L) topic)) toSend s))"

subsection \<open>Errors and the reconnect\<close>

definition handleError :: "int \<Rightarrow> session \<Rightarrow> session" where
  "handleError gen s =
    (if gen \<noteq> generation s \<or> reconnectScheduled s then s
     else if userClosed s then s
     else let s = s\<lparr>reconnectScheduled := True, connected := False, authenticated := False,
                    authenticatedFlag := False, writeInFlight := False, authDeadline := None,
                    outboundQueue := [], pendingTopics := subscriptions s @ pendingTopics s,
                    subscriptions := []\<rparr>;
              s = (if hasStream s then note_act (SocketClosed gen) s else s);
              s = note_act (Backoff gen (reconnectDelayS s)) s
          in arm (ReconnectWait gen)
               (s\<lparr>reconnectDelayS := min (reconnectDelayS s * 2) RECONNECT_DELAY_MAX_IN_S\<rparr>))"

definition startConnect :: "session \<Rightarrow> session" where
  "startConnect s =
    (if userClosed s then s
     else let s = s\<lparr>generation := generation s + 1, connected := False, authenticated := False,
                    authenticatedFlag := False, writeInFlight := False, authDeadline := None,
                    hostHeader := host s, hasStream := True\<rparr>
          in note_act (Dial (generation s) (host s) (port s)) (arm (Resolve (generation s)) s))"

definition onReconnectTimer :: "int \<Rightarrow> reading \<Rightarrow> session \<Rightarrow> session" where
  "onReconnectTimer gen io s =
    (if gen \<noteq> generation s then s
     else let s = s\<lparr>reconnectScheduled := False\<rparr>
          in if failed io \<or> userClosed s then s else startConnect s)"

subsection \<open>The connect chain\<close>

definition onResolve :: "int \<Rightarrow> reading \<Rightarrow> session \<Rightarrow> session" where
  "onResolve gen io s = (if failed io then handleError gen s else arm (Connect gen) s)"

definition onConnect :: "int \<Rightarrow> reading \<Rightarrow> session \<Rightarrow> session" where
  "onConnect gen io s =
    (if failed io then handleError gen s
     else if \<not> sniSet io then handleError gen s
     else arm (TlsHandshake gen) (s\<lparr>hostHeader := host s @ '':'' @ int_str (peerPort io)\<rparr>))"

text \<open>The control callback that \<open>onSSLHandshake\<close> sets on the stream runs on a pong frame.\<close>

definition onPongFrame :: "reading \<Rightarrow> session \<Rightarrow> session" where
  "onPongFrame io s = s\<lparr>lastPongTime := steady io\<rparr>"

definition onSSLHandshake :: "int \<Rightarrow> reading \<Rightarrow> session \<Rightarrow> session" where
  "onSSLHandshake gen io s =
    (if failed io then handleError gen s
     else note_act (Upgrade gen (hostHeader s) (path s)) (arm (Handshake gen) s))"

definition loginFrame :: "ws_lib \<Rightarrow> reading \<Rightarrow> session \<Rightarrow> string" where
  "loginFrame L io s =
    (let reqTime = int_str (wallMs io);
         payload = apiKey s @ reqTime
     in dump (wl_json L)
          (jset ''param'' (JObj [(''apiKey'', JStr (apiKey s)), (''reqTime'', JStr reqTime),
                                 (''signature'', JStr (wl_hmac L (apiSecret s) payload))])
            (jset ''method'' (JStr ''login'') (jset ''subscribe'' (JBool True) JNull))))"

definition sendLogin :: "ws_lib \<Rightarrow> reading \<Rightarrow> session \<Rightarrow> session" where
  "sendLogin L io s =
    pump io (enqueueOp (loginFrame L io s)
      (s\<lparr>authDeadline := Some (steadyLogin io + secs AUTH_ACK_TIMEOUT_IN_S)\<rparr>))"

definition onHandshake :: "ws_lib \<Rightarrow> int \<Rightarrow> reading \<Rightarrow> session \<Rightarrow> session" where
  "onHandshake L gen io s =
    (if failed io then handleError gen s
     else if userClosed s then s
     else let s = arm (PingWait gen) (s\<lparr>connected := True, lastPongTime := steady io\<rparr>);
              s = (if authRequired s then sendLogin L io s else flushTopics L io s)
          in arm (Read gen) s)"

subsection \<open>Inbound messages\<close>

definition isControlMsg :: "json \<Rightarrow> bool" where
  "isControlMsg j = (case jfind j ''channel'' of
      Some (JStr channel) \<Rightarrow> starts_with channel ''rs.'' \<or> channel = ''pong'' \<or> channel = ''clientId''
    | _ \<Rightarrow> False)"

definition handleControlMsg :: "ws_lib \<Rightarrow> int \<Rightarrow> reading \<Rightarrow> json \<Rightarrow> session \<Rightarrow> session result" where
  "handleControlMsg L gen io j s =
    rbind (rd_str (wl_json L) j ''channel'' []) (\<lambda>channel.
      if channel = ''pong'' then Inr (s\<lparr>lastPongTime := steady io\<rparr>)
      else if channel = ''clientId'' then Inr s
      else if channel = ''rs.login'' then
        rbind (rd_str (wl_json L) j ''data'' []) (\<lambda>data.
          if data = ''success'' then
            Inr (flushTopics L io (s\<lparr>authenticated := True, authenticatedFlag := True,
                                     authDeadline := None, reconnectDelayS := 1\<rparr>))
          else Inr (handleError gen s))
      else if channel = ''rs.error'' then Inr s
      else rbind (rd_str (wl_json L) j ''data'' []) (\<lambda>data. Inr s))"

definition deliver :: "ws_lib \<Rightarrow> json \<Rightarrow> session \<Rightarrow> session" where
  "deliver L j s = (case fresh (Event_fromJson (wl_json L) j) Event_default of
      Inl e \<Rightarrow> s
    | Inr dataEvent \<Rightarrow> if hasDataCB s then note_act (Deliver dataEvent) s else s)"

definition readOn :: "int \<Rightarrow> session \<Rightarrow> session" where
  "readOn gen s =
    (if gen \<noteq> generation s \<or> reconnectScheduled s \<or> \<not> connected s then s
     else arm (Read gen)
       (if \<not> authRequired s \<or> authenticated s then s\<lparr>reconnectDelayS := 1\<rparr> else s))"

definition onRead :: "ws_lib \<Rightarrow> int \<Rightarrow> reading \<Rightarrow> session \<Rightarrow> session" where
  "onRead L gen io s =
    (if failed io then handleError gen s
     else case parse (wl_json L) (frame io) of
       Inl e \<Rightarrow> handleError gen s
     | Inr j \<Rightarrow>
        (case (if is_object j
               then if isControlMsg j then handleControlMsg L gen io j s else Inr (deliver L j s)
               else Inr s) of
           Inl e \<Rightarrow> handleError gen s
         | Inr s \<Rightarrow> readOn gen s))"

subsection \<open>Heartbeat, writes and the close\<close>

definition pingFrame :: "ws_lib \<Rightarrow> string" where
  "pingFrame L = dump (wl_json L) (JObj [(''method'', JStr ''ping'')])"

text \<open>\<open>duration_cast<seconds>\<close> rounds toward zero.\<close>

definition whole_secs :: "int \<Rightarrow> int" where
  "whole_secs d = (if 0 \<le> d then d div secs 1 else - ((- d) div secs 1))"

definition onPingTimer :: "ws_lib \<Rightarrow> int \<Rightarrow> reading \<Rightarrow> session \<Rightarrow> session" where
  "onPingTimer L gen io s =
    (if failed io \<or> gen \<noteq> generation s then s
     else if userClosed s then s
     else if connected s then
       if whole_secs (steady io - lastPongTime s) > PONG_TIMEOUT_IN_S then handleError gen s
       else if authRequired s \<and> \<not> authenticated s \<and> (case authDeadline s of None \<Rightarrow> False | Some d \<Rightarrow> steady io > d)
       then handleError gen s
       else arm (PingWait gen) (pump io (enqueueOp (pingFrame L) s))
     else arm (PingWait gen) s)"

definition onWrite :: "int \<Rightarrow> reading \<Rightarrow> session \<Rightarrow> session" where
  "onWrite gen io s =
    (if gen \<noteq> generation s then s
     else let s = s\<lparr>writeInFlight := False\<rparr>
          in if failed io then handleError gen s else pump io s)"

definition closeByUser :: "reading \<Rightarrow> session \<Rightarrow> session" where
  "closeByUser io s =
    (if userClosed s then s
     else let s = s\<lparr>userClosed := True\<rparr>
          in if \<not> hasStream s then s
             else if isOpen io \<and> \<not> writeInFlight s then note_act (CloseFrame (generation s)) s
             else note_act (SocketClosed (generation s)) s)"

subsection \<open>The operations of the session object\<close>

definition session_setCredentials :: "string \<Rightarrow> string \<Rightarrow> session \<Rightarrow> session" where
  "session_setCredentials key secret s =
    s\<lparr>apiKey := key, apiSecret := secret, authRequired := key \<noteq> [] \<and> secret \<noteq> []\<rparr>"

definition session_subscribe :: "json \<Rightarrow> session \<Rightarrow> session" where
  "session_subscribe request s = post Flush (addTopic request s)"

definition session_unsubscribe :: "json \<Rightarrow> session \<Rightarrow> session" where
  "session_unsubscribe request s =
    (case removeTopic request s of (found, s) \<Rightarrow> if \<not> found then s else post (TakeBack request) s)"

definition session_run :: "string \<Rightarrow> string \<Rightarrow> string \<Rightarrow> json \<Rightarrow> bool \<Rightarrow> session \<Rightarrow> session" where
  "session_run h p pt request cb s =
    (let s = s\<lparr>host := h, port := p, path := pt, hasDataCB := cb\<rparr>;
         s = (if jempty request then s else addTopic request s)
     in post Start s)"

definition session_close :: "session \<Rightarrow> session" where
  "session_close s = post CloseUser s"

definition session_isAuthenticated :: "session \<Rightarrow> bool" where
  "session_isAuthenticated s = authenticatedFlag s"

text \<open>The jobs, as they run on the strand. A request whose method is not a string makes \<open>get\<close>
  throw out of the job, to the thread that runs the executor.\<close>

definition takeBack :: "ws_lib \<Rightarrow> reading \<Rightarrow> json \<Rightarrow> session \<Rightarrow> session" where
  "takeBack L io request s =
    (if \<not> connected s then s
     else case toUnsubscribe (wl_json L) request of
       Inl e \<Rightarrow> note_act (Escaped e) s
     | Inr unsub \<Rightarrow> pump io (enqueueOp (dump (wl_json L) unsub) s))"

fun do_job :: "ws_lib \<Rightarrow> reading \<Rightarrow> job \<Rightarrow> session \<Rightarrow> session" where
  "do_job L io Flush s = flushTopics L io s"
| "do_job L io (TakeBack request) s = takeBack L io request s"
| "do_job L io Start s = startConnect s"
| "do_job L io CloseUser s = closeByUser io s"

text \<open>The completions. Those of the connect chain and the read are dropped when the generation has
  moved on; the others look at it themselves.\<close>

definition current :: "int \<Rightarrow> (session \<Rightarrow> session) \<Rightarrow> session \<Rightarrow> session" where
  "current gen f s = (if gen \<noteq> generation s then s else f s)"

fun complete :: "ws_lib \<Rightarrow> reading \<Rightarrow> op \<Rightarrow> session \<Rightarrow> session" where
  "complete L io (Resolve gen) s = current gen (onResolve gen io) s"
| "complete L io (Connect gen) s = current gen (onConnect gen io) s"
| "complete L io (TlsHandshake gen) s = current gen (onSSLHandshake gen io) s"
| "complete L io (Handshake gen) s = current gen (onHandshake L gen io) s"
| "complete L io (Read gen) s = current gen (onRead L gen io) s"
| "complete L io (Write gen) s = onWrite gen io s"
| "complete L io (PingWait gen) s = onPingTimer L gen io s"
| "complete L io (ReconnectWait gen) s = onReconnectTimer gen io s"


end
