(* ===== verification/Ws_Runs.thy ===== *)
theory Ws_Runs
  imports Ws_Session
begin

section \<open>Runs of the WebSocket session\<close>

text \<open>
  The session as a transition system. A step is a call of the public interface by some thread, the
  next posted job, or the completion of an asynchronous operation that is outstanding; jobs run
  in the order they were posted, completions come in any order and with any result.
  \<open>react\<close> computes a step, \<open>ws_run\<close> a list of them, and \<open>ws_reach\<close> holds of the states that can come up.

  \<open>sound\<close> is the invariant of the operations outstanding: which can be outstanding together, that
  they match the flags, and that none of a stream is started twice. It rests on one lemma per operation.
\<close>

datatype event =
    SetCredentials string string
  | Subscribe json
  | Unsubscribe json
  | Run string string string json bool
  | CloseCall
  | RunJob reading
  | Done op reading
  | PongFrame reading

inductive ws_step :: "ws_lib \<Rightarrow> session \<Rightarrow> event \<Rightarrow> session \<Rightarrow> bool" for L where
  credentials: "ws_step L s (SetCredentials k c) (session_setCredentials k c s)"
| subscribing: "ws_step L s (Subscribe t) (session_subscribe t s)"
| unsubscribing: "ws_step L s (Unsubscribe t) (session_unsubscribe t s)"
| running: "ws_step L s (Run h p pt t cb) (session_run h p pt t cb s)"
| closing: "ws_step L s CloseCall (session_close s)"
| job: "posted s = j # js \<Longrightarrow> ws_step L s (RunJob io) (do_job L io j (s\<lparr>posted := js\<rparr>))"
| completion: "q \<in> set (armed s) \<Longrightarrow>
    ws_step L s (Done q io) (complete L io q (s\<lparr>armed := remove1 q (armed s)\<rparr>))"
| pong_frame: "hasStream s \<Longrightarrow> ws_step L s (PongFrame io) (onPongFrame io s)"

inductive_simps ws_step_simps [simp]:
  "ws_step L s (SetCredentials k c) s'"
  "ws_step L s (Subscribe t) s'"
  "ws_step L s (Unsubscribe t) s'"
  "ws_step L s (Run h p pt t cb) s'"
  "ws_step L s CloseCall s'"
  "ws_step L s (PongFrame io) s'"

inductive_cases ws_stepE: "ws_step L s e s'"

fun react :: "ws_lib \<Rightarrow> event \<Rightarrow> session \<Rightarrow> session option" where
  "react L (SetCredentials k c) s = Some (session_setCredentials k c s)"
| "react L (Subscribe t) s = Some (session_subscribe t s)"
| "react L (Unsubscribe t) s = Some (session_unsubscribe t s)"
| "react L (Run h p pt t cb) s = Some (session_run h p pt t cb s)"
| "react L CloseCall s = Some (session_close s)"
| "react L (RunJob io) s =
     (case posted s of [] \<Rightarrow> None | j # js \<Rightarrow> Some (do_job L io j (s\<lparr>posted := js\<rparr>)))"
| "react L (Done q io) s =
     (if q \<in> set (armed s) then Some (complete L io q (s\<lparr>armed := remove1 q (armed s)\<rparr>)) else None)"
| "react L (PongFrame io) s = (if hasStream s then Some (onPongFrame io s) else None)"

lemma react_step: "react L e s = Some s' \<longleftrightarrow> ws_step L s e s'"
proof
  show "react L e s = Some s' \<Longrightarrow> ws_step L s e s'"
    by (cases e) (auto split: list.splits if_splits intro: ws_step.intros)
  show "ws_step L s e s' \<Longrightarrow> react L e s = Some s'"
    by (cases rule: ws_step.cases) auto
qed

fun ws_run :: "ws_lib \<Rightarrow> event list \<Rightarrow> session \<Rightarrow> session option" where
  "ws_run L [] s = Some s"
| "ws_run L (e # es) s = (case react L e s of None \<Rightarrow> None | Some s' \<Rightarrow> ws_run L es s')"

lemma ws_run_append:
  "ws_run L (es @ es') s = (case ws_run L es s of None \<Rightarrow> None | Some s' \<Rightarrow> ws_run L es' s')"
  by (induction es arbitrary: s) (auto split: option.splits)

inductive ws_reach :: "ws_lib \<Rightarrow> session \<Rightarrow> bool" for L where
  fresh: "ws_reach L session_default"
| step: "ws_reach L s \<Longrightarrow> ws_step L s e s' \<Longrightarrow> ws_reach L s'"

lemma ws_run_inv:
  assumes "\<And>e s s'. e \<in> set es \<Longrightarrow> P s \<Longrightarrow> ws_step L s e s' \<Longrightarrow> P s'" "P s" "ws_run L es s = Some s'"
  shows "P s'"
  using assms
proof (induction es arbitrary: s)
  case (Cons e es)
  then obtain t where t: "react L e s = Some t" "ws_run L es t = Some s'" by (auto split: option.splits)
  then have "P t" using Cons.prems by (auto simp: react_step)
  then show ?case using Cons.IH Cons.prems t by auto
qed simp

lemma ws_run_reach: "ws_reach L s \<Longrightarrow> ws_run L es s = Some s' \<Longrightarrow> ws_reach L s'"
  by (rule ws_run_inv [where P = "ws_reach L"]) (auto intro: ws_reach.step)

subsection \<open>Fields the operations leave alone\<close>

lemma bookkeeping [simp]:
  "arm q s = s\<lparr>armed := armed s @ [q]\<rparr>"
  "note_act a s = s\<lparr>did := did s @ [a]\<rparr>"
  "post j s = s\<lparr>posted := posted s @ [j]\<rparr>"
  "enqueueOp p s = s\<lparr>outboundQueue := outboundQueue s @ [p]\<rparr>"
  by (simp_all add: arm_def note_act_def post_def enqueueOp_def)

lemma fold_enqueueOp:
  "fold (\<lambda>t. enqueueOp (f t)) ts s = s\<lparr>outboundQueue := outboundQueue s @ map f ts\<rparr>"
  by (induction ts arbitrary: s) simp_all

text \<open>Sending is the only thing that \<open>pump\<close>, \<open>flushTopics\<close> and \<open>sendLogin\<close> do to the operations outstanding.\<close>

lemma pump_cases:
  "pump io s = s \<or> (\<exists>p q. \<not> writeInFlight s \<and> connected s \<and> hasStream s \<and> outboundQueue s = p # q \<and>
     pump io s = s\<lparr>writeBuffer := p, outboundQueue := q, writeInFlight := True,
       armed := armed s @ [Write (generation s)], did := did s @ [Wrote (generation s) p]\<rparr>)"
  by (auto simp: pump_def split: list.splits)

lemma pump_keeps [simp]:
  "host (pump io s) = host s" "port (pump io s) = port s" "path (pump io s) = path s"
  "hostHeader (pump io s) = hostHeader s" "apiKey (pump io s) = apiKey s"
  "apiSecret (pump io s) = apiSecret s" "authRequired (pump io s) = authRequired s"
  "hasDataCB (pump io s) = hasDataCB s" "subscriptions (pump io s) = subscriptions s"
  "pendingTopics (pump io s) = pendingTopics s" "reconnectDelayS (pump io s) = reconnectDelayS s"
  "generation (pump io s) = generation s" "hasStream (pump io s) = hasStream s"
  "connected (pump io s) = connected s" "authenticated (pump io s) = authenticated s"
  "authenticatedFlag (pump io s) = authenticatedFlag s"
  "reconnectScheduled (pump io s) = reconnectScheduled s" "userClosed (pump io s) = userClosed s"
  "lastPongTime (pump io s) = lastPongTime s" "authDeadline (pump io s) = authDeadline s"
  "posted (pump io s) = posted s"
  using pump_cases [of io s] by auto

text \<open>What \<open>flushTopics\<close> hands to the pump.\<close>

definition flushed :: "ws_lib \<Rightarrow> session \<Rightarrow> session" where
  "flushed L s = s\<lparr>subscriptions := subscriptions s @ pendingTopics s, pendingTopics := [],
     outboundQueue := outboundQueue s @ map (dump (wl_json L)) (pendingTopics s)\<rparr>"

lemma flushTopics_pump:
  "flushTopics L io s =
     (if \<not> connected s \<or> (authRequired s \<and> \<not> authenticated s) then s else pump io (flushed L s))"
  by (simp add: flushTopics_def flushed_def Let_def fold_enqueueOp)

subsection \<open>The operations outstanding\<close>

fun gen_of :: "op \<Rightarrow> int" where
  "gen_of (Resolve g) = g"
| "gen_of (Connect g) = g"
| "gen_of (TlsHandshake g) = g"
| "gen_of (Handshake g) = g"
| "gen_of (Read g) = g"
| "gen_of (Write g) = g"
| "gen_of (PingWait g) = g"
| "gen_of (ReconnectWait g) = g"

text \<open>The operations before the connection is up, and the chain they and the reads form.\<close>

fun is_pre :: "op \<Rightarrow> bool" where
  "is_pre (Resolve g) = True"
| "is_pre (Connect g) = True"
| "is_pre (TlsHandshake g) = True"
| "is_pre (Handshake g) = True"
| "is_pre q = False"

fun in_chain :: "op \<Rightarrow> bool" where
  "in_chain (Read g) = True"
| "in_chain q = is_pre q"

lemma pre_in_chain [simp]: "is_pre q \<Longrightarrow> in_chain q"
  by (cases q) auto

definition chain_of :: "session \<Rightarrow> int \<Rightarrow> op list" where
  "chain_of s g = filter (\<lambda>q. in_chain q \<and> gen_of q = g) (armed s)"

definition writes_of :: "session \<Rightarrow> int \<Rightarrow> op list" where
  "writes_of s g = filter (\<lambda>q. q = Write g) (armed s)"

text \<open>An operation that only a connection that is up can start, or its failure.\<close>

definition later :: "session \<Rightarrow> bool" where
  "later s \<longleftrightarrow> connected s \<or> (\<exists>q \<in> {Write, PingWait, ReconnectWait}. q (generation s) \<in> set (armed s))"

definition dialling :: "session \<Rightarrow> bool" where
  "dialling s \<longleftrightarrow> (\<exists>q \<in> set (armed s). is_pre q \<and> gen_of q = generation s)"

definition sound :: "session \<Rightarrow> bool" where
  "sound s \<longleftrightarrow> (\<forall>q \<in> set (armed s). gen_of q \<le> generation s) \<and>
     (dialling s \<longrightarrow> \<not> later s \<and> hasStream s) \<and>
     (\<forall>g. length (chain_of s g) \<le> 1) \<and>
     (\<forall>g. length (writes_of s g) \<le> 1) \<and>
     (connected s \<and> Write (generation s) \<in> set (armed s) \<longrightarrow> writeInFlight s) \<and>
     (writeInFlight s \<longrightarrow> connected s) \<and> (connected s \<longrightarrow> hasStream s)"

lemmas sound_defs = sound_def dialling_def later_def chain_of_def writes_of_def

lemma sound_default: "sound session_default"
  by (simp add: sound_defs session_default_def)

text \<open>The fields that have no part in it.\<close>

lemma sound_other [simp]:
  "sound (s\<lparr>host := x0\<rparr>) = sound s"
  "sound (s\<lparr>port := x1\<rparr>) = sound s"
  "sound (s\<lparr>path := x2\<rparr>) = sound s"
  "sound (s\<lparr>hostHeader := x3\<rparr>) = sound s"
  "sound (s\<lparr>apiKey := x4\<rparr>) = sound s"
  "sound (s\<lparr>apiSecret := x5\<rparr>) = sound s"
  "sound (s\<lparr>authRequired := x6\<rparr>) = sound s"
  "sound (s\<lparr>hasDataCB := x7\<rparr>) = sound s"
  "sound (s\<lparr>outboundQueue := x8\<rparr>) = sound s"
  "sound (s\<lparr>writeBuffer := x9\<rparr>) = sound s"
  "sound (s\<lparr>subscriptions := x10\<rparr>) = sound s"
  "sound (s\<lparr>pendingTopics := x11\<rparr>) = sound s"
  "sound (s\<lparr>reconnectDelayS := x12\<rparr>) = sound s"
  "sound (s\<lparr>authenticated := x13\<rparr>) = sound s"
  "sound (s\<lparr>authenticatedFlag := x14\<rparr>) = sound s"
  "sound (s\<lparr>reconnectScheduled := x15\<rparr>) = sound s"
  "sound (s\<lparr>userClosed := x16\<rparr>) = sound s"
  "sound (s\<lparr>lastPongTime := x17\<rparr>) = sound s"
  "sound (s\<lparr>authDeadline := x18\<rparr>) = sound s"
  "sound (s\<lparr>posted := x19\<rparr>) = sound s"
  "sound (s\<lparr>did := x20\<rparr>) = sound s"
  by (simp_all add: sound_defs)

lemma dialling_other [simp]:
  "dialling (s\<lparr>host := x0\<rparr>) = dialling s"
  "dialling (s\<lparr>port := x1\<rparr>) = dialling s"
  "dialling (s\<lparr>path := x2\<rparr>) = dialling s"
  "dialling (s\<lparr>hostHeader := x3\<rparr>) = dialling s"
  "dialling (s\<lparr>apiKey := x4\<rparr>) = dialling s"
  "dialling (s\<lparr>apiSecret := x5\<rparr>) = dialling s"
  "dialling (s\<lparr>authRequired := x6\<rparr>) = dialling s"
  "dialling (s\<lparr>hasDataCB := x7\<rparr>) = dialling s"
  "dialling (s\<lparr>outboundQueue := x8\<rparr>) = dialling s"
  "dialling (s\<lparr>writeBuffer := x9\<rparr>) = dialling s"
  "dialling (s\<lparr>subscriptions := x10\<rparr>) = dialling s"
  "dialling (s\<lparr>pendingTopics := x11\<rparr>) = dialling s"
  "dialling (s\<lparr>reconnectDelayS := x12\<rparr>) = dialling s"
  "dialling (s\<lparr>authenticated := x13\<rparr>) = dialling s"
  "dialling (s\<lparr>authenticatedFlag := x14\<rparr>) = dialling s"
  "dialling (s\<lparr>reconnectScheduled := x15\<rparr>) = dialling s"
  "dialling (s\<lparr>userClosed := x16\<rparr>) = dialling s"
  "dialling (s\<lparr>lastPongTime := x17\<rparr>) = dialling s"
  "dialling (s\<lparr>authDeadline := x18\<rparr>) = dialling s"
  "dialling (s\<lparr>posted := x19\<rparr>) = dialling s"
  "dialling (s\<lparr>did := x20\<rparr>) = dialling s"
  by (simp_all add: sound_defs)

lemma writes_of_Nil: "Write g \<notin> set (armed s) \<Longrightarrow> writes_of s g = []"
  by (auto simp: writes_of_def filter_empty_conv)

lemma sound_pump [intro]:
  assumes "sound s" shows "sound (pump io s)"
  using pump_cases [of io s]
proof (elim disjE exE conjE)
  fix p q
  assume u: "\<not> writeInFlight s" "connected s" "hasStream s" and eq: "pump io s = s\<lparr>writeBuffer := p,
    outboundQueue := q, writeInFlight := True, armed := armed s @ [Write (generation s)],
    did := did s @ [Wrote (generation s) p]\<rparr>"
  have "Write (generation s) \<notin> set (armed s)" using assms u by (auto simp: sound_def)
  then have "writes_of s (generation s) = []" by (rule writes_of_Nil)
  then show ?thesis using assms u unfolding eq
    by (auto simp: sound_defs)
qed (use assms in simp)

lemma sound_flushed: "sound (flushed L s) = sound s"
  by (simp add: flushed_def sound_defs)

lemma sound_flushTopics [intro]: "sound s \<Longrightarrow> sound (flushTopics L io s)"
  by (auto simp: flushTopics_pump sound_flushed)

lemma sound_sendLogin [intro]: "sound s \<Longrightarrow> sound (sendLogin L io s)"
  unfolding sendLogin_def by (rule sound_pump) (simp add: sound_defs)

text \<open>What an error does when it is not ignored.\<close>

definition down :: "session \<Rightarrow> session" where
  "down s = s\<lparr>reconnectScheduled := True, connected := False, authenticated := False,
     authenticatedFlag := False, writeInFlight := False, authDeadline := None, outboundQueue := [],
     pendingTopics := subscriptions s @ pendingTopics s, subscriptions := [],
     reconnectDelayS := min (reconnectDelayS s * 2) RECONNECT_DELAY_MAX_IN_S,
     armed := armed s @ [ReconnectWait (generation s)],
     did := did s @ (if hasStream s then [SocketClosed (generation s)] else []) @
       [Backoff (generation s) (reconnectDelayS s)]\<rparr>"

lemma handleError_down:
  "handleError gen s =
     (if gen \<noteq> generation s \<or> reconnectScheduled s \<or> userClosed s then s else down s)"
  by (simp add: handleError_def down_def Let_def)

lemma sound_down: "sound s \<Longrightarrow> \<not> dialling s \<Longrightarrow> sound (down s)"
  unfolding down_def by (simp add: sound_defs)

lemma sound_handleError [intro]:
  "sound s \<Longrightarrow> (gen = generation s \<Longrightarrow> \<not> dialling s) \<Longrightarrow> sound (handleError gen s)"
  by (simp add: handleError_down sound_down)

lemma sound_startConnect [intro]:
  assumes "sound s" shows "sound (startConnect s)"
proof (cases "userClosed s")
  case False
  define g where "g = generation s + 1"
  have old: "\<And>q. q \<in> set (armed s) \<Longrightarrow> gen_of q < g" using assms by (auto simp: sound_def g_def)
  have new: "armed (startConnect s) = armed s @ [Resolve g]" "generation (startConnect s) = g"
    "\<not> connected (startConnect s)" "\<not> writeInFlight (startConnect s)"
    using False by (simp_all add: startConnect_def Let_def g_def)
  have none: "q \<notin> set (armed s)" if "gen_of q = g" for q using old [of q] that by auto
  have "chain_of s g = []" using none by (auto simp: chain_of_def filter_empty_conv)
  then have "length (chain_of (startConnect s) h) \<le> 1" for h
    using assms new by (cases "h = g") (simp_all add: sound_def chain_of_def)
  moreover have "length (writes_of (startConnect s) h) \<le> 1" for h
    using assms new by (simp add: sound_def writes_of_def)
  moreover have "\<not> later (startConnect s)" using none [of "Write g"] none [of "PingWait g"] none [of "ReconnectWait g"]
    by (simp add: later_def new)
  moreover have "\<forall>q \<in> set (armed (startConnect s)). gen_of q \<le> g" using old by (auto simp: new less_imp_le)
  moreover have "hasStream (startConnect s)" using False by (simp add: startConnect_def Let_def)
  ultimately show ?thesis by (simp add: sound_def new)
qed (use assms in \<open>simp add: startConnect_def\<close>)

subsection \<open>Every step keeps the operations sound\<close>

definition taken :: "op \<Rightarrow> session \<Rightarrow> session" where
  "taken q s = s\<lparr>armed := remove1 q (armed s)\<rparr>"

lemma taken_sel [simp]:
  "generation (taken q s) = generation s" "connected (taken q s) = connected s"
  "armed (taken q s) = remove1 q (armed s)" "writeInFlight (taken q s) = writeInFlight s"
  "userClosed (taken q s) = userClosed s" "hasStream (taken q s) = hasStream s"
  by (simp_all add: taken_def)

lemma sound_taken:
  assumes "sound s" shows "sound (taken q s)"
proof -
  have sub: "set (remove1 q (armed s)) \<subseteq> set (armed s)" by (rule set_remove1_subset)
  have "length (filter P (remove1 q (armed s))) \<le> length (filter P (armed s))" for P
    by (simp add: filter_remove1 length_remove1)
  then have "\<forall>g. length (chain_of (taken q s) g) \<le> 1" "\<forall>g. length (writes_of (taken q s) g) \<le> 1"
    using assms unfolding sound_def chain_of_def writes_of_def taken_sel by (meson le_trans)+
  then show ?thesis using assms sub by (auto simp: sound_def dialling_def later_def)
qed

lemma chain_taken:
  assumes "sound s" "q \<in> set (armed s)" "in_chain q"
  shows "chain_of (taken q s) (gen_of q) = []"
proof -
  have "q \<in> set (chain_of s (gen_of q))" using assms by (simp add: chain_of_def)
  then have "length (chain_of s (gen_of q)) = 1"
    using assms by (metis sound_def One_nat_def le_antisym length_pos_if_in_set Suc_leI)
  then have "chain_of s (gen_of q) = [q]"
    using \<open>q \<in> set (chain_of s (gen_of q))\<close> by (auto simp: length_Suc_conv)
  then show ?thesis by (simp add: chain_of_def filter_remove1)
qed

lemma not_dialling_chain: "chain_of s (generation s) = [] \<Longrightarrow> \<not> dialling s"
  by (auto simp: dialling_def chain_of_def filter_empty_conv)

lemma not_dialling_taken:
  assumes "sound s" "q \<in> set (armed s)" "gen_of q = generation s" "\<not> is_pre q"
  shows "\<not> dialling (taken q s)"
proof (cases "in_chain q")
  case True
  then show ?thesis using chain_taken [OF assms(1,2)] assms(3) by (simp add: not_dialling_chain)
next
  case False
  then have "later s" using assms by (cases q) (auto simp: later_def)
  then have "\<not> dialling s" using assms by (simp add: sound_def)
  then show ?thesis by (auto simp: dialling_def dest: notin_set_remove1)
qed

lemma pre_taken:
  assumes "sound s" "q \<in> set (armed s)" "gen_of q = generation s" "is_pre q"
  shows "\<not> dialling (taken q s)" "\<not> later (taken q s)" "chain_of (taken q s) (generation s) = []"
    "hasStream (taken q s)"
proof -
  have "in_chain q" using assms(4) by simp
  then show c: "chain_of (taken q s) (generation s) = []" using chain_taken [OF assms(1,2)] assms(3) by simp
  then show "\<not> dialling (taken q s)" by (simp add: not_dialling_chain)
  have "dialling s" using assms by (auto simp: dialling_def)
  then show "hasStream (taken q s)" using assms by (simp add: sound_def)
  have "\<not> later s" using \<open>dialling s\<close> assms(1) by (simp add: sound_def)
  then show "\<not> later (taken q s)" by (auto simp: later_def dest: notin_set_remove1)
qed

lemma sound_arm_chain:
  assumes "sound s" "chain_of s (generation s) = []" "in_chain q" "gen_of q = generation s"
    "is_pre q \<Longrightarrow> \<not> later s \<and> hasStream s"
  shows "sound (s\<lparr>armed := armed s @ [q]\<rparr>)"
  using assms by (cases q) (auto simp: sound_defs)

lemma chain_of_keeps [simp]:
  "chain_of (pump io s) g = chain_of s g" "chain_of (flushTopics L io s) g = chain_of s g"
  "chain_of (sendLogin L io s) g = chain_of s g" "chain_of (handleError gen s) g = chain_of s g"
proof -
  show p: "chain_of (pump io s) g = chain_of s g" for s
    using pump_cases [of io s] by (auto simp: chain_of_def)
  show "chain_of (flushTopics L io s) g = chain_of s g"
    by (simp add: flushTopics_pump p) (simp add: chain_of_def flushed_def)
  show "chain_of (sendLogin L io s) g = chain_of s g"
    by (simp add: sendLogin_def p) (simp add: chain_of_def)
  show "chain_of (handleError gen s) g = chain_of s g"
    by (simp add: handleError_def Let_def chain_of_def)
qed

lemma generation_keeps [simp]:
  "generation (flushTopics L io s) = generation s" "generation (sendLogin L io s) = generation s"
  "generation (handleError gen s) = generation s"
  by (simp_all add: flushTopics_pump flushed_def sendLogin_def handleError_def Let_def)

lemma sound_onResolve:
  "sound s \<Longrightarrow> \<not> dialling s \<Longrightarrow> \<not> later s \<Longrightarrow> chain_of s (generation s) = [] \<Longrightarrow> hasStream s \<Longrightarrow>
   sound (onResolve (generation s) io s)"
  by (auto simp: onResolve_def intro!: sound_arm_chain)

lemma sound_onConnect:
  assumes "sound s" "\<not> dialling s" "\<not> later s" "chain_of s (generation s) = []" "hasStream s"
  shows "sound (onConnect (generation s) io s)"
proof -
  have "sound (s\<lparr>hostHeader := h, armed := armed s @ [TlsHandshake (generation s)]\<rparr>)" for h
    using sound_arm_chain [of "s\<lparr>hostHeader := h\<rparr>" "TlsHandshake (generation s)"] assms
    by (simp add: sound_defs)
  then show ?thesis using assms by (auto simp: onConnect_def)
qed

lemma sound_onSSLHandshake:
  assumes "sound s" "\<not> dialling s" "\<not> later s" "chain_of s (generation s) = []" "hasStream s"
  shows "sound (onSSLHandshake (generation s) io s)"
proof -
  have "sound (s\<lparr>armed := armed s @ [Handshake (generation s)], did := d\<rparr>)" for d
    using sound_arm_chain [of "s\<lparr>did := d\<rparr>" "Handshake (generation s)"] assms
    by (simp add: sound_defs)
  then show ?thesis using assms by (auto simp: onSSLHandshake_def)
qed

lemma sound_onHandshake:
  assumes "sound s" "\<not> dialling s" "\<not> later s" "chain_of s (generation s) = []" "hasStream s"
  shows "sound (onHandshake L (generation s) io s)"
proof -
  define up where "up = s\<lparr>connected := True, lastPongTime := steady io,
    armed := armed s @ [PingWait (generation s)]\<rparr>"
  have up: "sound up" "chain_of up (generation s) = []" "generation up = generation s"
    using assms by (auto simp: up_def sound_defs)
  have "sound (s'\<lparr>armed := armed s' @ [Read (generation s)]\<rparr>)"
    if "s' \<in> {sendLogin L io up, flushTopics L io up}" for s'
  proof -
    have "sound s'" "chain_of s' (generation s') = []" "generation s' = generation s" using that up by auto
    then show ?thesis using sound_arm_chain [of s' "Read (generation s)"] by simp
  qed
  then show ?thesis using assms by (auto simp: onHandshake_def Let_def simp flip: up_def)
qed

text \<open>What a control message can do to the session.\<close>

definition acked :: "session \<Rightarrow> session" where
  "acked s = s\<lparr>authenticated := True, authenticatedFlag := True, authDeadline := None, reconnectDelayS := 1\<rparr>"

lemma dispatch_cases:
  "(if p then Inr a else if q then Inr b else if r then rbind m (\<lambda>d. if d = k then Inr x else Inr y)
    else if u then Inr b else rbind m (\<lambda>d. Inr b)) = Inr s' \<Longrightarrow> s' \<in> {a, b, x, y}"
  by (auto split: if_splits)

lemma handleControlMsg_cases:
  assumes "handleControlMsg L gen io j s = Inr s'"
  obtains "s' = s\<lparr>lastPongTime := steady io\<rparr>" | "s' = s" | "s' = flushTopics L io (acked s)"
    | "s' = handleError gen s"
proof -
  have "s' \<in> {s\<lparr>lastPongTime := steady io\<rparr>, s, flushTopics L io (acked s), handleError gen s}"
    using assms unfolding handleControlMsg_def acked_def [symmetric]
    by (elim rbind_Inr_iff [THEN iffD1, elim_format] exE conjE) (rule dispatch_cases)
  then show thesis using that by blast
qed

lemma sound_handleControlMsg:
  assumes "sound s" "\<not> dialling s" "chain_of s (generation s) = []"
    "handleControlMsg L (generation s) io j s = Inr s'"
  shows "sound s' \<and> chain_of s' (generation s) = [] \<and> generation s' = generation s"
  using assms(4)
proof (cases rule: handleControlMsg_cases)
  case 3
  have "sound (acked s)" "chain_of (acked s) g = chain_of s g" "generation (acked s) = generation s" for g
    using assms(1) by (simp_all add: sound_defs acked_def)
  then show ?thesis using 3 assms(3) by (simp add: sound_flushTopics)
next
  case 4
  then show ?thesis using assms by (simp add: sound_handleError)
qed (use assms in \<open>simp_all add: sound_defs\<close>)

lemma sound_readOn:
  assumes "sound s" "chain_of s gen = []"
  shows "sound (readOn gen s)"
proof -
  have "sound (s\<lparr>reconnectDelayS := r\<rparr>)" "chain_of (s\<lparr>reconnectDelayS := r\<rparr>) g = chain_of s g" for r g
    using assms(1) by (simp_all add: sound_defs)
  then show ?thesis using assms sound_arm_chain [of s "Read gen"]
      sound_arm_chain [of "s\<lparr>reconnectDelayS := 1\<rparr>" "Read gen"]
    by (auto simp: readOn_def)
qed

lemma sound_onRead:
  assumes "sound s" "\<not> dialling s" "chain_of s (generation s) = []"
  shows "sound (onRead L (generation s) io s)"
proof -
  have d: "sound (deliver L j s)" "chain_of (deliver L j s) g = chain_of s g" for j g
    using assms(1) by (auto simp: deliver_def sound_defs split: sum.splits)
  have e: "sound (handleError (generation s) s)" using assms by auto
  show ?thesis
  proof (cases "parse (wl_json L) (frame io)")
    case (Inr j)
    then show ?thesis
      using e sound_readOn [OF assms(1,3)] sound_readOn [of "deliver L j s"] d assms sound_handleControlMsg [OF assms]
      by (auto simp: onRead_def intro!: sound_readOn split: sum.splits if_splits)
  qed (use e in \<open>simp add: onRead_def\<close>)
qed

lemma sound_onWrite:
  assumes "sound s" "\<not> dialling s" "Write gen \<notin> set (armed s)"
  shows "sound (onWrite gen io s)"
proof (cases "gen = generation s")
  case True
  have "sound (s\<lparr>writeInFlight := False\<rparr>)" "dialling (s\<lparr>writeInFlight := False\<rparr>) = dialling s"
    using assms True by (simp_all add: sound_defs)
  then show ?thesis using assms True by (auto simp: onWrite_def Let_def)
qed (use assms in \<open>simp add: onWrite_def\<close>)

lemma sound_arm_ping:
  assumes "sound s" "\<not> dialling s" shows "sound (s\<lparr>armed := armed s @ [PingWait (generation s)]\<rparr>)"
  using assms by (auto simp: sound_defs)

lemma dialling_pump [simp]: "dialling (pump io s) = dialling s"
  using pump_cases [of io s] by (auto simp: dialling_def)

lemma sound_onPingTimer:
  assumes "sound s" "\<not> dialling s"
  shows "sound (onPingTimer L (generation s) io s)"
proof -
  define sent where "sent = pump io (s\<lparr>outboundQueue := outboundQueue s @ [pingFrame L]\<rparr>)"
  have "sound (s\<lparr>outboundQueue := q\<rparr>)" "dialling (s\<lparr>outboundQueue := q\<rparr>) = dialling s" for q
    using assms(1) by (simp_all add: sound_defs)
  then have "sound sent" "\<not> dialling sent" "generation sent = generation s"
    unfolding sent_def using assms(2) by (simp_all add: sound_pump)
  then have "sound (sent\<lparr>armed := armed sent @ [PingWait (generation s)]\<rparr>)" using sound_arm_ping [of sent] by simp
  moreover have "sound (handleError (generation s) s)" using assms by auto
  ultimately show ?thesis using assms sound_arm_ping [of s] unfolding sent_def
    by (simp add: onPingTimer_def)
qed

lemma sound_onReconnectTimer: "sound s \<Longrightarrow> sound (onReconnectTimer gen io s)"
proof -
  assume "sound s"
  then have "sound (s\<lparr>reconnectScheduled := False\<rparr>)" by (simp add: sound_defs)
  then show ?thesis using \<open>sound s\<close> by (auto simp: onReconnectTimer_def Let_def)
qed

lemma only_one: "length (filter (\<lambda>x. x = q) xs) \<le> 1 \<Longrightarrow> q \<notin> set (remove1 q xs)"
  by (induction xs) (auto simp: filter_empty_conv)

lemma sound_complete:
  assumes "sound s" "q \<in> set (armed s)"
  shows "sound (complete L io q (taken q s))"
proof -
  note [simp] = current_def
  have t: "sound (taken q s)" using assms by (simp add: sound_taken)
  note n = not_dialling_taken [OF assms] and p = pre_taken [OF assms] and c = chain_taken [OF assms]
  show ?thesis
  proof (cases "gen_of q = generation s")
    case True
    show ?thesis
    proof (cases q)
      case (Resolve g)
      then show ?thesis using t p True sound_onResolve [of "taken q s" io] by simp
    next
      case (Connect g)
      then show ?thesis using t p True sound_onConnect [of "taken q s" io] by simp
    next
      case (TlsHandshake g)
      then show ?thesis using t p True sound_onSSLHandshake [of "taken q s" io] by simp
    next
      case (Handshake g)
      then show ?thesis using t p True sound_onHandshake [of "taken q s" L io] by simp
    next
      case (Read g)
      then show ?thesis using t n c True sound_onRead [of "taken q s" L io] by simp
    next
      case (Write g)
      have "length (filter (\<lambda>x. x = q) (armed s)) \<le> 1" using assms Write by (simp add: sound_def writes_of_def)
      then have "q \<notin> set (remove1 q (armed s))" by (rule only_one)
      then show ?thesis using t n True Write sound_onWrite [of "taken q s" g io] by simp
    next
      case (PingWait g)
      then show ?thesis using t n True sound_onPingTimer [of "taken q s" L io] by simp
    next
      case (ReconnectWait g)
      then show ?thesis using t sound_onReconnectTimer by simp
    qed
  qed (cases q, use t in \<open>simp_all add: onWrite_def onPingTimer_def onReconnectTimer_def\<close>)
qed

lemma sound_takeBack [intro]: "sound s \<Longrightarrow> sound (takeBack L io t s)"
proof -
  assume s: "sound s"
  then show ?thesis by (auto simp: takeBack_def split: sum.splits)
qed

lemma sound_closeByUser [intro]: "sound s \<Longrightarrow> sound (closeByUser io s)"
  by (simp add: closeByUser_def Let_def)

lemma sound_do_job: "sound s \<Longrightarrow> sound (do_job L io j s)"
  by (cases j) auto

lemma sound_topics:
  "sound (addTopic t s) = sound s" "sound (snd (removeTopic t s)) = sound s"
  by (simp_all add: addTopic_def removeTopic_def Let_def split: option.splits)

lemma session_run_sound: "sound (session_run h p pt t cb s) = sound s"
  by (simp add: session_run_def Let_def sound_topics)

lemma sound_step:
  assumes "ws_step L s e s'" "sound s" shows "sound s'"
  using assms
proof (cases rule: ws_step.cases)
  case (subscribing t)
  then show ?thesis using assms(2) by (simp add: session_subscribe_def sound_topics)
next
  case (unsubscribing t)
  then show ?thesis using assms(2) sound_topics(2) [of t s]
    by (cases "removeTopic t s") (simp add: session_unsubscribe_def)
next
  case (running h p pt t cb)
  then show ?thesis using assms(2) by (simp add: session_run_sound)
next
  case (job j js io)
  then show ?thesis using assms(2) sound_do_job [of "s\<lparr>posted := js\<rparr>"] by simp
next
  case (completion q io)
  then show ?thesis using sound_complete [OF assms(2)] by (simp add: taken_def)
qed (simp_all add: session_setCredentials_def session_close_def onPongFrame_def)

lemma sound_reach: "ws_reach L s \<Longrightarrow> sound s"
  by (induction rule: ws_reach.induct) (auto simp: sound_default intro: sound_step)

end
