(* ===== verification/Ws_Moves.thy ===== *)
theory Ws_Moves
  imports Ws_Runs
begin

section \<open>The handlers as sequences of moves\<close>

text \<open>
  The handlers of the session change its state in few ways. \<open>move\<close> lists them, each with the
  condition under which the code makes it, and \<open>handlers_move\<close> shows that every job and every
  completion is a sequence of moves. An invariant then needs one check per move. Calls of the
  public interface are not moves: they add and remove topics, which no handler does.
\<close>

fun inert :: "act \<Rightarrow> bool" where
  "inert (Dial g h p) = False"
| "inert (Wrote g p) = False"
| "inert (Backoff g d) = False"
| "inert a = True"

inductive move :: "ws_lib \<Rightarrow> session \<Rightarrow> session \<Rightarrow> bool" for L where
  teardown: "\<not> reconnectScheduled s \<Longrightarrow> \<not> userClosed s \<Longrightarrow> move L s (down s)"
| dial: "\<not> userClosed s \<Longrightarrow> move L s (startConnect s)"
| send: "connected s \<Longrightarrow> \<not> writeInFlight s \<Longrightarrow> outboundQueue s = p # q \<Longrightarrow>
    move L s (s\<lparr>writeBuffer := p, outboundQueue := q, writeInFlight := True,
       armed := armed s @ [Write (generation s)], did := did s @ [Wrote (generation s) p]\<rparr>)"
| flush: "connected s \<Longrightarrow> \<not> authRequired s \<or> authenticated s \<Longrightarrow> move L s (flushed L s)"
| queue: "move L s (s\<lparr>outboundQueue := outboundQueue s @ [p]\<rparr>)"
| ack: "move L s (acked s)"
| calm: "\<not> authRequired s \<or> authenticated s \<Longrightarrow> move L s (s\<lparr>reconnectDelayS := 1\<rparr>)"
| come_up: "\<not> userClosed s \<Longrightarrow> move L s (s\<lparr>connected := True, lastPongTime := t\<rparr>)"
| closed: "move L s (s\<lparr>userClosed := True\<rparr>)"
| timer: "move L s (s\<lparr>reconnectScheduled := False\<rparr>)"
| arms: "move L s (s\<lparr>armed := qs\<rparr>)"
| written: "move L s (s\<lparr>writeInFlight := False\<rparr>)"
| record_act: "inert a \<Longrightarrow> move L s (s\<lparr>did := did s @ [a]\<rparr>)"
| pong: "move L s (s\<lparr>lastPongTime := t\<rparr>)"
| deadline: "move L s (s\<lparr>authDeadline := d\<rparr>)"
| header: "move L s (s\<lparr>hostHeader := h\<rparr>)"

named_theorems moves \<open>operations as sequences of moves\<close>

lemma move_one [intro]: "move L s s' \<Longrightarrow> (move L)\<^sup>*\<^sup>* s s'"
  by blast

lemma move_then: "move L s t \<Longrightarrow> (move L)\<^sup>*\<^sup>* t u \<Longrightarrow> (move L)\<^sup>*\<^sup>* s u"
  by (rule converse_rtranclp_into_rtranclp)

lemma then_move: "(move L)\<^sup>*\<^sup>* s t \<Longrightarrow> move L t u \<Longrightarrow> (move L)\<^sup>*\<^sup>* s u"
  by (rule rtranclp.rtrancl_into_rtrancl)

lemma move_pump [moves]: "(move L)\<^sup>*\<^sup>* s (pump io s)"
  using pump_cases [of io s]
proof (elim disjE exE conjE)
  fix p q
  assume "\<not> writeInFlight s" "connected s" "outboundQueue s = p # q" and eq: "pump io s = s\<lparr>writeBuffer := p,
    outboundQueue := q, writeInFlight := True, armed := armed s @ [Write (generation s)],
    did := did s @ [Wrote (generation s) p]\<rparr>"
  then show ?thesis using move.send [of s p q L] unfolding eq by blast
qed simp

lemma move_queue_pump [moves]: "(move L)\<^sup>*\<^sup>* s (pump io (s\<lparr>outboundQueue := outboundQueue s @ [p]\<rparr>))"
  by (rule move_then [OF move.queue move_pump])

lemma move_flushTopics [moves]: "(move L)\<^sup>*\<^sup>* s (flushTopics L io s)"
  by (auto simp: flushTopics_pump intro: move_then [OF move.flush move_pump])

lemma move_sendLogin [moves]: "(move L)\<^sup>*\<^sup>* s (sendLogin L io s)"
  using move_then [OF move.deadline move_queue_pump, of L s]
  by (simp add: sendLogin_def loginFrame_def)

lemma move_handleError [moves]: "(move L)\<^sup>*\<^sup>* s (handleError gen s)"
  by (auto simp: handleError_down intro: move.teardown)

lemma move_startConnect [moves]: "(move L)\<^sup>*\<^sup>* s (startConnect s)"
proof (cases "userClosed s")
  case False
  then show ?thesis by (rule move_one [OF move.dial])
qed (simp add: startConnect_def)

lemma move_onReconnectTimer [moves]: "(move L)\<^sup>*\<^sup>* s (onReconnectTimer gen io s)"
  by (auto simp: onReconnectTimer_def Let_def intro: move.timer move_then [OF move.timer move_startConnect])

lemma move_arm [moves]: "(move L)\<^sup>*\<^sup>* s t \<Longrightarrow> (move L)\<^sup>*\<^sup>* s (t\<lparr>armed := qs\<rparr>)"
  by (rule then_move [OF _ move.arms])

lemma move_onResolve [moves]: "(move L)\<^sup>*\<^sup>* s (onResolve gen io s)"
  by (auto simp: onResolve_def intro: moves)

lemma move_onConnect [moves]: "(move L)\<^sup>*\<^sup>* s (onConnect gen io s)"
  using move_then [OF move.header move_one [OF move.arms], of L s]
  by (auto simp: onConnect_def intro: moves)

lemma move_onSSLHandshake [moves]: "(move L)\<^sup>*\<^sup>* s (onSSLHandshake gen io s)"
  using move_then [OF move.arms move_one [OF move.record_act], of "Upgrade gen (hostHeader s) (path s)" L s "armed s @ [Handshake gen]"]
  by (auto simp: onSSLHandshake_def intro: moves)

lemma move_onHandshake [moves]: "(move L)\<^sup>*\<^sup>* s (onHandshake L gen io s)"
proof (cases "failed io \<or> userClosed s")
  case False
  define up where "up = s\<lparr>connected := True, lastPongTime := steady io, armed := armed s @ [PingWait gen]\<rparr>"
  have up: "(move L)\<^sup>*\<^sup>* s up" unfolding up_def
    using move_then [OF move.come_up move_one [OF move.arms]] False by simp
  have "(move L)\<^sup>*\<^sup>* s (s'\<lparr>armed := qs\<rparr>)" if "s' \<in> {sendLogin L io up, flushTopics L io up}" for s' qs
    using that up by (auto intro: move_arm rtranclp_trans moves)
  then show ?thesis using False by (simp add: onHandshake_def Let_def up_def)
qed (auto simp: onHandshake_def intro: moves)

lemma move_handleControlMsg:
  assumes "handleControlMsg L gen io j s = Inr s'" shows "(move L)\<^sup>*\<^sup>* s s'"
  using assms
proof (cases rule: handleControlMsg_cases)
  case 1
  then show ?thesis using move.pong by blast
next
  case 3
  then show ?thesis using move_then [OF move.ack move_flushTopics] by simp
qed (simp_all add: moves)

lemma move_deliver [moves]: "(move L)\<^sup>*\<^sup>* s (deliver L j s)"
  by (auto simp: deliver_def intro!: move_one [OF move.record_act] split: sum.splits)

lemma move_readOn [moves]: "(move L)\<^sup>*\<^sup>* s (readOn gen s)"
proof (cases "gen \<noteq> generation s \<or> reconnectScheduled s \<or> \<not> connected s")
  case False
  then show ?thesis using move_then [OF move.calm move_one [OF move.arms], of s L] move.arms [of L s]
    by (auto simp: readOn_def)
qed (auto simp: readOn_def)

lemma move_onRead [moves]: "(move L)\<^sup>*\<^sup>* s (onRead L gen io s)"
  by (auto simp: onRead_def intro: moves rtranclp_trans [OF move_handleControlMsg move_readOn]
      rtranclp_trans [OF move_deliver move_readOn] split: sum.splits if_splits)

lemma move_onPingTimer [moves]: "(move L)\<^sup>*\<^sup>* s (onPingTimer L gen io s)"
  using move_arm [OF move_queue_pump] move_one [OF move.arms]
  by (simp add: onPingTimer_def moves)

lemma move_onWrite [moves]: "(move L)\<^sup>*\<^sup>* s (onWrite gen io s)"
  using move_then [OF move.written move_handleError, of L s gen] move_then [OF move.written move_pump, of L s io]
  by (auto simp: onWrite_def Let_def)

lemma move_closeByUser [moves]: "(move L)\<^sup>*\<^sup>* s (closeByUser io s)"
  using move_then [OF move.closed move_one [OF move.record_act], of _ L s] move.closed [of L s]
  by (auto simp: closeByUser_def Let_def)

lemma move_takeBack [moves]: "(move L)\<^sup>*\<^sup>* s (takeBack L io t s)"
  by (auto simp: takeBack_def moves intro!: move_one [OF move.record_act] split: sum.splits)

lemma move_do_job [moves]: "(move L)\<^sup>*\<^sup>* s (do_job L io j s)"
  by (cases j) (simp_all add: moves)

lemma move_complete [moves]: "(move L)\<^sup>*\<^sup>* s (complete L io q s)"
  by (cases q) (simp_all add: moves current_def)

lemma handlers_move:
  assumes "ws_step L s e s'"
  shows "e = RunJob io \<Longrightarrow> \<exists>j js. posted s = j # js \<and> (move L)\<^sup>*\<^sup>* (s\<lparr>posted := js\<rparr>) s'"
    "e = Done q io \<Longrightarrow> (move L)\<^sup>*\<^sup>* s s'"
proof -
  assume "e = RunJob io"
  then show "\<exists>j js. posted s = j # js \<and> (move L)\<^sup>*\<^sup>* (s\<lparr>posted := js\<rparr>) s'"
    using assms by (auto elim: ws_step.cases simp: move_do_job)
next
  assume "e = Done q io"
  then show "(move L)\<^sup>*\<^sup>* s s'"
    using assms by (auto elim!: ws_step.cases intro: move_then [OF move.arms move_complete])
qed

lemma session_unsubscribe_if: "session_unsubscribe t s =
    (if fst (removeTopic t s) then post (TakeBack t) (snd (removeTopic t s)) else snd (removeTopic t s))"
  by (simp add: session_unsubscribe_def case_prod_beta Let_def)

lemmas calls = session_setCredentials_def session_subscribe_def session_unsubscribe_if session_run_def session_close_def Let_def

text \<open>Induction over the steps: the calls one by one, everything else move by move.\<close>

lemma moves_keep: "(move L)\<^sup>*\<^sup>* s s' \<Longrightarrow> (\<And>s s'. move L s s' \<Longrightarrow> P s \<Longrightarrow> P s') \<Longrightarrow> P s \<Longrightarrow> P s'"
  by (induction rule: rtranclp_induct) auto

lemma step_keeps:
  assumes st: "ws_step L s e s'" and P: "P s"
    and mv: "\<And>s s'. move L s s' \<Longrightarrow> P s \<Longrightarrow> P s'"
    and job: "\<And>j js. posted s = j # js \<Longrightarrow> P (s\<lparr>posted := js\<rparr>)"
    and calls: "\<And>k c. e = SetCredentials k c \<Longrightarrow> P (session_setCredentials k c s)"
      "\<And>t. e = Subscribe t \<Longrightarrow> P (session_subscribe t s)"
      "\<And>t. e = Unsubscribe t \<Longrightarrow> P (session_unsubscribe t s)"
      "\<And>h p pt t cb. e = Run h p pt t cb \<Longrightarrow> P (session_run h p pt t cb s)"
      "e = CloseCall \<Longrightarrow> P (session_close s)"
  shows "P s'"
proof (cases e)
  case (RunJob io)
  then show ?thesis using handlers_move(1) [OF st] job moves_keep mv by metis
next
  case (Done q io)
  then show ?thesis using handlers_move(2) [OF st] moves_keep mv P by metis
next
  case (PongFrame io)
  then show ?thesis using st mv [OF move.pong P] by (simp add: onPongFrame_def)
qed (use st calls in auto)

end
