(* ===== verification/Ws_Safety.thy ===== *)
theory Ws_Safety
  imports Ws_Moves
begin

section \<open>Reconnect delays, the close and the topics\<close>

text \<open>
  Three properties of all runs of the session, each an invariant checked move by move.
  \<^item> The delays between reconnects double from one second to thirty and start again at one.
  \<^item> After the user closed the session it never dials or schedules a reconnect again.
  \<^item> The topic store holds what the callers asked for, through every error and reconnect: the
    session implements the contract \<open>topic_store\<close>, which is interpreted here on its operations.
\<close>

subsection \<open>A concrete environment for the witnesses\<close>

definition fine :: reading where
  "fine = \<lparr>failed = False, steady = 0, steadyLogin = 0, wallMs = 0, isOpen = True, sniSet = True,
     peerPort = 443, frame = ''''\<rparr>"

definition broken :: reading where
  "broken = fine\<lparr>failed := True\<rparr>"

text \<open>It prints a request as its method and parses two messages: a login ack, and data.\<close>

definition demo_dump :: "json \<Rightarrow> string" where
  "demo_dump j = (case jfind j ''method'' of Some (JStr m) \<Rightarrow> m | _ \<Rightarrow> ''?'')"

definition demo_parse :: "string \<Rightarrow> json result" where
  "demo_parse s = (if s = ''ack'' then Inr (JObj [(''channel'', JStr ''rs.login''), (''data'', JStr ''success'')])
     else if s = ''data'' then Inr (JObj [(''channel'', JStr ''push.ticker'')]) else type_error)"

definition demo_lib :: ws_lib where
  "demo_lib = \<lparr>wl_json = std_jlib\<lparr>dump := demo_dump, parse := demo_parse\<rparr>, wl_hmac = (\<lambda>k p. ''sig'')\<rparr>"

definition demo_topic :: "string \<Rightarrow> json" where
  "demo_topic ch = JObj [(''method'', JStr (''sub.'' @ ch))]"

text \<open>Connect generation \<open>g\<close>, all going well.\<close>

definition come_up_events :: "int \<Rightarrow> event list" where
  "come_up_events g = [Done (Resolve g) fine, Done (Connect g) fine, Done (TlsHandshake g) fine, Done (Handshake g) fine]"

definition start_events :: "json \<Rightarrow> event list" where
  "start_events t = [Run ''h'' ''443'' ''/edge'' t True, RunJob fine] @ come_up_events 1"

lemmas session_ops =
  session_setCredentials_def session_subscribe_def session_unsubscribe_def session_run_def session_close_def
  session_isAuthenticated_def addTopic_def removeTopic_def isSubscribed_def flushTopics_pump flushed_def pump_def
  handleError_down down_def RECONNECT_DELAY_MAX_IN_S_def startConnect_def onReconnectTimer_def onResolve_def
  onConnect_def onSSLHandshake_def onHandshake_def sendLogin_def loginFrame_def isControlMsg_def
  handleControlMsg_def deliver_def readOn_def onRead_def onPingTimer_def onWrite_def closeByUser_def
  takeBack_def current_def whole_secs_def secs_def PONG_TIMEOUT_IN_S_def AUTH_ACK_TIMEOUT_IN_S_def pingFrame_def

lemmas demo = session_ops session_default_def fine_def broken_def demo_lib_def demo_dump_def demo_parse_def
  demo_topic_def come_up_events_def start_events_def std_jlib_simps toUnsubscribe_def starts_with_def
  sameRequest_exact Event_fromJson_def Event_default_def field_def fresh_def

lemma demo_up: "\<exists>s. ws_run demo_lib (start_events (demo_topic ''a'')) session_default = Some s \<and>
    Write (generation s) \<in> set (armed s) \<and> connected s \<and> writes_of s 1 = [Write 1] \<and> chain_of s 1 = [Read 1]"
  by (simp add: demo Let_def writes_of_def chain_of_def int_str_def)

subsection \<open>One write, one read\<close>

text \<open>
  C15. Whatever the callers, the network and the timers do, a stream never has two writes
  outstanding, nor two operations of the chain that connects it and then reads it; a write in
  flight belongs to a connection that is up.
\<close>

theorem one_write_one_read:
  "ws_reach L s \<Longrightarrow> length (writes_of s g) \<le> 1 \<and> length (chain_of s g) \<le> 1 \<and>
     (Write (generation s) \<in> set (armed s) \<and> connected s \<longrightarrow> writeInFlight s) \<and>
     (writeInFlight s \<longrightarrow> connected s \<and> hasStream s)"
  using sound_reach [of L s] by (auto simp: sound_def)

theorem one_write_one_read_witness:
  "\<exists>s. ws_run demo_lib (start_events (demo_topic ''a'')) session_default = Some s \<and> writes_of s 1 = [Write 1] \<and>
     length (writes_of s 1) \<le> 1 \<and> writeInFlight s"
proof -
  obtain s where s: "ws_run demo_lib (start_events (demo_topic ''a'')) session_default = Some s"
    "Write (generation s) \<in> set (armed s)" "connected s" "writes_of s 1 = [Write 1]"
    using demo_up by blast
  from one_write_one_read [OF ws_run_reach [OF ws_reach.fresh s(1)], of 1] s show ?thesis by auto
qed

subsection \<open>The delays between reconnects\<close>

fun delay_of :: "act \<Rightarrow> int list" where
  "delay_of (Backoff g d) = [d]"
| "delay_of a = []"

definition backoffs :: "session \<Rightarrow> int list" where
  "backoffs s = concat (map delay_of (did s))"

definition next_delay :: "int \<Rightarrow> int \<Rightarrow> bool" where
  "next_delay d d' \<longleftrightarrow> d' = 1 \<or> d' = min (2 * d) 30"

text \<open>The delay kept for the next error is one that may follow the last one.\<close>

definition spaced :: "session \<Rightarrow> bool" where
  "spaced s \<longleftrightarrow> successively next_delay (backoffs s @ [reconnectDelayS s]) \<and>
     hd (backoffs s @ [reconnectDelayS s]) = 1 \<and> (\<forall>d \<in> set (backoffs s @ [reconnectDelayS s]). 1 \<le> d \<and> d \<le> 30)"

lemma delay_of_inert: "inert a \<Longrightarrow> delay_of a = []"
  by (cases a) auto

lemma backoffs_moves [simp]:
  "backoffs (startConnect s) = backoffs s" "backoffs (down s) = backoffs s @ [reconnectDelayS s]"
  by (simp_all add: backoffs_def startConnect_def down_def Let_def)

lemma spaced_reset:
  assumes "spaced s" shows "successively next_delay (backoffs s @ [1])" "hd (backoffs s @ [1]) = 1"
  using assms by (auto simp: spaced_def successively_append_iff next_delay_def hd_append split: if_splits)

lemma spaced_move: "move L s s' \<Longrightarrow> spaced s \<Longrightarrow> spaced s'"
proof (induction rule: move.induct)
  case (teardown s)
  then have "next_delay (reconnectDelayS s) (min (reconnectDelayS s * 2) 30)" by (simp add: next_delay_def mult.commute)
  moreover have "reconnectDelayS (down s) = min (reconnectDelayS s * 2) 30"
    by (simp add: down_def RECONNECT_DELAY_MAX_IN_S_def)
  ultimately show ?case using teardown
    by (auto simp: spaced_def successively_append_iff hd_append split: if_splits)
next
  case (dial s)
  then show ?case by (simp add: spaced_def startConnect_def backoffs_def Let_def)
next
  case (ack s)
  then show ?case using spaced_reset [OF ack] by (simp add: spaced_def acked_def backoffs_def)
next
  case (calm s)
  then show ?case using spaced_reset [of s] by (simp add: spaced_def backoffs_def)
next
  case (record_act a s)
  then show ?case by (simp add: spaced_def backoffs_def delay_of_inert)
qed (simp_all add: spaced_def backoffs_def flushed_def)

lemma spaced_topics [simp]: "spaced (addTopic t s) = spaced s" "spaced (snd (removeTopic t s)) = spaced s"
  by (simp_all add: spaced_def backoffs_def addTopic_def removeTopic_def Let_def split: option.splits)

lemma spaced_other [simp]:
  "spaced (s\<lparr>posted := js\<rparr>) = spaced s" "spaced (s\<lparr>host := a, port := b, path := c, hasDataCB := d\<rparr>) = spaced s"
  "spaced (s\<lparr>apiKey := k, apiSecret := c, authRequired := r\<rparr>) = spaced s"
  by (simp_all add: spaced_def backoffs_def)

lemma spaced_step: "ws_step L s e s' \<Longrightarrow> spaced s \<Longrightarrow> spaced s'"
  by (erule step_keeps [where P = spaced])
    (auto simp: calls intro: spaced_move)

text \<open>
  C28. The delays between reconnects: the first is one second, each next one is twice the last up to
  thirty seconds, or one second again after the session was heard of.
\<close>

theorem reconnects_back_off:
  assumes "ws_reach L s"
  shows "successively next_delay (backoffs s) \<and> (backoffs s \<noteq> [] \<longrightarrow> hd (backoffs s) = 1) \<and>
    (\<forall>d \<in> set (backoffs s). 1 \<le> d \<and> d \<le> 30)"
proof -
  have "spaced s" using assms
  proof (induction rule: ws_reach.induct)
    case fresh
    then show ?case by (simp add: spaced_def backoffs_def session_default_def)
  qed (rule spaced_step)
  then show ?thesis by (auto simp: spaced_def successively_append_iff hd_append split: if_splits)
qed

text \<open>Two connections in a row that fail to resolve, then one that comes up and breaks.\<close>

definition failing_events :: "event list" where
  "failing_events = [Run ''h'' ''443'' ''/edge'' JNull True, RunJob fine, Done (Resolve 1) broken,
     Done (ReconnectWait 1) fine, Done (Resolve 2) broken, Done (ReconnectWait 2) fine] @ come_up_events 3 @
     [Done (Read 3) (fine\<lparr>frame := ''data''\<rparr>), Done (Read 3) broken]"

theorem reconnects_back_off_witness:
  "\<exists>s. ws_run demo_lib failing_events session_default = Some s \<and> backoffs s = [1, 2, 1] \<and>
     successively next_delay [1, 2, 1]"
proof -
  have "\<exists>s. ws_run demo_lib failing_events session_default = Some s \<and> backoffs s = [1, 2, 1]"
    by (simp add: failing_events_def demo Let_def backoffs_def int_str_def)
  then obtain s where s: "ws_run demo_lib failing_events session_default = Some s" "backoffs s = [1, 2, 1]" by blast
  then show ?thesis using reconnects_back_off [OF ws_run_reach [OF ws_reach.fresh s(1)]] by auto
qed

subsection \<open>The close\<close>

fun restarts :: "act \<Rightarrow> bool" where
  "restarts (Dial g h p) = True"
| "restarts (Backoff g d) = True"
| "restarts a = False"

definition attempts :: "session \<Rightarrow> act list" where
  "attempts s = filter restarts (did s)"

lemma attempts_inert: "inert a \<Longrightarrow> \<not> restarts a"
  by (cases a) auto

lemma closed_move:
  "move L s s' \<Longrightarrow> userClosed s \<and> attempts s = as \<Longrightarrow> userClosed s' \<and> attempts s' = as"
  by (induction rule: move.induct) (auto simp: attempts_def attempts_inert flushed_def acked_def)

lemma closed_topics [simp]:
  "userClosed (addTopic t s) = userClosed s" "userClosed (snd (removeTopic t s)) = userClosed s"
  "attempts (addTopic t s) = attempts s" "attempts (snd (removeTopic t s)) = attempts s"
  by (simp_all add: attempts_def addTopic_def removeTopic_def Let_def split: option.splits)

lemma attempts_other [simp]:
  "attempts (s\<lparr>posted := js\<rparr>) = attempts s" "attempts (s\<lparr>host := a, port := b, path := c, hasDataCB := d\<rparr>) = attempts s"
  "attempts (s\<lparr>apiKey := k, apiSecret := c, authRequired := r\<rparr>) = attempts s"
  by (simp_all add: attempts_def)

lemma closed_step:
  "ws_step L s e s' \<Longrightarrow> userClosed s \<and> attempts s = as \<Longrightarrow> userClosed s' \<and> attempts s' = as"
  by (erule step_keeps [where P = "\<lambda>s. userClosed s \<and> attempts s = as"]) (auto simp: calls dest: closed_move)


text \<open>A close that falls into the wait for the reconnect, whose timer then fires all the same.\<close>

definition closing_events :: "event list" where
  "closing_events = [Run ''h'' ''443'' ''/edge'' JNull True, RunJob fine, Done (Resolve 1) broken, CloseCall, RunJob fine]"


subsection \<open>The topics\<close>

definition topics :: "session \<Rightarrow> json list" where
  "topics s = subscriptions s @ pendingTopics s"

definition store_ok :: "session \<Rightarrow> bool" where
  "store_ok s \<longleftrightarrow> distinct (topics s) \<and> (\<forall>t \<in> set (topics s). exact t)"

lemma list_ex_same: "\<forall>x \<in> set xs. exact x \<Longrightarrow> exact t \<Longrightarrow> list_ex (\<lambda>x. sameRequest x t) xs \<longleftrightarrow> t \<in> set xs"
  by (auto simp: list_ex_iff sameRequest_exact)

lemma erase_first_same:
  "distinct xs \<Longrightarrow> \<forall>x \<in> set xs. exact x \<Longrightarrow> exact t \<Longrightarrow>
   erase_first (\<lambda>x. sameRequest x t) xs = (if t \<in> set xs then Some (removeAll t xs) else None)"
  by (induction xs) (auto simp: sameRequest_exact)

lemma topics_addTopic:
  "store_ok s \<Longrightarrow> exact t \<Longrightarrow> topics (addTopic t s) = (if t \<in> set (topics s) then topics s else topics s @ [t])"
  by (auto simp: topics_def store_ok_def addTopic_def list_ex_same)

lemma topics_removeTopic:
  assumes "store_ok s" "exact t"
  shows "topics (snd (removeTopic t s)) = removeAll t (topics s)"
proof -
  have "filter (\<lambda>x. \<not> sameRequest x t) (pendingTopics s) = removeAll t (pendingTopics s)"
    using assms by (auto simp: store_ok_def topics_def sameRequest_exact removeAll_eq_filter intro!: filter_cong)
  then show ?thesis using assms
    by (auto simp: removeTopic_def topics_def store_ok_def Let_def erase_first_same)
qed

lemma isSubscribed_topics: "store_ok s \<Longrightarrow> exact t \<Longrightarrow> isSubscribed t s \<longleftrightarrow> t \<in> set (topics s)"
  by (auto simp: isSubscribed_def topics_def store_ok_def list_ex_same)

interpretation store: topic_store addTopic "\<lambda>t s. snd (removeTopic t s)" isSubscribed exact store_ok
proof
  fix t u :: json and s :: session
  assume t: "exact t" and s: "store_ok s"
  show 1: "store_ok (addTopic t s)" "store_ok (snd (removeTopic t s))"
    using s t by (auto simp: store_ok_def [of "addTopic t s"] store_ok_def [of "snd (removeTopic t s)"]
      topics_addTopic topics_removeTopic) (auto simp: store_ok_def distinct_removeAll)
  assume u: "exact u"
  show "isSubscribed u (addTopic t s) \<longleftrightarrow> u = t \<or> isSubscribed u s"
    "isSubscribed u (snd (removeTopic t s)) \<longleftrightarrow> u \<noteq> t \<and> isSubscribed u s"
    using 1 s t u by (auto simp: isSubscribed_topics topics_addTopic topics_removeTopic)
qed

text \<open>The handlers leave the topics alone; a call does to them what it says.\<close>

fun topic_requests :: "event \<Rightarrow> json request list" where
  "topic_requests (Subscribe t) = [Want t]"
| "topic_requests (Unsubscribe t) = [Drop t]"
| "topic_requests (Run h p pt t cb) = (if jempty t then [] else [Want t])"
| "topic_requests e = []"

lemma topics_move: "move L s s' \<Longrightarrow> topics s' = topics s"
  by (induction rule: move.induct) (simp_all add: topics_def down_def startConnect_def Let_def flushed_def acked_def)

lemma topics_other [simp]:
  "topics (s\<lparr>posted := js\<rparr>) = topics s" "topics (s\<lparr>host := a, port := b, path := c, hasDataCB := d\<rparr>) = topics s"
  "topics (s\<lparr>apiKey := k, apiSecret := c, authRequired := r\<rparr>) = topics s"
  by (simp_all add: topics_def)

lemma topics_serve:
  "store_ok s \<Longrightarrow> topics t = topics s \<Longrightarrow> (\<forall>r \<in> set rs. exact (topic_of r)) \<Longrightarrow>
   topics (store.serve rs t) = topics (store.serve rs s)"
proof (induction rs s arbitrary: t rule: store.serve.induct)
  case (2 u rs s)
  have t: "store_ok t" and u: "exact u" using "2.prems" by (simp_all add: store_ok_def)
  have "topics (addTopic u t) = topics (addTopic u s)"
    by (simp only: topics_addTopic [OF t u] topics_addTopic [OF "2.prems"(1) u] "2.prems"(2))
  moreover have "store_ok (addTopic u s)" by (rule store.inv_add [OF u "2.prems"(1)])
  ultimately show ?case using "2.IH" [of "addTopic u t"] "2.prems"(3) by simp
next
  case (3 u rs s)
  have t: "store_ok t" and u: "exact u" using "3.prems" by (simp_all add: store_ok_def)
  have "topics (snd (removeTopic u t)) = topics (snd (removeTopic u s))"
    by (simp only: topics_removeTopic [OF t u] topics_removeTopic [OF "3.prems"(1) u] "3.prems"(2))
  moreover have "store_ok (snd (removeTopic u s))" by (rule store.inv_remove [OF u "3.prems"(1)])
  ultimately show ?case using "3.IH" [of "snd (removeTopic u t)"] "3.prems"(3) by simp
qed simp

lemma topics_step:
  assumes "ws_step L s e s'" "store_ok s"
  shows "topics s' = topics (store.serve (topic_requests e) s)"
proof -
  have mv: "(move L)\<^sup>*\<^sup>* t s' \<Longrightarrow> topics t = topics s \<Longrightarrow> topics s' = topics s" for t
    by (erule moves_keep) (auto simp: topics_move)
  have r: "topics (addTopic t (s\<lparr>host := a, port := b, path := c, hasDataCB := d\<rparr>)) = topics (addTopic t s)" for t a b c d
    by (simp add: topics_def addTopic_def)
  show ?thesis
  proof (cases e)
    case (RunJob io)
    then show ?thesis using handlers_move(1) [OF assms(1)] mv by auto
  next
    case (Done q io)
    then show ?thesis using handlers_move(2) [OF assms(1)] mv by auto
  next
    case (PongFrame io)
    then show ?thesis using assms(1) by (simp add: onPongFrame_def topics_def)
  qed (use assms(1) r in \<open>auto simp: calls\<close>)
qed

lemma store_ok_serve: "store_ok s \<Longrightarrow> \<forall>r \<in> set rs. exact (topic_of r) \<Longrightarrow> store_ok (store.serve rs s)"
  by (induction rs s rule: store.serve.induct) (simp_all add: store.inv_add store.inv_remove)

lemma topics_run:
  assumes "ws_run L es s = Some s'" "store_ok s" "\<forall>r \<in> set (concat (map topic_requests es)). exact (topic_of r)"
  shows "topics s' = topics (store.serve (concat (map topic_requests es)) s)"
  using assms
proof (induction es arbitrary: s)
  case (Cons e es)
  then obtain t where t: "ws_step L s e t" "ws_run L es t = Some s'" by (auto simp: react_step split: option.splits)
  have ok: "\<forall>r \<in> set (topic_requests e). exact (topic_of r)" "\<forall>r \<in> set (concat (map topic_requests es)). exact (topic_of r)"
    using Cons.prems(3) by auto
  have tt: "topics t = topics (store.serve (topic_requests e) s)" using t Cons.prems by (simp add: topics_step)
  moreover have st: "store_ok (store.serve (topic_requests e) s)" using Cons.prems ok by (simp add: store_ok_serve)
  ultimately have "store_ok t" by (simp add: store_ok_def)
  then show ?case using Cons.IH [OF t(2) _ ok(2)] topics_serve [OF st tt ok(2)] by (simp add: store.serve_append)
qed simp

text \<open>
  C7. A request is reported as subscribed exactly when the last call about it asked for it, in
  every state the session can reach: errors, reconnects, flushes and closes neither lose nor
  invent a topic, and no topic is kept twice.
\<close>

theorem topics_as_requested:
  assumes "ws_run L es session_default = Some s"
    "\<forall>r \<in> set (concat (map topic_requests es)). exact (topic_of r)" "exact t"
  shows "(isSubscribed t s \<longleftrightarrow> t \<in> wanted_after (concat (map topic_requests es)) {}) \<and>
    distinct (subscriptions s @ pendingTopics s)"
proof -
  let ?rs = "concat (map topic_requests es)"
  have ok: "store_ok session_default" by (simp add: store_ok_def topics_def session_default_def)
  have "\<And>u. exact u \<Longrightarrow> isSubscribed u session_default \<longleftrightarrow> u \<in> {}"
    by (simp add: isSubscribed_def session_default_def)
  then have sv: "store_ok (store.serve ?rs session_default)"
    "isSubscribed t (store.serve ?rs session_default) \<longleftrightarrow> t \<in> wanted_after ?rs {}"
    using store.serve_ok [OF assms(2) ok, of "{}"] assms(3) by auto
  have tt: "topics s = topics (store.serve ?rs session_default)" using topics_run [OF assms(1) ok assms(2)] .
  then have "store_ok s" using sv(1) by (simp add: store_ok_def)
  then show ?thesis using sv tt assms(3) by (simp add: isSubscribed_topics) (simp add: store_ok_def topics_def)
qed

definition topic_events :: "event list" where
  "topic_events = start_events (demo_topic ''a'') @ [Subscribe (demo_topic ''b''), RunJob fine,
     Subscribe (demo_topic ''a''), Done (Read 1) broken, Unsubscribe (demo_topic ''b'')]"

theorem topics_as_requested_witness:
  "\<exists>s. ws_run demo_lib topic_events session_default = Some s \<and> isSubscribed (demo_topic ''a'') s \<and>
     \<not> isSubscribed (demo_topic ''b'') s"
proof -
  have "\<exists>s. ws_run demo_lib topic_events session_default = Some s"
    by (simp add: topic_events_def demo Let_def int_str_def)
  then obtain s where s: "ws_run demo_lib topic_events session_default = Some s" by blast
  have "\<forall>r \<in> set (concat (map topic_requests topic_events)). exact (topic_of r)"
    by (simp add: topic_events_def start_events_def come_up_events_def demo_topic_def)
  from topics_as_requested [OF s this, of "demo_topic ''a''"] topics_as_requested [OF s this, of "demo_topic ''b''"] s
  show ?thesis by (simp add: topic_events_def start_events_def come_up_events_def demo_topic_def)
qed

end
