(* ===== verification/Ws_Orderly.thy ===== *)
theory Ws_Orderly
  imports Ws_Safety
begin

section \<open>A session that is run once\<close>

text \<open>
  Runs in which the session is used as its header says: the credentials are set before \<open>run\<close>, which
  is called once, and the reconnect timer fails only when the close has cancelled it.
  \<^item> \<open>held\<close>: an armed reconnect timer and the flag \<open>reconnectScheduled\<close> go together, a session that is
    not connected has moved every topic back to the pending ones and its queue is empty, and
    without the login ack nothing counts as subscribed.
  \<^item> \<open>alive\<close>: unless the user closed it, the session is dialling, or reads its connection, or
    waits for the reconnect timer. It never stops trying.
\<close>

fun orderly :: "session \<Rightarrow> event \<Rightarrow> bool" where
  "orderly s (SetCredentials k c) = (generation s = 0 \<and> Start \<notin> set (posted s))"
| "orderly s (Run h p pt t cb) = (generation s = 0 \<and> Start \<notin> set (posted s))"
| "orderly s (Done (ReconnectWait g) io) = (failed io \<longrightarrow> userClosed s)"
| "orderly s e = True"

inductive ws_orderly :: "ws_lib \<Rightarrow> session \<Rightarrow> bool" for L where
  fresh: "ws_orderly L session_default"
| step: "ws_orderly L s \<Longrightarrow> orderly s e \<Longrightarrow> ws_step L s e s' \<Longrightarrow> ws_orderly L s'"

lemma ws_orderly_reach: "ws_orderly L s \<Longrightarrow> ws_reach L s"
  by (induction rule: ws_orderly.induct) (auto intro: ws_reach.intros)

fun orderly_run :: "ws_lib \<Rightarrow> event list \<Rightarrow> session \<Rightarrow> bool" where
  "orderly_run L [] s = True"
| "orderly_run L (e # es) s = (orderly s e \<and> (case react L e s of None \<Rightarrow> False | Some s' \<Rightarrow> orderly_run L es s'))"

lemma orderly_run_reach:
  "ws_orderly L s \<Longrightarrow> orderly_run L es s \<Longrightarrow> ws_run L es s = Some s' \<Longrightarrow> ws_orderly L s'"
  by (induction es arbitrary: s) (auto split: option.splits simp: react_step intro: ws_orderly.step)

subsection \<open>The run is started once\<close>

definition once :: "session \<Rightarrow> bool" where
  "once s \<longleftrightarrow> 0 \<le> generation s \<and> (generation s = 0 \<longrightarrow> armed s = [] \<and> \<not> connected s \<and> \<not> reconnectScheduled s) \<and>
     (Start \<in> set (posted s) \<longrightarrow> generation s = 0) \<and> Start \<notin> set (remove1 Start (posted s))"

subsection \<open>Topics are held back\<close>

definition waits :: "session \<Rightarrow> bool" where
  "waits s \<longleftrightarrow> ReconnectWait (generation s) \<in> set (armed s)"

definition one_wait :: "session \<Rightarrow> bool" where
  "one_wait s \<longleftrightarrow> ReconnectWait (generation s) \<notin> set (remove1 (ReconnectWait (generation s)) (armed s))"

definition held :: "session \<Rightarrow> bool" where
  "held s \<longleftrightarrow> (reconnectScheduled s \<longleftrightarrow> waits s) \<and> one_wait s \<and> (reconnectScheduled s \<longrightarrow> \<not> connected s) \<and>
     (\<not> connected s \<longrightarrow> subscriptions s = [] \<and> outboundQueue s = []) \<and>
     (authRequired s \<and> \<not> authenticated s \<longrightarrow> subscriptions s = [])"

lemmas held_defs = held_def waits_def one_wait_def

lemma remove1_snoc: "remove1 x (xs @ [y]) = (if x \<in> set xs then remove1 x xs @ [y] else if x = y then xs else xs @ [y])"
  by (simp add: remove1_append remove1_idem)

lemma held_pump [intro]: "held s \<Longrightarrow> held (pump io s)"
  using pump_cases [of io s]
proof (elim disjE exE conjE)
  fix p q
  assume "held s" "connected s" and eq: "pump io s = s\<lparr>writeBuffer := p,
    outboundQueue := q, writeInFlight := True, armed := armed s @ [Write (generation s)],
    did := did s @ [Wrote (generation s) p]\<rparr>"
  then show "held (pump io s)" unfolding eq by (auto simp: held_defs remove1_snoc remove1_idem)
qed simp

lemma held_handleError [intro]: "held s \<Longrightarrow> held (handleError gen s)"
  by (auto simp: handleError_down) (simp add: held_defs down_def remove1_snoc)

lemma held_flushTopics [intro]:
  assumes "held s" shows "held (flushTopics L io s)"
proof -
  have "held (flushed L s)" if "connected s" "\<not> (authRequired s \<and> \<not> authenticated s)"
    using assms that by (auto simp: held_defs flushed_def)
  then show ?thesis using assms by (auto simp: flushTopics_pump)
qed

lemma held_startConnect:
  assumes "held s" "sound s" "\<not> connected s" "\<not> reconnectScheduled s"
  shows "held (startConnect s)"
proof -
  have "ReconnectWait (generation s + 1) \<notin> set (armed s)" using assms(2) by (auto simp: sound_def)
  then show ?thesis using assms by (auto simp: startConnect_def Let_def held_defs remove1_snoc remove1_idem)
qed

lemma held_taken:
  assumes "held s" "q \<noteq> ReconnectWait (generation s)" shows "held (taken q s)"
proof -
  have "remove1 (ReconnectWait (generation s)) (remove1 q (armed s)) = remove1 q (remove1 (ReconnectWait (generation s)) (armed s))"
    by (rule remove1_commute)
  then have "one_wait (taken q s) = one_wait s" using assms(2) by (simp add: one_wait_def)
  moreover have "waits (taken q s) = waits s" using assms(2) by (simp add: waits_def)
  ultimately show ?thesis using assms(1) by (simp add: held_def taken_def)
qed

lemma held_other [simp]:
  "held (s\<lparr>did := a1\<rparr>) = held s" "held (s\<lparr>posted := a2\<rparr>) = held s" "held (s\<lparr>hostHeader := a3\<rparr>) = held s"
  "held (s\<lparr>lastPongTime := a4\<rparr>) = held s" "held (s\<lparr>authDeadline := a5\<rparr>) = held s"
  "held (s\<lparr>reconnectDelayS := a6\<rparr>) = held s" "held (s\<lparr>userClosed := a7\<rparr>) = held s" "held (s\<lparr>host := a8\<rparr>) = held s"
  "held (s\<lparr>port := a9\<rparr>) = held s" "held (s\<lparr>path := b1\<rparr>) = held s" "held (s\<lparr>hasDataCB := b2\<rparr>) = held s"
  "held (s\<lparr>writeInFlight := b3\<rparr>) = held s" "held (s\<lparr>pendingTopics := b4\<rparr>) = held s"
  by (simp_all add: held_defs)

lemma held_arm [simp]: "\<forall>g. q \<noteq> ReconnectWait g \<Longrightarrow> held (s\<lparr>armed := armed s @ [q]\<rparr>) = held s"
  by (auto simp: held_defs remove1_snoc remove1_idem)

lemma held_queue: "held s \<Longrightarrow> connected s \<Longrightarrow> held (s\<lparr>outboundQueue := q\<rparr>)"
  by (auto simp: held_defs)

lemma connected_keeps [simp]:
  "connected (flushTopics L io s) = connected s" "connected (sendLogin L io s) = connected s"
  "reconnectScheduled (flushTopics L io s) = reconnectScheduled s"
  "reconnectScheduled (sendLogin L io s) = reconnectScheduled s"
  by (simp_all add: flushTopics_pump flushed_def sendLogin_def)

lemma held_sendLogin: "held s \<Longrightarrow> connected s \<Longrightarrow> held (sendLogin L io s)"
  by (auto simp: sendLogin_def intro!: held_pump held_queue)

lemma held_onHandshake:
  assumes "held s" "\<not> reconnectScheduled s" shows "held (onHandshake L gen io s)"
proof -
  have c: "held (s\<lparr>connected := True, lastPongTime := t\<rparr>)" for t using assms by (auto simp: held_defs)
  define up where "up = s\<lparr>connected := True, lastPongTime := steady io, armed := armed s @ [PingWait gen]\<rparr>"
  have "held up" "connected up" using held_arm [of "PingWait gen" "s\<lparr>connected := True, lastPongTime := steady io\<rparr>"] c
    by (simp_all add: up_def)
  then have "held (s'\<lparr>armed := armed s' @ [Read gen]\<rparr>)" if "s' \<in> {sendLogin L io up, flushTopics L io up}" for s'
    using that by (auto simp: held_sendLogin)
  then show ?thesis using assms by (auto simp: onHandshake_def Let_def up_def)
qed

lemma held_handleControlMsg:
  assumes "handleControlMsg L gen io j s = Inr s'" "held s" shows "held s'"
  using assms(1)
proof (cases rule: handleControlMsg_cases)
  case 3
  have "held (acked s)" using assms(2) by (auto simp: held_defs acked_def)
  then show ?thesis using 3 by auto
qed (use assms(2) in auto)

lemma held_onRead:
  assumes "held s" shows "held (onRead L gen io s)"
proof -
  have r: "held t \<Longrightarrow> held (readOn gen t)" for t by (simp add: readOn_def)
  have d: "held (deliver L j s)" for j using assms by (simp add: deliver_def split: sum.split)
  have e: "held (handleError gen s)" using assms by auto
  show ?thesis
  proof (cases "parse (wl_json L) (frame io)")
    case (Inr j)
    have "handleControlMsg L gen io j s = Inr s' \<Longrightarrow> held (readOn gen s')" for s'
      using held_handleControlMsg assms r by blast
    then show ?thesis using Inr e r [OF d] r [OF assms] by (simp add: onRead_def split: sum.split)
  qed (use e in \<open>simp add: onRead_def\<close>)
qed

lemma held_onPingTimer: "held s \<Longrightarrow> held (onPingTimer L gen io s)"
  by (auto simp: onPingTimer_def intro!: held_pump held_queue)

lemma held_takeBack: "held s \<Longrightarrow> held (takeBack L io t s)"
  by (auto simp: takeBack_def intro!: held_pump held_queue split: sum.splits)

lemma held_onReconnectTimer:
  assumes "held s" "sound s" "waits s" "orderly s (Done (ReconnectWait (generation s)) io)"
  shows "held (onReconnectTimer (generation s) io (taken (ReconnectWait (generation s)) s))"
proof -
  let ?s = "(taken (ReconnectWait (generation s)) s)\<lparr>reconnectScheduled := False\<rparr>"
  have "held ?s" using assms by (auto simp: held_defs taken_def remove1_idem)
  moreover have "\<not> connected ?s" using assms by (simp add: held_def)
  moreover have "sound ?s" using assms by (simp add: sound_taken)
  ultimately show ?thesis using held_startConnect [of ?s] by (auto simp: onReconnectTimer_def Let_def)
qed

lemma held_dialling:
  assumes "held s" shows "held (onResolve gen io s)" "held (onConnect gen io s)" "held (onSSLHandshake gen io s)"
proof -
  have "held (s\<lparr>hostHeader := h, armed := armed s @ [TlsHandshake gen]\<rparr>)" for h
    using held_arm [of "TlsHandshake gen" "s\<lparr>hostHeader := h\<rparr>"] assms by simp
  then show "held (onResolve gen io s)" "held (onConnect gen io s)" "held (onSSLHandshake gen io s)"
    using assms by (auto simp: onResolve_def onConnect_def onSSLHandshake_def)
qed

lemma held_onWrite: "held s \<Longrightarrow> held (onWrite gen io s)"
  by (auto simp: onWrite_def Let_def)

lemma held_complete:
  assumes "sound s" "held s" "q \<in> set (armed s)" "orderly s (Done q io)"
  shows "held (complete L io q (taken q s))"
proof -
  have t: "q \<noteq> ReconnectWait (generation s) \<Longrightarrow> held (taken q s)" using assms by (simp add: held_taken)
  show ?thesis
  proof (cases q)
    case (Handshake g)
    have "\<not> reconnectScheduled s" if g: "g = generation s"
    proof -
      have "dialling s" unfolding dialling_def using assms(3) Handshake g by force
      then have "\<not> later s" using assms(1) by (simp add: sound_def)
      then show ?thesis using assms(2) by (auto simp: held_def waits_def later_def)
    qed
    then show ?thesis using t Handshake held_onHandshake [of "taken q s"] by (auto simp: current_def taken_def)
  next
    case (ReconnectWait g)
    then show ?thesis using assms t held_onReconnectTimer [of s io]
      by (cases "g = generation s") (auto simp: waits_def onReconnectTimer_def)
  qed (use t in \<open>auto simp: current_def held_dialling held_onWrite held_onRead held_onPingTimer\<close>)
qed

lemma held_topics: "held s \<Longrightarrow> held (addTopic t s)" "held s \<Longrightarrow> held (snd (removeTopic t s))"
  by (auto simp: addTopic_def removeTopic_def Let_def split: option.splits) (auto simp: held_defs)

subsection \<open>The session never stops trying\<close>

definition alive :: "session \<Rightarrow> bool" where
  "alive s \<longleftrightarrow> userClosed s \<or> generation s = 0 \<or> waits s \<or> dialling s \<or>
     (connected s \<and> Read (generation s) \<in> set (armed s))"

lemma waits_other [simp]:
  "waits (s\<lparr>reconnectScheduled := a\<rparr>) = waits s" "waits (s\<lparr>hostHeader := b\<rparr>) = waits s"
  "waits (s\<lparr>did := c\<rparr>) = waits s" "waits (s\<lparr>writeInFlight := d\<rparr>) = waits s"
  "waits (s\<lparr>outboundQueue := e\<rparr>) = waits s" "waits (s\<lparr>posted := f\<rparr>) = waits s" "waits (s\<lparr>userClosed := g\<rparr>) = waits s"
  by (simp_all add: waits_def)

lemma alive_handleError: "held s \<Longrightarrow> alive (handleError (generation s) s)"
  by (auto simp: handleError_down alive_def held_def) (simp_all add: waits_def down_def)

lemma alive_startConnect: "alive (startConnect s)"
  by (auto simp: startConnect_def Let_def alive_def dialling_def)

lemma alive_pump: "alive s \<Longrightarrow> alive (pump io s)"
  using pump_cases [of io s] by (auto simp: alive_def waits_def dialling_def)

lemma alive_other [simp]:
  "alive (s\<lparr>reconnectScheduled := a\<rparr>) = alive s" "alive (s\<lparr>hostHeader := b\<rparr>) = alive s"
  "alive (s\<lparr>did := c\<rparr>) = alive s" "alive (s\<lparr>writeInFlight := d\<rparr>) = alive s"
  "alive (s\<lparr>outboundQueue := e\<rparr>) = alive s" "alive (s\<lparr>posted := f\<rparr>) = alive s"
  by (simp_all add: alive_def dialling_def)

lemma alive_arm: "alive s \<Longrightarrow> alive (s\<lparr>armed := armed s @ [q]\<rparr>)"
  by (auto simp: alive_def waits_def dialling_def)

lemma alive_arm_pre: "is_pre q \<Longrightarrow> gen_of q = generation s \<Longrightarrow> alive (s\<lparr>armed := armed s @ [q]\<rparr>)"
  by (auto simp: alive_def dialling_def)

lemma alive_taken:
  assumes "alive s" "gen_of q \<noteq> generation s \<or> q = Write g \<or> q = PingWait g" shows "alive (taken q s)"
proof -
  have "x \<in> set (remove1 q (armed s))" if "x \<in> set (armed s)" "x \<noteq> q" for x using that by simp
  moreover have "x \<noteq> q" if "gen_of x = generation s" "is_pre x \<or> x = ReconnectWait (generation s) \<or> x = Read (generation s)" for x
    using assms(2) that by auto
  ultimately have "waits s \<Longrightarrow> waits (taken q s)" "dialling s \<Longrightarrow> dialling (taken q s)"
    "Read (generation s) \<in> set (armed s) \<Longrightarrow> Read (generation s) \<in> set (armed (taken q s))"
    by (force simp: waits_def dialling_def)+
  then show ?thesis using assms(1) by (auto simp: alive_def)
qed

lemma waits_pump [simp]: "waits (pump io s) = waits s"
  using pump_cases [of io s] by (auto simp: waits_def)

lemma waits_flushTopics [simp]:
  "waits (flushTopics L io s) = waits s" "userClosed (flushTopics L io s) = userClosed s"
proof -
  have "waits (flushed L s) = waits s" "userClosed (flushed L s) = userClosed s" by (simp_all add: waits_def flushed_def)
  then show "waits (flushTopics L io s) = waits s" "userClosed (flushTopics L io s) = userClosed s"
    by (simp_all add: flushTopics_pump)
qed

text \<open>A session that reads on: connected, or waiting for the timer, or done.\<close>

definition ready :: "session \<Rightarrow> bool" where
  "ready s \<longleftrightarrow> userClosed s \<or> generation s = 0 \<or> waits s \<or> connected s"

lemma alive_readOn:
  assumes "ready s" "held s" shows "alive (readOn (generation s) s)"
proof -
  have "waits s \<Longrightarrow> alive s" "userClosed s \<Longrightarrow> alive s" "generation s = 0 \<Longrightarrow> alive s" by (auto simp: alive_def)
  moreover have "alive (s\<lparr>armed := armed s @ [Read (generation s)]\<rparr>)"
    "alive (s\<lparr>reconnectDelayS := 1, armed := armed s @ [Read (generation s)]\<rparr>)" if "connected s"
    using that by (auto simp: alive_def)
  ultimately show ?thesis using assms by (auto simp: readOn_def ready_def held_def)
qed

lemma ready_alive: "alive s \<Longrightarrow> \<not> dialling s \<Longrightarrow> ready s"
  by (auto simp: alive_def ready_def)

lemma ready_handleControlMsg:
  assumes "handleControlMsg L (generation s) io j s = Inr s'" "held s" "ready s"
  shows "ready s'" "generation s' = generation s"
proof -
  have "ready s' \<and> generation s' = generation s" using assms(1)
  proof (cases rule: handleControlMsg_cases)
    case 3
    have "ready (acked s)" "generation (acked s) = generation s" using assms(3) by (simp_all add: ready_def acked_def waits_def)
    then show ?thesis using 3 by (simp add: ready_def)
  next
    case 4
    have "waits (down s)" by (simp add: waits_def down_def)
    then show ?thesis using 4 assms(2,3) by (auto simp: handleError_down ready_def down_def)
  qed (use assms(3) in \<open>simp_all add: ready_def waits_def\<close>)
  then show "ready s'" "generation s' = generation s" by blast+
qed

lemma alive_onRead:
  assumes "held s" "ready s" shows "alive (onRead L (generation s) io s)"
proof -
  have e: "alive (handleError (generation s) s)" using assms by (simp add: alive_handleError)
  have d: "held (deliver L j s)" "ready (deliver L j s)" "generation (deliver L j s) = generation s" for j
    using assms by (simp_all add: deliver_def ready_def split: sum.split)
  show ?thesis
  proof (cases "parse (wl_json L) (frame io)")
    case (Inr j)
    have "handleControlMsg L (generation s) io j s = Inr s' \<Longrightarrow> alive (readOn (generation s) s')" for s'
      using ready_handleControlMsg [OF _ assms] held_handleControlMsg [OF _ assms(1)] alive_readOn [of s'] by simp
    then show ?thesis using Inr e alive_readOn [of "deliver L j s"] d alive_readOn [OF assms(2,1)]
      by (simp add: onRead_def split: sum.split)
  qed (use e in \<open>simp add: onRead_def\<close>)
qed

lemma alive_flushTopics: "alive s \<Longrightarrow> alive (flushTopics L io s)"
proof -
  assume "alive s"
  then have "alive (flushed L s)" by (simp add: alive_def waits_def dialling_def flushed_def)
  then show ?thesis using \<open>alive s\<close> by (simp add: flushTopics_pump alive_pump)
qed

lemma alive_onHandshake:
  assumes "held s" shows "alive (onHandshake L (generation s) io s)"
proof (cases "failed io \<or> userClosed s")
  case True
  then show ?thesis using alive_handleError [OF assms] by (auto simp: onHandshake_def) (simp add: alive_def)
next
  case False
  define up where "up = s\<lparr>connected := True, lastPongTime := steady io, armed := armed s @ [PingWait (generation s)]\<rparr>"
  have "alive (s'\<lparr>armed := armed s' @ [Read (generation s)]\<rparr>)" if "connected s'" "generation s' = generation s" for s'
    using that by (simp add: alive_def)
  then have "alive (s'\<lparr>armed := armed s' @ [Read (generation s)]\<rparr>)" if "s' \<in> {sendLogin L io up, flushTopics L io up}" for s'
    using that by (auto simp: up_def)
  then show ?thesis using False by (simp add: onHandshake_def Let_def up_def)
qed

lemma alive_onPingTimer: "held s \<Longrightarrow> alive s \<Longrightarrow> alive (onPingTimer L (generation s) io s)"
  by (simp add: onPingTimer_def alive_handleError alive_arm alive_pump)

lemma alive_onWrite:
  assumes "held s" "alive s" shows "alive (onWrite (generation s) io s)"
  using alive_handleError [of "s\<lparr>writeInFlight := False\<rparr>"] assms
  by (simp add: onWrite_def Let_def alive_pump)

lemma alive_dialling:
  assumes "held s"
  shows "alive (onResolve (generation s) io s)" "alive (onConnect (generation s) io s)"
    "alive (onSSLHandshake (generation s) io s)"
proof -
  have "alive (s\<lparr>hostHeader := h, armed := armed s @ [TlsHandshake (generation s)]\<rparr>)" for h
    using alive_arm_pre [of "TlsHandshake (generation s)" "s\<lparr>hostHeader := h\<rparr>"] by simp
  then show "alive (onResolve (generation s) io s)" "alive (onConnect (generation s) io s)"
    "alive (onSSLHandshake (generation s) io s)"
    using alive_handleError [OF assms] by (simp_all add: onResolve_def onConnect_def onSSLHandshake_def alive_arm_pre)
qed

lemma alive_complete:
  assumes "sound s" "held s" "alive s" "q \<in> set (armed s)" "orderly s (Done q io)"
  shows "alive (complete L io q (taken q s))"
proof (cases "gen_of q = generation s")
  case False
  then have "alive (taken q s)" using assms(3) by (simp add: alive_taken)
  then show ?thesis using False
    by (cases q) (simp_all add: current_def onWrite_def onPingTimer_def onReconnectTimer_def)
next
  case True
  have t: "q \<noteq> ReconnectWait (generation s) \<Longrightarrow> held (taken q s)" using assms by (simp add: held_taken)
  show ?thesis
  proof (cases q)
    case (Read g)
    have "\<not> dialling s" using assms(1,4) Read True
      by (metis not_dialling_taken chain_taken not_dialling_chain gen_of.simps(5) in_chain.simps(1) is_pre.simps(5) taken_sel(1) dialling_def taken_sel(3) in_set_remove1)
    then have "ready (taken q s)" using ready_alive [OF assms(3)] Read by (auto simp: ready_def waits_def taken_def)
    then show ?thesis using t Read True alive_onRead [of "taken q s"] by (simp add: current_def)
  next
    case (Write g)
    then show ?thesis using t True alive_onWrite [of "taken q s"] alive_taken [OF assms(3), of q g] by simp
  next
    case (PingWait g)
    then show ?thesis using t True alive_onPingTimer [of "taken q s"] alive_taken [OF assms(3), of q g] by simp
  next
    case (ReconnectWait g)
    then show ?thesis using assms(5) True alive_startConnect
      by (auto simp: onReconnectTimer_def Let_def alive_def)
  qed (use t True alive_dialling [of "taken q s"] alive_onHandshake [of "taken q s"] in \<open>simp_all add: current_def\<close>)
qed

subsection \<open>All three together\<close>

lemma posted_move: "move L s s' \<Longrightarrow> posted s' = posted s \<and> generation s \<le> generation s' \<and> userClosed s \<le> userClosed s'"
  by (induction rule: move.induct) (simp_all add: down_def startConnect_def Let_def flushed_def acked_def)

lemma posted_moves: "(move L)\<^sup>*\<^sup>* s s' \<Longrightarrow> posted s' = posted s \<and> generation s \<le> generation s'"
  by (induction rule: rtranclp_induct) (auto dest: posted_move)

definition in_order :: "session \<Rightarrow> bool" where
  "in_order s \<longleftrightarrow> sound s \<and> held s \<and> alive s \<and> once s"

lemma in_order_default: "in_order session_default"
proof -
  have "held session_default" "alive session_default" "once session_default"
    by (simp_all add: held_defs alive_def once_def session_default_def)
  then show ?thesis by (simp add: in_order_def sound_default)
qed

lemma in_order_completion:
  assumes "in_order s" "q \<in> set (armed s)" "orderly s (Done q io)"
  shows "in_order (complete L io q (taken q s))"
proof -
  have g: "0 < generation s" using assms(1,2) by (auto simp: in_order_def once_def order_le_less)
  have "posted (complete L io q (taken q s)) = posted s \<and> generation s \<le> generation (complete L io q (taken q s))"
    using posted_moves [OF move_complete [of L "taken q s" io q]] by (simp add: taken_def)
  then have "once (complete L io q (taken q s))" using assms(1) g by (auto simp: in_order_def once_def)
  then show ?thesis using assms sound_complete held_complete alive_complete by (auto simp: in_order_def)
qed

lemma in_order_job:
  assumes "in_order s" "posted s = j # js"
  shows "in_order (do_job L io j (s\<lparr>posted := js\<rparr>))"
proof (cases j)
  case Start
  have z: "generation s = 0" "\<not> connected s" "\<not> reconnectScheduled s" "Start \<notin> set js" "armed s = []"
    using assms Start by (auto simp: in_order_def once_def)
  have h: "sound (s\<lparr>posted := js\<rparr>)" "held (s\<lparr>posted := js\<rparr>)" using assms(1) by (simp_all add: in_order_def)
  have "held (startConnect (s\<lparr>posted := js\<rparr>))" using held_startConnect [OF h(2,1)] z by simp
  moreover have "once (startConnect (s\<lparr>posted := js\<rparr>))"
    using z by (auto simp: once_def startConnect_def Let_def dest: notin_set_remove1)
  ultimately show ?thesis using Start h alive_startConnect by (auto simp: in_order_def)
next
  case Flush
  have "once (flushTopics L io (s\<lparr>posted := js\<rparr>))"
    using assms Flush posted_moves [OF move_flushTopics [of L "s\<lparr>posted := js\<rparr>" io]]
    by (auto simp: in_order_def once_def flushTopics_pump)
  then show ?thesis using assms Flush by (auto simp: in_order_def alive_flushTopics)
next
  case (TakeBack t)
  have "once (takeBack L io t (s\<lparr>posted := js\<rparr>))"
    using assms TakeBack posted_moves [OF move_takeBack [of L "s\<lparr>posted := js\<rparr>" io t]]
    by (auto simp: in_order_def once_def takeBack_def)
  moreover have "alive (takeBack L io t (s\<lparr>posted := js\<rparr>))"
    using assms by (auto simp: takeBack_def in_order_def intro!: alive_pump split: sum.splits)
  ultimately show ?thesis using assms TakeBack held_takeBack [of "s\<lparr>posted := js\<rparr>"] by (auto simp: in_order_def)
next
  case CloseUser
  have "held (closeByUser io (s\<lparr>posted := js\<rparr>))" "alive (closeByUser io (s\<lparr>posted := js\<rparr>))"
    "once (closeByUser io (s\<lparr>posted := js\<rparr>))"
    using assms CloseUser by (auto simp: closeByUser_def Let_def in_order_def alive_def once_def)
  then show ?thesis using assms CloseUser by (auto simp: in_order_def)
qed

lemma call_keeps:
  "alive (addTopic t s) = alive s" "alive (snd (removeTopic t s)) = alive s"
  "once (addTopic t s) = once s" "once (snd (removeTopic t s)) = once s"
  "alive (s\<lparr>host := a, port := b, path := c, hasDataCB := d\<rparr>) = alive s"
  "alive (s\<lparr>apiKey := k, apiSecret := x, authRequired := r\<rparr>) = alive s"
  by (simp_all add: alive_def once_def waits_def dialling_def addTopic_def removeTopic_def Let_def split: option.splits)

lemma in_order_post: "in_order s \<Longrightarrow> j \<noteq> Start \<or> generation s = 0 \<and> Start \<notin> set (posted s) \<Longrightarrow> in_order (post j s)"
  by (auto simp: in_order_def once_def remove1_snoc remove1_idem)

lemma in_order_step:
  assumes "in_order s" "orderly s e" "ws_step L s e s'" shows "in_order s'"
  using assms(3)
proof (cases rule: ws_step.cases)
  case (credentials k c)
  have "sound s'" "held s'" "once s'" using assms credentials
    by (auto simp: session_setCredentials_def in_order_def held_defs once_def)
  then show ?thesis using assms credentials by (simp add: in_order_def session_setCredentials_def call_keeps)
next
  case (subscribing t)
  have "in_order (addTopic t s)" using assms(1) by (simp add: in_order_def sound_topics held_topics call_keeps)
  then show ?thesis using subscribing in_order_post [of "addTopic t s" Flush] by (simp add: session_subscribe_def)
next
  case (unsubscribing t)
  have "in_order (snd (removeTopic t s))" using assms(1) by (simp add: in_order_def sound_topics held_topics call_keeps)
  then show ?thesis using unsubscribing in_order_post [of "snd (removeTopic t s)" "TakeBack t"] by (simp add: session_unsubscribe_if)
next
  case (running h p pt t cb)
  define r where "r = s\<lparr>host := h, port := p, path := pt, hasDataCB := cb\<rparr>"
  have "in_order r" using assms(1) by (simp add: r_def in_order_def call_keeps) (simp add: once_def)
  then have "in_order (addTopic t r)" by (simp add: in_order_def sound_topics held_topics call_keeps)
  moreover have "generation (addTopic t r) = generation s" "posted (addTopic t r) = posted s" "generation r = generation s"
    "posted r = posted s" by (simp_all add: addTopic_def r_def)
  ultimately have "in_order (post Start (addTopic t r))" "in_order (post Start r)"
    using \<open>in_order r\<close> assms(2) running in_order_post [of "addTopic t r" Start] in_order_post [of r Start] by auto
  then show ?thesis using running unfolding session_run_def Let_def r_def by simp
next
  case closing
  then show ?thesis using in_order_post [OF assms(1), of CloseUser] by (simp add: session_close_def)
next
  case (job j js io)
  then show ?thesis using in_order_job [OF assms(1)] by simp
next
  case (completion q io)
  then show ?thesis using in_order_completion [OF assms(1)] assms(2) by (simp add: taken_def)
next
  case (pong_frame io)
  then show ?thesis using assms(1)
    by (simp add: onPongFrame_def in_order_def) (simp add: alive_def waits_def once_def)
qed

lemma in_order_orderly: "ws_orderly L s \<Longrightarrow> in_order s"
  by (induction rule: ws_orderly.induct) (auto simp: in_order_default intro: in_order_step)

text \<open>
  Only the close ends the session: as long as the user has not closed it, it waits for the
  timer of the reconnect that it scheduled, or for an operation that connects it, or it is
  connected and waits for the next message.
\<close>

theorem session_keeps_trying:
  assumes "ws_orderly L s" "0 < generation s" "\<not> userClosed s"
  shows "\<exists>q \<in> set (armed s). gen_of q = generation s \<and>
    (if reconnectScheduled s then q = ReconnectWait (generation s) else is_pre q \<or> connected s \<and> q = Read (generation s))"
proof -
  have "held s" "alive s" using in_order_orderly [OF assms(1)] by (simp_all add: in_order_def)
  then consider "waits s" "reconnectScheduled s" | "\<not> reconnectScheduled s" "dialling s"
    | "\<not> reconnectScheduled s" "connected s" "Read (generation s) \<in> set (armed s)"
    using assms by (auto simp: held_def alive_def)
  then show ?thesis
  proof cases
    case 1
    then show ?thesis by (intro bexI [of _ "ReconnectWait (generation s)"]) (simp_all add: waits_def)
  next
    case 2
    then obtain q where q: "q \<in> set (armed s)" "is_pre q" "gen_of q = generation s" by (auto simp: dialling_def)
    then show ?thesis by (intro bexI [OF _ q(1)]) (use 2 q in simp_all)
  next
    case 3
    then show ?thesis by (intro bexI [OF _ 3(3)]) simp
  qed
qed

theorem session_keeps_trying_witness:
  "\<exists>s. ws_run demo_lib failing_events session_default = Some s \<and>
     (\<exists>q \<in> set (armed s). gen_of q = 3 \<and> q = ReconnectWait 3)"
proof -
  have "\<exists>s. ws_run demo_lib failing_events session_default = Some s \<and> orderly_run demo_lib failing_events session_default
      \<and> generation s = 3 \<and> \<not> userClosed s \<and> reconnectScheduled s"
    by (simp add: failing_events_def demo Let_def int_str_def)
  then obtain s where s: "ws_run demo_lib failing_events session_default = Some s"
    "orderly_run demo_lib failing_events session_default" "generation s = 3" "\<not> userClosed s" "reconnectScheduled s" by blast
  have "ws_orderly demo_lib s" using orderly_run_reach [OF ws_orderly.fresh s(2,1)] .
  from session_keeps_trying [OF this] s show ?thesis by auto
qed

end
