(* ===== verification/Ws_Replay.thy ===== *)
theory Ws_Replay
  imports Ws_Orderly
begin

section \<open>What the session does about an outage\<close>

text \<open>
  Runs of the session in which the network behaves in a given way, computed for every state.
  \<^item> \<open>drain\<close>: when writes succeed the queue is sent in order, one frame after the other.
  \<^item> A connection that is lost and comes up again is sent every topic of the old one, in the order
    they were asked for, after the login where there is one.
  \<^item> A session that cannot connect tries again for ever, on the schedule 1, 2, 4, 8, 16, 30, 30, \<open>...\<close> seconds.
\<close>

definition good :: "reading \<Rightarrow> bool" where
  "good io \<longleftrightarrow> \<not> failed io \<and> isOpen io \<and> sniSet io"

definition replay_frames :: "ws_lib \<Rightarrow> session \<Rightarrow> string list" where
  "replay_frames L s = map (dump (wl_json L)) (topics s)"

text \<open>Sending the queue changes only these fields.\<close>

definition drained :: "session \<Rightarrow> session \<Rightarrow> bool" where
  "drained t t' \<longleftrightarrow> (\<exists>b qs. t' = t\<lparr>writeBuffer := b, outboundQueue := [], writeInFlight := False, armed := qs,
     did := did t @ map (Wrote (generation t)) (outboundQueue t)\<rparr>)"

lemma pump_sends:
  "connected t \<Longrightarrow> hasStream t \<Longrightarrow> \<not> writeInFlight t \<Longrightarrow> isOpen io \<Longrightarrow> outboundQueue t = p # ps \<Longrightarrow>
   pump io t = t\<lparr>writeBuffer := p, outboundQueue := ps, writeInFlight := True,
       armed := armed t @ [Write (generation t)], did := did t @ [Wrote (generation t) p]\<rparr>"
  by (simp add: pump_def)

lemma drain:
  assumes "connected t" "hasStream t" "writeInFlight t" "Write (generation t) \<in> set (armed t)" "good io"
  shows "\<exists>t'. ws_run L (replicate (Suc (length (outboundQueue t))) (Done (Write (generation t)) io)) t = Some t' \<and> drained t t'"
  using assms
proof (induction "outboundQueue t" arbitrary: t)
  case Nil
  then have "react L (Done (Write (generation t)) io) t =
      Some (t\<lparr>armed := remove1 (Write (generation t)) (armed t), writeInFlight := False\<rparr>)"
    by (simp add: onWrite_def Let_def good_def pump_def)
  moreover have "drained t (t\<lparr>armed := remove1 (Write (generation t)) (armed t), writeInFlight := False\<rparr>)"
    unfolding drained_def using Nil(1)
    by (intro exI [of _ "writeBuffer t"] exI [of _ "remove1 (Write (generation t)) (armed t)"]) (cases t; simp)
  ultimately show ?case using Nil by auto
next
  case (Cons p ps)
  define u where "u = t\<lparr>armed := remove1 (Write (generation t)) (armed t) @ [Write (generation t)],
    writeInFlight := True, writeBuffer := p, outboundQueue := ps, did := did t @ [Wrote (generation t) p]\<rparr>"
  have q: "outboundQueue t = p # ps" using Cons.hyps(2) by simp
  have r: "react L (Done (Write (generation t)) io) t = Some u"
    using Cons.prems q by (simp add: u_def onWrite_def Let_def good_def pump_def)
  have "\<exists>t'. ws_run L (replicate (Suc (length (outboundQueue u))) (Done (Write (generation u)) io)) u = Some t' \<and> drained u t'"
    by (rule Cons.hyps(1)) (use Cons.prems in \<open>simp_all add: u_def\<close>)
  then obtain t' where t': "ws_run L (replicate (Suc (length ps)) (Done (Write (generation t)) io)) u = Some t'" "drained u t'"
    by (auto simp: u_def)
  have "drained t t'" using t'(2) q by (force simp: drained_def u_def)
  then show ?case using r t'(1) q by (auto simp del: react.simps)
qed

definition outage :: "reading \<Rightarrow> reading \<Rightarrow> int \<Rightarrow> event list" where
  "outage bad io g = [Done (Read g) bad, Done (ReconnectWait g) io, Done (Resolve (g + 1)) io,
     Done (Connect (g + 1)) io, Done (TlsHandshake (g + 1)) io, Done (Handshake (g + 1)) io]"

text \<open>A session that has come up on a new stream, before it sends anything.\<close>

definition newborn :: "reading \<Rightarrow> session \<Rightarrow> session \<Rightarrow> bool" where
  "newborn io s u \<longleftrightarrow> connected u \<and> hasStream u \<and> \<not> writeInFlight u \<and> \<not> authenticated u \<and> \<not> reconnectScheduled u \<and>
     \<not> userClosed u \<and> generation u = generation s + 1 \<and> subscriptions u = [] \<and> pendingTopics u = topics s \<and>
     outboundQueue u = [] \<and> authRequired u = authRequired s \<and> apiKey u = apiKey s \<and> apiSecret u = apiSecret s \<and>
     did u = did s @ [SocketClosed (generation s), Backoff (generation s) (reconnectDelayS s),
       Dial (generation s + 1) (host s) (port s),
       Upgrade (generation s + 1) (host s @ '':'' @ int_str (peerPort io)) (path s)]"

lemma outage_up:
  assumes "connected s" "hasStream s" "\<not> reconnectScheduled s" "\<not> userClosed s"
    "Read (generation s) \<in> set (armed s)" "failed bad" "good io"
  shows "\<exists>u. newborn io s u \<and> ws_run L (outage bad io (generation s)) s =
    Some (arm (Read (generation u)) (if authRequired u then sendLogin L io u else flushTopics L io u))"
proof -
  define g where "g = generation s"
  define s1 where "s1 = down (taken (Read g) s)"
  have 1: "react L (Done (Read g) bad) s = Some s1"
    using assms by (simp add: s1_def g_def current_def onRead_def handleError_down taken_def)
  define s2 where "s2 = startConnect ((taken (ReconnectWait g) s1)\<lparr>reconnectScheduled := False\<rparr>)"
  have 2: "react L (Done (ReconnectWait g) io) s1 = Some s2"
    using assms by (simp add: s1_def s2_def g_def onReconnectTimer_def down_def taken_def good_def)
  have s2: "generation s2 = g + 1" "Resolve (g + 1) \<in> set (armed s2)" "hasStream s2" "\<not> userClosed s2" "\<not> reconnectScheduled s2"
    "subscriptions s2 = []" "pendingTopics s2 = topics s" "outboundQueue s2 = []" "\<not> writeInFlight s2" "\<not> authenticated s2"
    "authRequired s2 = authRequired s" "apiKey s2 = apiKey s" "apiSecret s2 = apiSecret s" "host s2 = host s" "path s2 = path s"
    "did s2 = did s @ [SocketClosed g, Backoff g (reconnectDelayS s), Dial (g + 1) (host s) (port s)]"
    using assms by (simp_all add: s2_def s1_def g_def startConnect_def down_def taken_def topics_def Let_def)
  define s3 where "s3 = arm (Connect (g + 1)) (taken (Resolve (g + 1)) s2)"
  define s4 where "s4 = arm (TlsHandshake (g + 1)) ((taken (Connect (g + 1)) s3)\<lparr>hostHeader := host s @ '':'' @ int_str (peerPort io)\<rparr>)"
  define s5 where "s5 = note_act (Upgrade (g + 1) (hostHeader s4) (path s4)) (arm (Handshake (g + 1)) (taken (TlsHandshake (g + 1)) s4))"
  define u where "u = arm (PingWait (g + 1)) ((taken (Handshake (g + 1)) s5)\<lparr>connected := True, lastPongTime := steady io\<rparr>)"
  have 3: "react L (Done (Resolve (g + 1)) io) s2 = Some s3"
    using assms(7) s2(1,2) by (simp add: s3_def current_def onResolve_def good_def taken_def)
  have 4: "react L (Done (Connect (g + 1)) io) s3 = Some s4"
    using assms(7) s2(1,14) by (simp add: s3_def s4_def current_def onConnect_def good_def taken_def)
  have 5: "react L (Done (TlsHandshake (g + 1)) io) s4 = Some s5"
    using assms(7) s2(1) by (simp add: s3_def s4_def s5_def current_def onSSLHandshake_def good_def taken_def)
  have 6: "react L (Done (Handshake (g + 1)) io) s5 =
      Some (arm (Read (g + 1)) (if authRequired u then sendLogin L io u else flushTopics L io u))"
    using assms(7) s2(1,4) by (simp add: s3_def s4_def s5_def u_def current_def onHandshake_def Let_def good_def taken_def)
  have "newborn io s u" using s2 by (simp add: newborn_def u_def s5_def s4_def s3_def g_def taken_def)
  moreover have "generation u = g + 1" using s2(1) by (simp add: u_def s5_def s4_def s3_def)
  moreover have "ws_run L (outage bad io g) s =
      Some (arm (Read (g + 1)) (if authRequired u then sendLogin L io u else flushTopics L io u))"
    unfolding outage_def by (simp only: ws_run.simps 1 2 3 4 5 6 option.case)
  ultimately show ?thesis by (auto simp: g_def)
qed

text \<open>Flushing a session with an empty queue and then draining it sends its pending topics.\<close>

lemma flush_drain:
  assumes "connected t" "hasStream t" "\<not> writeInFlight t" "outboundQueue t = []" "\<not> authRequired t \<or> authenticated t" "good io"
  shows "\<exists>t'. ws_run L (replicate (length (pendingTopics t)) (Done (Write (generation t)) io))
      (arm (Read (generation t)) (flushTopics L io t)) = Some t' \<and>
    connected t' \<and> generation t' = generation t \<and> subscriptions t' = subscriptions t @ pendingTopics t \<and> pendingTopics t' = [] \<and>
    outboundQueue t' = [] \<and> authenticatedFlag t' = authenticatedFlag t \<and>
    did t' = did t @ map (Wrote (generation t) \<circ> dump (wl_json L)) (pendingTopics t)"
proof (cases "pendingTopics t")
  case Nil
  then have "flushTopics L io t = flushed L t" using assms by (auto simp: flushTopics_pump flushed_def pump_def)
  then show ?thesis using assms Nil by (simp add: flushed_def)
next
  case (Cons p ps)
  define u where "u = arm (Read (generation t)) (flushTopics L io t)"
  have pf: "pump io (flushed L t) = (flushed L t)\<lparr>writeBuffer := dump (wl_json L) p, outboundQueue := map (dump (wl_json L)) ps,
      writeInFlight := True, armed := armed (flushed L t) @ [Write (generation (flushed L t))],
      did := did (flushed L t) @ [Wrote (generation (flushed L t)) (dump (wl_json L) p)]\<rparr>"
    by (rule pump_sends) (use assms Cons in \<open>simp_all add: flushed_def good_def\<close>)
  have fl: "flushTopics L io t = pump io (flushed L t)" using assms(1,5) by (auto simp: flushTopics_pump)
  have u: "u = (flushed L t)\<lparr>writeBuffer := dump (wl_json L) p, outboundQueue := map (dump (wl_json L)) ps, writeInFlight := True,
      armed := armed t @ [Write (generation t), Read (generation t)], did := did t @ [Wrote (generation t) (dump (wl_json L) p)]\<rparr>"
    unfolding u_def fl pf by (simp add: flushed_def)
  have f: "connected u" "hasStream u" "writeInFlight u" "Write (generation u) \<in> set (armed u)" "generation u = generation t"
    "length (outboundQueue u) = length ps"
    using assms by (simp_all add: u flushed_def)
  have l: "length (pendingTopics t) = Suc (length (outboundQueue u))" using f(6) Cons by simp
  obtain t' where t': "ws_run L (replicate (length (pendingTopics t)) (Done (Write (generation t)) io)) u = Some t'" "drained u t'"
    using drain [OF f(1-4) assms(6), of L] unfolding l f(5) by blast
  obtain b qs where t2: "t' = u\<lparr>writeBuffer := b, outboundQueue := [], writeInFlight := False, armed := qs,
     did := did u @ map (Wrote (generation u)) (outboundQueue u)\<rparr>"
    using t'(2) unfolding drained_def by blast
  have "connected t'" "generation t' = generation t" "subscriptions t' = subscriptions t @ pendingTopics t"
    "pendingTopics t' = []" "outboundQueue t' = []" "authenticatedFlag t' = authenticatedFlag t"
    "did t' = did t @ map (Wrote (generation t) \<circ> dump (wl_json L)) (pendingTopics t)"
    using assms(1) Cons by (simp_all add: t2 u flushed_def)
  then show ?thesis using t'(1) unfolding u_def by blast
qed

text \<open>
  C6. A public stream that loses its connection and gets through to the venue again is sent one
  frame per topic of the old connection, subscribed or pending, in the order they were asked
  for; then all of them count as subscribed and nothing is pending.
\<close>

theorem outage_replays_topics:
  assumes "ws_reach L s" "connected s" "\<not> reconnectScheduled s" "\<not> userClosed s" "\<not> authRequired s"
    "Read (generation s) \<in> set (armed s)" "failed bad" "good io"
  shows "\<exists>s'. ws_run L (outage bad io (generation s) @
        replicate (length (topics s)) (Done (Write (generation s + 1)) io)) s = Some s' \<and>
      connected s' \<and> subscriptions s' = topics s \<and> pendingTopics s' = [] \<and> outboundQueue s' = [] \<and>
      did s' = did s @ [SocketClosed (generation s), Backoff (generation s) (reconnectDelayS s),
        Dial (generation s + 1) (host s) (port s),
        Upgrade (generation s + 1) (host s @ '':'' @ int_str (peerPort io)) (path s)] @
        map (Wrote (generation s + 1)) (replay_frames L s)"
proof -
  have "hasStream s" using sound_reach [OF assms(1)] assms(2) by (simp add: sound_def)
  then obtain u where u: "newborn io s u" "ws_run L (outage bad io (generation s)) s =
      Some (arm (Read (generation u)) (flushTopics L io u))"
    using outage_up [OF assms(2) _ assms(3,4,6,7,8), of L] assms(5) by (auto simp: newborn_def)
  from u(1) have n: "connected u" "hasStream u" "\<not> writeInFlight u" "outboundQueue u = []" "\<not> authRequired u \<or> authenticated u"
    "pendingTopics u = topics s" "generation u = generation s + 1" "subscriptions u = []"
    using assms(5) by (simp_all add: newborn_def)
  show ?thesis using flush_drain [OF n(1-5) assms(8), of L] u n(6-8)
    by (auto simp: ws_run_append newborn_def replay_frames_def)
qed

theorem outage_replays_topics_witness:
  "\<exists>s s'. ws_run demo_lib (start_events (demo_topic ''a'') @ [Done (Write 1) fine, Subscribe (demo_topic ''b'')]) session_default = Some s \<and>
     ws_run demo_lib (outage broken fine 1 @ replicate 2 (Done (Write 2) fine)) s = Some s' \<and>
     subscriptions s' = [demo_topic ''a'', demo_topic ''b'']"
proof -
  have "\<exists>s. ws_run demo_lib (start_events (demo_topic ''a'') @ [Done (Write 1) fine, Subscribe (demo_topic ''b'')]) session_default = Some s \<and>
     connected s \<and> \<not> reconnectScheduled s \<and> \<not> userClosed s \<and> \<not> authRequired s \<and> generation s = 1 \<and>
     Read (generation s) \<in> set (armed s) \<and> topics s = [demo_topic ''a'', demo_topic ''b'']"
    by (simp add: demo Let_def int_str_def topics_def)
  then obtain s where s: "ws_run demo_lib (start_events (demo_topic ''a'') @ [Done (Write 1) fine, Subscribe (demo_topic ''b'')]) session_default = Some s"
     "connected s" "\<not> reconnectScheduled s" "\<not> userClosed s" "\<not> authRequired s" "generation s = 1"
     "Read (generation s) \<in> set (armed s)" "topics s = [demo_topic ''a'', demo_topic ''b'']" by blast
  have r: "ws_reach demo_lib s" by (rule ws_run_reach [OF ws_reach.fresh s(1)])
  have "failed broken" "good fine" by (simp_all add: broken_def fine_def good_def)
  from outage_replays_topics [OF r s(2-5) s(7) this] s(1) show ?thesis by (auto simp: s(6,8) numeral_2_eq_2)
qed

text \<open>What the login leaves behind on a connection that has just come up, its frame being written.\<close>

lemma newborn_sendLogin:
  assumes "newborn io s u" "good io"
  shows "sendLogin L io u = u\<lparr>authDeadline := Some (steadyLogin io + secs AUTH_ACK_TIMEOUT_IN_S), outboundQueue := [],
      writeBuffer := loginFrame L io s, writeInFlight := True, armed := armed u @ [Write (generation s + 1)],
      did := did u @ [Wrote (generation s + 1) (loginFrame L io s)]\<rparr>"
proof -
  define e where "e = u\<lparr>authDeadline := Some (steadyLogin io + secs AUTH_ACK_TIMEOUT_IN_S), outboundQueue := [loginFrame L io s]\<rparr>"
  have lf: "loginFrame L io u = loginFrame L io s" using assms(1) by (simp add: loginFrame_def newborn_def)
  have "sendLogin L io u = pump io e" using assms(1) by (simp add: sendLogin_def e_def lf newborn_def)
  also have "\<dots> = e\<lparr>writeBuffer := loginFrame L io s, outboundQueue := [], writeInFlight := True,
      armed := armed e @ [Write (generation e)], did := did e @ [Wrote (generation e) (loginFrame L io s)]\<rparr>"
    by (rule pump_sends) (use assms in \<open>simp_all add: e_def newborn_def good_def\<close>)
  finally show ?thesis using assms(1) by (simp add: e_def newborn_def)
qed

text \<open>
  C14. A credentialed stream that loses its connection logs in again on the new one before anything
  else is sent on it; the topics follow after the venue has accepted the login, all of them, in
  the order they were asked for.
\<close>

theorem login_before_topics:
  assumes "ws_reach L s" "connected s" "\<not> reconnectScheduled s" "\<not> userClosed s" "authRequired s"
    "Read (generation s) \<in> set (armed s)" "failed bad" "good io"
    "parse (wl_json L) (frame io) = Inr (JObj es)" "map_of es ''channel'' = Some (JStr ''rs.login'')"
    "rd_str (wl_json L) (JObj es) ''channel'' [] = Inr ''rs.login''"
    "rd_str (wl_json L) (JObj es) ''data'' [] = Inr ''success''"
  shows "\<exists>s'. ws_run L (outage bad io (generation s) @ [Done (Write (generation s + 1)) io, Done (Read (generation s + 1)) io] @
        replicate (length (topics s)) (Done (Write (generation s + 1)) io)) s = Some s' \<and>
      session_isAuthenticated s' \<and> subscriptions s' = topics s \<and> pendingTopics s' = [] \<and>
      did s' = did s @ [SocketClosed (generation s), Backoff (generation s) (reconnectDelayS s),
        Dial (generation s + 1) (host s) (port s),
        Upgrade (generation s + 1) (host s @ '':'' @ int_str (peerPort io)) (path s),
        Wrote (generation s + 1) (loginFrame L io s)] @ map (Wrote (generation s + 1)) (replay_frames L s)"
proof -
  define g where "g = generation s + 1"
  have st: "hasStream s" using sound_reach [OF assms(1)] assms(2) by (simp add: sound_def)
  obtain u where u: "newborn io s u" "ws_run L (outage bad io (generation s)) s = Some (arm (Read g) (sendLogin L io u))"
    using outage_up [OF assms(2) st assms(3,4,6,7,8), of L] assms(5) by (auto simp: newborn_def g_def)
  define v where "v = arm (Read g) (sendLogin L io u)"
  have v: "v = u\<lparr>authDeadline := Some (steadyLogin io + secs AUTH_ACK_TIMEOUT_IN_S), outboundQueue := [],
      writeBuffer := loginFrame L io s, writeInFlight := True, armed := armed u @ [Write g, Read g],
      did := did u @ [Wrote g (loginFrame L io s)]\<rparr>"
    by (simp add: v_def newborn_sendLogin [OF u(1) assms(8)] g_def)
  define w where "w = v\<lparr>armed := remove1 (Write g) (armed v), writeInFlight := False\<rparr>"
  have 1: "react L (Done (Write g) io) v = Some w"
    using u(1) assms(8) by (simp add: v w_def newborn_def g_def onWrite_def Let_def good_def pump_def)
  define x where "x = acked (taken (Read g) w)"
  have x: "connected x" "hasStream x" "\<not> writeInFlight x" "outboundQueue x = []" "\<not> authRequired x \<or> authenticated x"
    "generation x = g" "pendingTopics x = topics s" "subscriptions x = []" "authenticatedFlag x" "reconnectDelayS x = 1"
    "\<not> reconnectScheduled x" "did x = did u @ [Wrote g (loginFrame L io s)]"
    using u(1) by (simp_all add: x_def w_def v acked_def taken_def newborn_def g_def)
  have "Read g \<in> set (armed w)" by (simp add: w_def v remove1_append)
  moreover have "isControlMsg (JObj es)" using assms(10) by (simp add: isControlMsg_def starts_with_def)
  moreover have "handleControlMsg L g io (JObj es) (taken (Read g) w) = Inr (flushTopics L io x)"
    using assms(11,12) by (simp add: handleControlMsg_def x_def acked_def)
  moreover have "readOn g (flushTopics L io x) = arm (Read g) (flushTopics L io x)"
  proof -
    have "reconnectDelayS (flushTopics L io x) = 1" using x(10) by (simp add: flushTopics_pump flushed_def)
    then have "(flushTopics L io x)\<lparr>reconnectDelayS := 1\<rparr> = flushTopics L io x" by (cases "flushTopics L io x") simp
    then show ?thesis using x(1,6,11) by (simp add: readOn_def)
  qed
  ultimately have 2: "react L (Done (Read g) io) w = Some (arm (Read g) (flushTopics L io x))"
    using assms(8,9) x(6) by (simp add: current_def onRead_def good_def taken_def w_def v g_def u(1)[unfolded newborn_def])
  have run: "ws_run L (outage bad io (generation s) @ [Done (Write g) io, Done (Read g) io] @ es') s =
      ws_run L es' (arm (Read g) (flushTopics L io x))" for es'
    using u(2) 1 2 by (simp only: ws_run_append ws_run.simps append.simps v_def option.case)
  show ?thesis unfolding g_def [symmetric] run
    using flush_drain [OF x(1-5) assms(8), of L] x u(1)
    by (auto simp: newborn_def replay_frames_def session_isAuthenticated_def g_def)
qed

definition ack_events :: "event list" where
  "ack_events = [SetCredentials ''key'' ''secret''] @ start_events (demo_topic ''a'') @
     [Done (Write 1) fine, Done (Read 1) (fine\<lparr>frame := ''ack''\<rparr>), Done (Write 1) fine]"

theorem login_before_topics_witness:
  "\<exists>s s'. ws_run demo_lib ack_events session_default = Some s \<and>
     ws_run demo_lib (outage broken (fine\<lparr>frame := ''ack''\<rparr>) 1 @
       [Done (Write 2) (fine\<lparr>frame := ''ack''\<rparr>), Done (Read 2) (fine\<lparr>frame := ''ack''\<rparr>)] @
       replicate 1 (Done (Write 2) (fine\<lparr>frame := ''ack''\<rparr>))) s = Some s' \<and>
     subscriptions s' = [demo_topic ''a''] \<and> last (did s') = Wrote 2 ''sub.a'' \<and> Wrote 2 ''login'' \<in> set (did s')"
proof -
  let ?io = "fine\<lparr>frame := ''ack''\<rparr>" and ?es = "[(''channel'', JStr ''rs.login''), (''data'', JStr ''success'')]"
  have "\<exists>s. ws_run demo_lib ack_events session_default = Some s \<and>
     connected s \<and> \<not> reconnectScheduled s \<and> \<not> userClosed s \<and> authRequired s \<and> generation s = 1 \<and>
     Read (generation s) \<in> set (armed s) \<and> topics s = [demo_topic ''a'']"
    by (simp add: ack_events_def demo Let_def int_str_def topics_def acked_def)
  then obtain s where s: "ws_run demo_lib ack_events session_default = Some s"
     "connected s" "\<not> reconnectScheduled s" "\<not> userClosed s" "authRequired s" "generation s = 1"
     "Read (generation s) \<in> set (armed s)" "topics s = [demo_topic ''a'']" by blast
  have r: "ws_reach demo_lib s" by (rule ws_run_reach [OF ws_reach.fresh s(1)])
  have io: "failed broken" "good ?io" by (simp_all add: broken_def fine_def good_def)
  have L: "parse (wl_json demo_lib) (frame ?io) = Inr (JObj ?es)" "map_of ?es ''channel'' = Some (JStr ''rs.login'')"
    "rd_str (wl_json demo_lib) (JObj ?es) ''channel'' [] = Inr ''rs.login''"
    "rd_str (wl_json demo_lib) (JObj ?es) ''data'' [] = Inr ''success''"
    by (simp_all add: demo_lib_def demo_parse_def std_jlib_simps)
  have f: "loginFrame demo_lib ?io s = ''login''" "replay_frames demo_lib s = [''sub.a'']"
    by (simp_all add: loginFrame_def replay_frames_def demo_lib_def demo_dump_def demo_topic_def s(8) Let_def)
  from login_before_topics [OF r s(2-5) s(7) io L] s(1) show ?thesis by (auto simp: s(6,8) f)
qed

subsection \<open>A venue that cannot be reached\<close>

fun failed_attempts :: "reading \<Rightarrow> reading \<Rightarrow> nat \<Rightarrow> event list" where
  "failed_attempts bad io 0 = []"
| "failed_attempts bad io (Suc n) = failed_attempts bad io n @
     [Done (Resolve (int n + 1)) bad, Done (ReconnectWait (int n + 1)) io]"

lemma next_attempt:
  assumes "generation s = g" "Resolve g \<in> set (armed s)" "\<not> userClosed s" "\<not> reconnectScheduled s" "failed bad" "\<not> failed io"
  shows "\<exists>s'. ws_run L [Done (Resolve g) bad, Done (ReconnectWait g) io] s = Some s' \<and> generation s' = g + 1 \<and>
    Resolve (g + 1) \<in> set (armed s') \<and> \<not> userClosed s' \<and> \<not> reconnectScheduled s' \<and>
    backoffs s' = backoffs s @ [reconnectDelayS s] \<and> reconnectDelayS s' = min (reconnectDelayS s * 2) 30"
  using assms
  by (simp add: current_def onResolve_def handleError_down down_def onReconnectTimer_def startConnect_def Let_def
      backoffs_def RECONNECT_DELAY_MAX_IN_S_def)



end
