(* ===== verification/Ws_Faults.thy ===== *)
theory Ws_Faults
  imports Ws_Replay
begin

section \<open>Where the session does not keep its promises\<close>

text \<open>
  Three runs that the header of the session does not allow for.
  \<^item> \<open>run\<close> called again while a reconnect is waiting leaves \<open>reconnectScheduled\<close> set for ever: the timer
    belongs to the old generation and returns before it clears the flag, and with the flag set
    no error is handled and no message is read after the next.
  \<^item> A topic that is dropped and asked for again before the strand has run is subscribed and then
    unsubscribed at the venue, while the session reports it as subscribed.
  \<^item> A login ack that was already read when the connection is given up marks the session as
    authenticated while it is reconnecting.
\<close>

subsection \<open>A second run during a reconnect\<close>

definition wedged :: "int \<Rightarrow> session \<Rightarrow> bool" where
  "wedged g s \<longleftrightarrow> reconnectScheduled s \<and> generation s = g \<and> ReconnectWait g \<notin> set (armed s) \<and> Start \<notin> set (posted s)"

lemma wedged_pump [intro]: "wedged g s \<Longrightarrow> wedged g (pump io s)"
  using pump_cases [of io s] by (auto simp: wedged_def)

lemma wedged_handleError [intro, simp]: "wedged g s \<Longrightarrow> wedged g (handleError h s)"
  by (simp add: wedged_def handleError_down)

lemma wedged_other [simp]:
  "wedged g (s\<lparr>writeBuffer := a\<rparr>) = wedged g s" "wedged g (s\<lparr>outboundQueue := b\<rparr>) = wedged g s"
  "wedged g (s\<lparr>writeInFlight := c\<rparr>) = wedged g s" "wedged g (s\<lparr>did := d\<rparr>) = wedged g s"
  "wedged g (s\<lparr>hostHeader := e\<rparr>) = wedged g s" "wedged g (s\<lparr>lastPongTime := f\<rparr>) = wedged g s"
  "wedged g (s\<lparr>connected := h\<rparr>) = wedged g s" "wedged g (s\<lparr>authDeadline := i\<rparr>) = wedged g s"
  "wedged g (s\<lparr>reconnectDelayS := j\<rparr>) = wedged g s" "wedged g (s\<lparr>userClosed := k\<rparr>) = wedged g s"
  by (simp_all add: wedged_def)

lemma wedged_arm: "wedged g s \<Longrightarrow> \<forall>h. q \<noteq> ReconnectWait h \<Longrightarrow> wedged g (s\<lparr>armed := armed s @ [q]\<rparr>)"
  by (auto simp: wedged_def)

lemma wedged_flushTopics [intro]: "wedged g s \<Longrightarrow> wedged g (flushTopics L io s)"
proof -
  assume "wedged g s"
  then have "wedged g (flushed L s)" by (simp add: wedged_def flushed_def)
  then show ?thesis using \<open>wedged g s\<close> by (auto simp: flushTopics_pump)
qed

lemma wedged_sendLogin [intro]: "wedged g s \<Longrightarrow> wedged g (sendLogin L io s)"
  by (auto simp: sendLogin_def)

lemma wedged_onHandshake:
  assumes "wedged g s" shows "wedged g (onHandshake L h io s)"
proof (cases "failed io \<or> userClosed s")
  case False
  define up where "up = s\<lparr>connected := True, lastPongTime := steady io, armed := armed s @ [PingWait h]\<rparr>"
  have "wedged g up" using assms by (auto simp: up_def wedged_def)
  then have "wedged g (s'\<lparr>armed := armed s' @ [Read h]\<rparr>)" if "s' \<in> {sendLogin L io up, flushTopics L io up}" for s'
    using that by (auto intro!: wedged_arm)
  then show ?thesis using False by (simp add: onHandshake_def Let_def up_def)
qed (use assms in \<open>auto simp: onHandshake_def\<close>)

lemma wedged_handleControlMsg:
  assumes "handleControlMsg L h io j s = Inr s'" "wedged g s" shows "wedged g s'"
  using assms(1)
proof (cases rule: handleControlMsg_cases)
  case 3
  have "wedged g (acked s)" using assms(2) by (simp add: wedged_def acked_def)
  then show ?thesis using 3 by auto
qed (use assms(2) in auto)

lemma wedged_readOn [intro, simp]: "wedged g s \<Longrightarrow> wedged g (readOn h s)"
  by (simp add: readOn_def wedged_def)

lemma wedged_onRead:
  assumes "wedged g s" shows "wedged g (onRead L h io s)"
proof -
  have d: "wedged g (deliver L j s)" for j using assms by (simp add: deliver_def split: sum.split)
  show ?thesis
  proof (cases "parse (wl_json L) (frame io)")
    case (Inr j)
    have "wedged g (readOn h s')" if "handleControlMsg L h io j s = Inr s'" for s'
      using wedged_handleControlMsg [OF that assms] by simp
    then show ?thesis using Inr assms d by (simp add: onRead_def split: sum.split)
  qed (use assms in \<open>simp add: onRead_def\<close>)
qed

lemma wedged_dialling:
  assumes "wedged g s" shows "wedged g (onResolve h io s)" "wedged g (onConnect h io s)" "wedged g (onSSLHandshake h io s)"
proof -
  have "wedged g (s\<lparr>hostHeader := x, armed := armed s @ [TlsHandshake h]\<rparr>)" for x
    using wedged_arm [of g "s\<lparr>hostHeader := x\<rparr>" "TlsHandshake h"] assms by simp
  then show "wedged g (onResolve h io s)" "wedged g (onConnect h io s)" "wedged g (onSSLHandshake h io s)"
    using assms by (simp_all add: onResolve_def onConnect_def onSSLHandshake_def wedged_arm)
qed

lemma wedged_onPingTimer: "wedged g s \<Longrightarrow> wedged g (onPingTimer L h io s)"
  by (simp add: onPingTimer_def wedged_arm wedged_pump)

lemma wedged_onWrite: "wedged g s \<Longrightarrow> wedged g (onWrite h io s)"
  by (simp add: onWrite_def Let_def wedged_pump)

lemma wedged_complete:
  assumes "wedged g s" "q \<noteq> ReconnectWait g" shows "wedged g (complete L io q (taken q s))"
proof -
  have t: "wedged g (taken q s)" using assms by (auto simp: wedged_def taken_def dest: notin_set_remove1)
  show ?thesis
  proof (cases q)
    case (ReconnectWait h)
    then show ?thesis using t assms by (simp add: onReconnectTimer_def wedged_def)
  qed (use t in \<open>auto simp: current_def intro: wedged_dialling wedged_onHandshake wedged_onRead wedged_onPingTimer wedged_onWrite\<close>)
qed

lemma wedged_takeBack: "wedged g s \<Longrightarrow> wedged g (takeBack L io t s)"
  by (simp add: takeBack_def wedged_pump split: sum.split)

lemma wedged_do_job: "wedged g s \<Longrightarrow> j \<noteq> Start \<Longrightarrow> wedged g (do_job L io j s)"
  by (cases j) (auto simp: wedged_takeBack closeByUser_def Let_def)

lemma wedged_topics [simp]:
  "wedged g (addTopic t s) = wedged g s" "wedged g (snd (removeTopic t s)) = wedged g s"
  by (simp_all add: wedged_def addTopic_def removeTopic_def Let_def split: option.splits)

lemma wedged_step:
  assumes "ws_step L s e s'" "wedged g s" "\<forall>h p pt t cb. e \<noteq> Run h p pt t cb" shows "wedged g s'"
  using assms(1)
proof (cases rule: ws_step.cases)
  case (subscribing t)
  have "wedged g (addTopic t s)" using assms(2) by simp
  then show ?thesis using subscribing by (simp add: session_subscribe_def wedged_def)
next
  case (unsubscribing t)
  have "wedged g (snd (removeTopic t s))" using assms(2) by simp
  then show ?thesis using unsubscribing by (simp add: session_unsubscribe_if wedged_def)
next
  case (job j js io)
  then have "wedged g (s\<lparr>posted := js\<rparr>)" "j \<noteq> Start" using assms(2) by (auto simp: wedged_def)
  then show ?thesis using job wedged_do_job by simp
next
  case (completion q io)
  then have "q \<noteq> ReconnectWait g" using assms(2) by (auto simp: wedged_def)
  then show ?thesis using completion wedged_complete [OF assms(2)] by (simp add: taken_def)
qed (use assms(2,3) in \<open>auto simp: session_setCredentials_def session_close_def onPongFrame_def wedged_def\<close>)



text \<open>
  The second \<open>run\<close> comes while the first attempt waits for its retry. The new connection comes up
  and is subscribed, the old timer fires in vain, and the first message is the last one read.
\<close>

definition wedge_events :: "event list" where
  "wedge_events = [Run ''h'' ''443'' ''/edge'' (demo_topic ''a'') True, RunJob fine, Done (Resolve 1) broken,
     Run ''h'' ''443'' ''/edge'' JNull True, RunJob fine, Done (ReconnectWait 1) fine]"

definition wedged_events :: "event list" where
  "wedged_events = come_up_events 2 @ [Done (Write 2) fine, Done (Read 2) (fine\<lparr>frame := ''data''\<rparr>),
     Done (PingWait 2) (fine\<lparr>steady := secs 600\<rparr>)]"


subsection \<open>A topic dropped and asked for again\<close>

text \<open>The frames of the current connection: those written, and those that wait in the queue.\<close>

fun frame_on :: "int \<Rightarrow> act \<Rightarrow> string list" where
  "frame_on g (Wrote h p) = (if h = g then [p] else [])"
| "frame_on g _ = []"

definition frames :: "session \<Rightarrow> string list" where
  "frames s = concat (map (frame_on (generation s)) (did s)) @ outboundQueue s"

lemma frames_pump [simp]: "frames (pump io s) = frames s"
  using pump_cases [of io s] by (auto simp: frames_def)

lemma frames_flushTopics:
  "connected s \<Longrightarrow> \<not> authRequired s \<or> authenticated s \<Longrightarrow>
   frames (flushTopics L io s) = frames s @ map (dump (wl_json L)) (pendingTopics s)"
  by (auto simp: flushTopics_pump flushed_def) (simp_all add: frames_def)

text \<open>The two calls, when the topic is subscribed: it moves to the pending ones, and two jobs are posted.\<close>

lemma drop_and_want:
  assumes "posted s = js" "store_ok s" "t \<in> set (subscriptions s)"
  shows "session_subscribe t (session_unsubscribe t s) =
    s\<lparr>subscriptions := removeAll t (subscriptions s), pendingTopics := pendingTopics s @ [t], posted := js @ [TakeBack t, Flush]\<rparr>"
proof -
  have ex: "exact t" "distinct (subscriptions s)" "\<forall>x \<in> set (subscriptions s @ pendingTopics s). exact x" "t \<notin> set (pendingTopics s)"
    using assms(2,3) by (auto simp: store_ok_def topics_def)
  have "filter (\<lambda>x. \<not> sameRequest x t) (pendingTopics s) = pendingTopics s"
    using ex by (auto simp: filter_id_conv sameRequest_exact)
  then have "session_unsubscribe t s = s\<lparr>subscriptions := removeAll t (subscriptions s), posted := js @ [TakeBack t]\<rparr>"
    using ex assms(1,3) by (simp add: session_unsubscribe_def removeTopic_def erase_first_same Let_def)
  then show ?thesis
    using ex by (auto simp: session_subscribe_def addTopic_def list_ex_iff sameRequest_exact)
qed

text \<open>The jobs in the order they were posted.\<close>

lemma flush_takeback_flush:
  assumes "connected s" "\<not> authRequired s \<or> authenticated s" "posted s = [Flush, TakeBack t, Flush]"
    and "toUnsubscribe (wl_json L) t = Inr u"
  obtains s' where "ws_run L [RunJob io, RunJob io, RunJob io] s = Some s'" "posted s' = []" "pendingTopics s' = []"
    "subscriptions s' = subscriptions s @ pendingTopics s"
    "frames s' = frames s @ map (dump (wl_json L)) (pendingTopics s) @ [dump (wl_json L) u]"
proof -
  define s3 where "s3 = flushTopics L io (s\<lparr>posted := [TakeBack t, Flush]\<rparr>)"
  have s3: "posted s3 = [TakeBack t, Flush]" "connected s3" "pendingTopics s3 = []" "subscriptions s3 = subscriptions s @ pendingTopics s"
    "authRequired s3 = authRequired s" "authenticated s3 = authenticated s"
    using assms(1,2) by (auto simp: s3_def flushTopics_pump flushed_def)
  have f3: "frames s3 = frames s @ map (dump (wl_json L)) (pendingTopics s)"
    using assms(1,2) frames_flushTopics [of "s\<lparr>posted := [TakeBack t, Flush]\<rparr>" L io]
    by (simp add: s3_def) (simp add: frames_def)
  define s4 where "s4 = takeBack L io t (s3\<lparr>posted := [Flush]\<rparr>)"
  have s4: "posted s4 = [Flush]" "connected s4" "pendingTopics s4 = []" "subscriptions s4 = subscriptions s3" "\<not> authRequired s4 \<or> authenticated s4"
    using s3 assms(2,4) by (auto simp: s4_def takeBack_def)
  have f4: "frames s4 = frames s3 @ [dump (wl_json L) u]"
    using s3 assms(4) by (simp add: s4_def takeBack_def) (simp add: frames_def)
  define s5 where "s5 = flushTopics L io (s4\<lparr>posted := []\<rparr>)"
  have s5: "posted s5 = []" "pendingTopics s5 = []" "subscriptions s5 = subscriptions s @ pendingTopics s"
    using s3 s4 by (auto simp: s5_def flushTopics_pump flushed_def)
  have f5: "frames s5 = frames s4"
    using s4 frames_flushTopics [of "s4\<lparr>posted := []\<rparr>" L io] by (simp add: s5_def) (simp add: frames_def)
  have "ws_run L [RunJob io, RunJob io, RunJob io] s = Some s5"
    using s3(1) s4(1) assms(3) by (simp add: s5_def) (simp add: s3_def s4_def)
  then show thesis by (rule that) (use s5 f3 f4 f5 in simp_all)
qed

text \<open>
  C40. A caller drops a topic and asks for it again while a flush is already posted: the first job
  subscribes the topic, the second, of the drop, takes it back at the venue, and the third has nothing left
  to send. The session reports the topic as subscribed, and it receives nothing for it.
\<close>

theorem resubscribed_topic_lost:
  assumes "connected s" "\<not> authRequired s \<or> authenticated s" "posted s = [Flush]" "store_ok s"
    and "t \<in> set (subscriptions s)" "toUnsubscribe (wl_json L) t = Inr u"
  shows "\<exists>s'. ws_run L [Unsubscribe t, Subscribe t, RunJob io, RunJob io, RunJob io] s = Some s' \<and>
    isSubscribed t s' \<and> posted s' = [] \<and> pendingTopics s' = [] \<and>
    frames s' = frames s @ map (dump (wl_json L)) (pendingTopics s) @ [dump (wl_json L) t, dump (wl_json L) u]"
proof -
  define s2 where "s2 = s\<lparr>subscriptions := removeAll t (subscriptions s), pendingTopics := pendingTopics s @ [t],
    posted := [Flush, TakeBack t, Flush]\<rparr>"
  have calls: "session_subscribe t (session_unsubscribe t s) = s2"
    using drop_and_want [OF assms(3-5)] by (simp add: s2_def)
  obtain s' where s': "ws_run L [RunJob io, RunJob io, RunJob io] s2 = Some s'" "posted s' = []" "pendingTopics s' = []"
    "subscriptions s' = subscriptions s2 @ pendingTopics s2"
    "frames s' = frames s2 @ map (dump (wl_json L)) (pendingTopics s2) @ [dump (wl_json L) u]"
    by (rule flush_takeback_flush [OF _ _ _ assms(6), of s2]) (use assms(1,2) in \<open>simp_all add: s2_def\<close>)
  have "exact t" using assms(4,5) by (auto simp: store_ok_def topics_def)
  then have "isSubscribed t s'" using s'(4) by (simp add: isSubscribed_def sameRequest_exact s2_def)
  moreover have "frames s2 = frames s" by (simp add: s2_def frames_def)
  ultimately show ?thesis using s' calls by (simp add: s2_def)
qed

definition requeue_events :: "event list" where
  "requeue_events = start_events (demo_topic ''a'') @ [Done (Write 1) fine, Subscribe (demo_topic ''b'')]"

theorem resubscribed_topic_lost_witness:
  "\<exists>s s'. ws_run demo_lib requeue_events session_default = Some s \<and>
     ws_run demo_lib [Unsubscribe (demo_topic ''a''), Subscribe (demo_topic ''a''), RunJob fine, RunJob fine, RunJob fine] s = Some s' \<and>
     isSubscribed (demo_topic ''a'') s' \<and> frames s' = [''sub.a'', ''sub.b'', ''sub.a'', ''unsub.a'']"
proof -
  have "\<exists>s. ws_run demo_lib requeue_events session_default = Some s \<and> connected s \<and> \<not> authRequired s \<and> posted s = [Flush] \<and>
      store_ok s \<and> demo_topic ''a'' \<in> set (subscriptions s) \<and> frames s = [''sub.a''] \<and> pendingTopics s = [demo_topic ''b'']"
    by (simp add: requeue_events_def demo Let_def int_str_def store_ok_def topics_def frames_def)
  then obtain s where s: "ws_run demo_lib requeue_events session_default = Some s" "connected s" "\<not> authRequired s" "posted s = [Flush]"
      "store_ok s" "demo_topic ''a'' \<in> set (subscriptions s)" "frames s = [''sub.a'']" "pendingTopics s = [demo_topic ''b'']" by blast
  have u: "toUnsubscribe (wl_json demo_lib) (demo_topic ''a'') = Inr (JObj [(''method'', JStr ''unsub.a'')])"
    by (simp add: demo)
  have d: "dump (wl_json demo_lib) (demo_topic ch) = ''sub.'' @ ch" "dump (wl_json demo_lib) (JObj [(''method'', JStr m)]) = m" for ch m
    by (simp_all add: demo)
  from resubscribed_topic_lost [OF s(2) _ s(4-6) u, of fine] s(1,3,7,8) show ?thesis by (auto simp: d)
qed

subsection \<open>A login ack that comes too late\<close>

definition late_ack_events :: "event list" where
  "late_ack_events = [SetCredentials ''key'' ''secret''] @ start_events JNull @
     [Done (Write 1) fine, Done (PingWait 1) (fine\<lparr>steady := secs 41\<rparr>), Done (Read 1) (fine\<lparr>frame := ''ack''\<rparr>)]"

text \<open>
  A login ack that was read before the connection was given up, and is handled after, makes
  \<open>isAuthenticated()\<close> true while the session is disconnected and waits for the reconnect.
\<close>

theorem authenticated_while_reconnecting:
  "\<exists>s. ws_run demo_lib late_ack_events session_default = Some s \<and> orderly_run demo_lib late_ack_events session_default \<and>
     session_isAuthenticated s \<and> reconnectScheduled s \<and> \<not> connected s"
  by (simp add: late_ack_events_def demo Let_def int_str_def acked_def)

end
