(* ===== verification/Ws_Login.thy ===== *)
theory Ws_Login
  imports Ws_Orderly
begin

section \<open>What goes out before the login\<close>

text \<open>
  A session with credentials asks for nothing before the venue has accepted its login.
  \<^item> \<open>control_frame\<close>: the frames that need no login: the login itself, pings, and the unsubscribe frame
    of a topic that was dropped while an older connection was up.
  \<^item> \<open>quiet\<close>: the invariant. A stream that is still dialling has written nothing, and until the login
    is acknowledged whatever was written on the connection or waits in its queue is a control frame.
\<close>

definition control_frame :: "ws_lib \<Rightarrow> string \<Rightarrow> string \<Rightarrow> string \<Rightarrow> bool" where
  "control_frame L key secret p \<longleftrightarrow> p = pingFrame L \<or>
     (\<exists>io r. apiKey r = key \<and> apiSecret r = secret \<and> p = loginFrame L io r) \<or>
     (\<exists>t u. toUnsubscribe (wl_json L) t = Inr u \<and> p = dump (wl_json L) u)"

definition unsaid :: "session \<Rightarrow> bool" where
  "unsaid s \<longleftrightarrow> (\<forall>p. Wrote (generation s) p \<notin> set (did s))"

definition guarded :: "ws_lib \<Rightarrow> session \<Rightarrow> bool" where
  "guarded L s \<longleftrightarrow> (connected s \<and> authRequired s \<and> \<not> authenticated s \<longrightarrow>
     (\<forall>p. Wrote (generation s) p \<in> set (did s) \<or> p \<in> set (outboundQueue s) \<longrightarrow> control_frame L (apiKey s) (apiSecret s) p))"

definition quiet :: "ws_lib \<Rightarrow> session \<Rightarrow> bool" where
  "quiet L s \<longleftrightarrow> (\<forall>g p. Wrote g p \<in> set (did s) \<longrightarrow> 0 < g \<and> g \<le> generation s) \<and>
     (dialling s \<longrightarrow> unsaid s) \<and> guarded L s"

lemmas quiet_defs = quiet_def unsaid_def guarded_def dialling_def

text \<open>When a frame may be written.\<close>

definition up_or_down :: "session \<Rightarrow> bool" where
  "up_or_down s \<longleftrightarrow> (connected s \<longrightarrow> 0 < generation s \<and> \<not> dialling s)"

subsection \<open>The operations keep it\<close>

lemma quiet_other [simp]:
  "quiet L (s\<lparr>posted := a1\<rparr>) = quiet L s" "quiet L (s\<lparr>host := a2\<rparr>) = quiet L s" "quiet L (s\<lparr>port := a3\<rparr>) = quiet L s"
  "quiet L (s\<lparr>path := a4\<rparr>) = quiet L s" "quiet L (s\<lparr>hasDataCB := a5\<rparr>) = quiet L s" "quiet L (s\<lparr>hostHeader := a6\<rparr>) = quiet L s"
  "quiet L (s\<lparr>lastPongTime := a7\<rparr>) = quiet L s" "quiet L (s\<lparr>authDeadline := a8\<rparr>) = quiet L s"
  "quiet L (s\<lparr>reconnectDelayS := a9\<rparr>) = quiet L s" "quiet L (s\<lparr>userClosed := b1\<rparr>) = quiet L s"
  "quiet L (s\<lparr>writeInFlight := b2\<rparr>) = quiet L s" "quiet L (s\<lparr>pendingTopics := b3\<rparr>) = quiet L s"
  "quiet L (s\<lparr>subscriptions := b4\<rparr>) = quiet L s" "quiet L (s\<lparr>reconnectScheduled := b5\<rparr>) = quiet L s"
  by (simp_all add: quiet_defs)

lemma up_or_down_other [simp]:
  "up_or_down (s\<lparr>outboundQueue := a1\<rparr>) = up_or_down s" "up_or_down (s\<lparr>writeInFlight := a2\<rparr>) = up_or_down s"
  "up_or_down (s\<lparr>authDeadline := a3\<rparr>) = up_or_down s" "up_or_down (s\<lparr>posted := a4\<rparr>) = up_or_down s"
  "up_or_down (acked s) = up_or_down s" "up_or_down (flushed L s) = up_or_down s"
  by (simp_all add: up_or_down_def dialling_def acked_def flushed_def)

lemma quiet_arm [simp]: "\<not> is_pre q \<Longrightarrow> quiet L (s\<lparr>armed := armed s @ [q]\<rparr>) = quiet L s"
  by (auto simp: quiet_defs)

lemma quiet_arm_pre: "quiet L s \<Longrightarrow> unsaid s \<Longrightarrow> quiet L (s\<lparr>armed := armed s @ [q]\<rparr>)"
  by (auto simp: quiet_defs)

lemma dialling_taken: "dialling (taken q s) \<Longrightarrow> dialling s"
  using set_remove1_subset [of q "armed s"] by (auto simp: dialling_def)

lemma quiet_taken: "quiet L s \<Longrightarrow> quiet L (taken q s)"
  using dialling_taken [of q s] by (auto simp: quiet_def unsaid_def guarded_def taken_def)

lemma quiet_note [simp]: "inert a \<Longrightarrow> quiet L (s\<lparr>did := did s @ [a]\<rparr>) = quiet L s"
  by (cases a) (auto simp: quiet_defs)

lemma quiet_queue: "quiet L s \<Longrightarrow> control_frame L (apiKey s) (apiSecret s) p \<Longrightarrow> quiet L (s\<lparr>outboundQueue := outboundQueue s @ [p]\<rparr>)"
  by (auto simp: quiet_defs)

lemma quiet_pump: "quiet L s \<Longrightarrow> up_or_down s \<Longrightarrow> quiet L (pump io s)"
  using pump_cases [of io s]
proof (elim disjE exE conjE)
  fix p q
  assume "quiet L s" "up_or_down s" "connected s" "outboundQueue s = p # q" and eq: "pump io s = s\<lparr>writeBuffer := p,
    outboundQueue := q, writeInFlight := True, armed := armed s @ [Write (generation s)],
    did := did s @ [Wrote (generation s) p]\<rparr>"
  then show "quiet L (pump io s)" unfolding eq by (auto simp: quiet_defs up_or_down_def)
qed simp

lemma quiet_flushTopics: "quiet L s \<Longrightarrow> up_or_down s \<Longrightarrow> quiet L (flushTopics L io s)"
proof -
  assume "quiet L s" "up_or_down s"
  moreover from this have "quiet L (flushed L s)" if "\<not> authRequired s \<or> authenticated s"
    using that by (auto simp: quiet_defs flushed_def)
  ultimately show ?thesis by (auto simp: flushTopics_pump quiet_pump)
qed

lemma quiet_acked: "quiet L s \<Longrightarrow> quiet L (acked s)"
  by (auto simp: quiet_defs acked_def)

lemma quiet_handleError: "quiet L s \<Longrightarrow> quiet L (handleError gen s)"
  by (auto simp: handleError_down) (auto simp: quiet_defs down_def)

lemma quiet_startConnect: "quiet L s \<Longrightarrow> 0 \<le> generation s \<Longrightarrow> quiet L (startConnect s)"
  by (fastforce simp: startConnect_def Let_def quiet_defs)

lemma quiet_sendLogin:
  assumes "quiet L s" "up_or_down s" shows "quiet L (sendLogin L io s)"
proof -
  let ?s = "s\<lparr>authDeadline := Some (steadyLogin io + secs AUTH_ACK_TIMEOUT_IN_S)\<rparr>"
  have "quiet L (?s\<lparr>outboundQueue := outboundQueue ?s @ [loginFrame L io s]\<rparr>)"
    using assms(1) by (intro quiet_queue) (auto simp: control_frame_def)
  then show ?thesis using assms(2) by (simp add: sendLogin_def quiet_pump)
qed

lemma quiet_onHandshake:
  assumes "quiet L s" "unsaid s" "outboundQueue s = []" "\<not> dialling s" "0 < generation s"
  shows "quiet L (onHandshake L gen io s)"
proof -
  define up where "up = s\<lparr>connected := True, lastPongTime := steady io, armed := armed s @ [PingWait gen]\<rparr>"
  have "quiet L up" "up_or_down up" using assms by (auto simp: up_def up_or_down_def quiet_defs)
  then have "quiet L (s'\<lparr>armed := armed s' @ [Read gen]\<rparr>)" if "s' \<in> {sendLogin L io up, flushTopics L io up}" for s'
    using that by (auto simp: quiet_sendLogin quiet_flushTopics)
  then show ?thesis using assms(1) by (auto simp: onHandshake_def Let_def quiet_handleError simp flip: up_def)
qed

lemma quiet_handleControlMsg:
  assumes "handleControlMsg L gen io j s = Inr s'" "quiet L s" "up_or_down s" shows "quiet L s'"
  using assms(1)
  by (cases rule: handleControlMsg_cases)
    (use assms in \<open>simp_all add: quiet_handleError quiet_flushTopics quiet_acked\<close>)

lemma quiet_readOn: "quiet L s \<Longrightarrow> quiet L (readOn gen s)"
  by (auto simp: readOn_def)

lemma quiet_onRead:
  assumes "quiet L s" "up_or_down s" shows "quiet L (onRead L gen io s)"
proof -
  have d: "quiet L (deliver L j s)" for j using assms(1) by (simp add: deliver_def split: sum.split)
  have e: "quiet L (handleError gen s)" using assms(1) by (rule quiet_handleError)
  have c: "handleControlMsg L gen io j s = Inr s' \<Longrightarrow> quiet L (readOn gen s')" for j s'
    using quiet_handleControlMsg assms quiet_readOn by blast
  show ?thesis using e d c assms(1) by (auto simp: onRead_def quiet_readOn split: sum.split)
qed

lemma quiet_ping: "quiet L s \<Longrightarrow> quiet L (s\<lparr>outboundQueue := outboundQueue s @ [pingFrame L]\<rparr>)"
  by (rule quiet_queue) (simp_all add: control_frame_def)

lemma quiet_onPingTimer:
  assumes "quiet L s" "up_or_down s" shows "quiet L (onPingTimer L gen io s)"
  using assms quiet_pump [OF quiet_ping, of L s io] by (simp add: onPingTimer_def quiet_handleError)

lemma quiet_onWrite: "quiet L s \<Longrightarrow> up_or_down s \<Longrightarrow> quiet L (onWrite gen io s)"
  using quiet_handleError [of L "s\<lparr>writeInFlight := False\<rparr>" "generation s"] quiet_pump [of L "s\<lparr>writeInFlight := False\<rparr>" io]
  by (simp add: onWrite_def Let_def)

lemma quiet_closeByUser: "quiet L s \<Longrightarrow> quiet L (closeByUser io s)"
  using quiet_note [of "CloseFrame (generation s)" L "s\<lparr>userClosed := True\<rparr>"]
    quiet_note [of "SocketClosed (generation s)" L "s\<lparr>userClosed := True\<rparr>"]
  by (simp add: closeByUser_def Let_def)

lemma quiet_takeBack:
  assumes "quiet L s" "up_or_down s" shows "quiet L (takeBack L io t s)"
proof -
  have "quiet L (s\<lparr>outboundQueue := outboundQueue s @ [dump (wl_json L) u]\<rparr>)" if "toUnsubscribe (wl_json L) t = Inr u" for u
    using assms(1) that by (intro quiet_queue) (auto simp: control_frame_def)
  then show ?thesis using assms by (auto simp: takeBack_def quiet_pump split: sum.split)
qed

lemma quiet_dialling:
  assumes "quiet L s" "unsaid s"
  shows "quiet L (onResolve gen io s)" "quiet L (onConnect gen io s)" "quiet L (onSSLHandshake gen io s)"
proof -
  have "quiet L (s\<lparr>hostHeader := h, armed := armed s @ [q]\<rparr>)" for h q
    using quiet_arm_pre [of L "s\<lparr>hostHeader := h\<rparr>" q] assms by (simp add: unsaid_def)
  moreover have "quiet L (s\<lparr>armed := armed s @ [q], did := did s @ [Upgrade gen h p]\<rparr>)" for q h p
    using quiet_note [of "Upgrade gen h p" L "s\<lparr>armed := armed s @ [q]\<rparr>"] quiet_arm_pre [OF assms] by simp
  ultimately show "quiet L (onResolve gen io s)" "quiet L (onConnect gen io s)" "quiet L (onSSLHandshake gen io s)"
    using quiet_arm_pre [OF assms] quiet_handleError [OF assms(1)]
    by (simp_all add: onResolve_def onConnect_def onSSLHandshake_def)
qed

lemma quiet_onReconnectTimer: "quiet L s \<Longrightarrow> 0 \<le> generation s \<Longrightarrow> quiet L (onReconnectTimer gen io s)"
  using quiet_startConnect [of L "s\<lparr>reconnectScheduled := False\<rparr>"] by (simp add: onReconnectTimer_def Let_def)

subsection \<open>Every step keeps it\<close>

lemma in_order_up: "in_order s \<Longrightarrow> up_or_down s"
  by (auto simp: in_order_def once_def up_or_down_def sound_def later_def order_le_less)

lemma quiet_complete:
  assumes "in_order s" "quiet L s" "q \<in> set (armed s)"
  shows "quiet L (complete L io q (taken q s))"
proof -
  have u: "up_or_down (taken q s)" using in_order_up [OF assms(1)] dialling_taken by (auto simp: up_or_down_def)
  have g: "0 < generation s" using assms(1,3) by (auto simp: in_order_def once_def order_le_less)
  have snd: "sound s" "held s" using assms(1) by (auto simp: in_order_def)
  note t = quiet_taken [OF assms(2), of q]
  have pre: "unsaid (taken q s)" "\<not> dialling (taken q s)" "outboundQueue (taken q s) = []"
    if "is_pre q" "gen_of q = generation s"
  proof -
    have d: "dialling s" using that assms(3) by (auto simp: dialling_def)
    then show "unsaid (taken q s)" using assms(2) by (simp add: quiet_def unsaid_def taken_def)
    show "\<not> dialling (taken q s)" using pre_taken(1) [OF snd(1) assms(3)] that by simp
    have "\<not> connected s" using d snd(1) by (auto simp: sound_def later_def)
    then show "outboundQueue (taken q s) = []" using snd(2) by (simp add: held_def taken_def)
  qed
  show ?thesis
    using t u g pre
    by (cases q) (auto simp: current_def quiet_dialling quiet_onHandshake quiet_onRead quiet_onWrite quiet_onPingTimer
        quiet_onReconnectTimer)
qed

lemma quiet_job:
  assumes "in_order s" "quiet L s" shows "quiet L (do_job L io j (s\<lparr>posted := js\<rparr>))"
proof -
  have "up_or_down (s\<lparr>posted := js\<rparr>)" "0 \<le> generation s"
    using in_order_up [OF assms(1)] assms(1) by (auto simp: in_order_def once_def)
  then show ?thesis using assms(2)
    by (cases j) (auto simp: quiet_flushTopics quiet_takeBack quiet_startConnect quiet_closeByUser)
qed

lemma quiet_topics: "quiet L (addTopic t s) = quiet L s" "quiet L (snd (removeTopic t s)) = quiet L s"
  by (simp_all add: addTopic_def removeTopic_def Let_def split: option.split)

lemma quiet_step:
  assumes "in_order s" "orderly s e" "ws_step L s e s'" "quiet L s"
  shows "quiet L s'"
  using assms(3)
proof (cases rule: ws_step.cases)
  case (credentials k c)
  have "\<not> connected s" using assms credentials by (auto simp: in_order_def once_def)
  then show ?thesis using assms(4) credentials
    by (simp add: session_setCredentials_def quiet_def unsaid_def guarded_def dialling_def)
next
  case (job j js io)
  then show ?thesis using quiet_job assms by simp
next
  case (completion q io)
  then show ?thesis using quiet_complete assms by (simp add: taken_def)
next
  case (running h p pt t cb)
  then show ?thesis using assms(4) by (simp add: session_run_def Let_def quiet_topics)
qed (use assms(4) in \<open>simp_all add: calls quiet_topics onPongFrame_def\<close>)

lemma quiet_orderly: "ws_orderly L s \<Longrightarrow> quiet L s"
proof (induction rule: ws_orderly.induct)
  case fresh
  then show ?case by (simp add: quiet_defs session_default_def)
next
  case (step s e s')
  then show ?case using quiet_step in_order_orderly by blast
qed


definition login_events :: "event list" where
  "login_events = [SetCredentials ''key'' ''secret''] @ start_events (demo_topic ''a'') @
     [Done (Write 1) fine, Done (Read 1) (fine\<lparr>frame := ''ack''\<rparr>), Done (Read 1) broken,
      Done (ReconnectWait 1) fine] @ come_up_events 2"


end
