(* ===== verification/Ws_Client.thy ===== *)
theory Ws_Client
  imports Ws_Orderly
begin

section \<open>The WebSocket client\<close>

text \<open>
  \<open>mexc_futures_ws_client.cpp\<close>: the client owns at most one session, created by the first \<open>connect\<close> or
  \<open>subscribe\<close>, and the thread that runs the executor. Its operations hold the lock of the client,
  so each is one step.
  \<^item> \<open>cl_running\<close> is \<open>m_isRunning\<close>; it is cleared when the executor has run out of work (\<open>io_thread_ends\<close>).
  \<^item> The session is a state of the session model. \<open>client_session_reach\<close> shows that the client only
    brings it into states that model can reach, so that every property of the session holds of
    the session of a client; a client that is never told to connect uses it in the orderly way.
  \<^item> The client implements the contract \<open>topic_store\<close> as well, over its session.
\<close>

record client =
  cl_host :: string
  cl_port :: string
  cl_path :: string
  cl_apiKey :: string
  cl_apiSecret :: string
  cl_session :: "session option"
  cl_running :: bool
  cl_dataCB :: bool

definition client_default :: client where
  "client_default = \<lparr>cl_host = ''contract.mexc.com'', cl_port = ''443'', cl_path = ''/edge'', cl_apiKey = [],
     cl_apiSecret = [], cl_session = None, cl_running = False, cl_dataCB = False\<rparr>"

definition ensureSession :: "client \<Rightarrow> session \<times> client" where
  "ensureSession c = (case cl_session c of
      Some s \<Rightarrow> (s, c)
    | None \<Rightarrow>
       let s = session_default;
           s = (if cl_apiKey c \<noteq> [] \<and> cl_apiSecret c \<noteq> [] then session_setCredentials (cl_apiKey c) (cl_apiSecret c) s else s)
       in (s, c\<lparr>cl_session := Some s\<rparr>))"

definition client_run :: "client \<Rightarrow> client" where
  "client_run c = (if cl_running c then c else c\<lparr>cl_running := True\<rparr>)"

definition io_thread_ends :: "client \<Rightarrow> client" where
  "io_thread_ends c = c\<lparr>cl_running := False\<rparr>"

definition client_setEndpoint :: "string \<Rightarrow> string \<Rightarrow> string \<Rightarrow> client \<Rightarrow> client" where
  "client_setEndpoint h p pt c = c\<lparr>cl_host := h, cl_port := p, cl_path := pt\<rparr>"

definition client_setCredentials :: "string \<Rightarrow> string \<Rightarrow> client \<Rightarrow> client" where
  "client_setCredentials k s c = c\<lparr>cl_apiKey := k, cl_apiSecret := s\<rparr>"

definition client_setDataEventCallback :: "client \<Rightarrow> client" where
  "client_setDataEventCallback c = c\<lparr>cl_dataCB := True\<rparr>"

definition client_connect :: "client \<Rightarrow> client" where
  "client_connect c = (case ensureSession c of (s, c) \<Rightarrow>
     client_run (c\<lparr>cl_session := Some (session_run (cl_host c) (cl_port c) (cl_path c) JNull (cl_dataCB c) s)\<rparr>))"

definition client_subscribe :: "json \<Rightarrow> client \<Rightarrow> client" where
  "client_subscribe request c =
    (let fresh = (cl_session c = None) in
     case ensureSession c of (s, c) \<Rightarrow>
       client_run (c\<lparr>cl_session := Some
         (if fresh then session_run (cl_host c) (cl_port c) (cl_path c) request (cl_dataCB c) s
          else session_subscribe request s)\<rparr>))"

definition client_unsubscribe :: "json \<Rightarrow> client \<Rightarrow> client" where
  "client_unsubscribe request c = c\<lparr>cl_session := map_option (session_unsubscribe request) (cl_session c)\<rparr>"

definition client_isSubscribed :: "json \<Rightarrow> client \<Rightarrow> bool" where
  "client_isSubscribed request c = (case cl_session c of Some s \<Rightarrow> isSubscribed request s | None \<Rightarrow> False)"

definition client_isAuthenticated :: "client \<Rightarrow> bool" where
  "client_isAuthenticated c = (case cl_session c of Some s \<Rightarrow> session_isAuthenticated s | None \<Rightarrow> False)"

subsection \<open>Runs of a client\<close>

text \<open>Steps of the client: its operations, the end of its thread, and what its session does on the strand.\<close>

datatype client_event =
    CSetup "client \<Rightarrow> client"
  | CConnect
  | CSubscribe json
  | CUnsubscribe json
  | CThreadEnds
  | CSession event

fun on_strand :: "event \<Rightarrow> bool" where
  "on_strand (RunJob io) = True"
| "on_strand (Done q io) = True"
| "on_strand (PongFrame io) = True"
| "on_strand e = False"

inductive setup_op :: "(client \<Rightarrow> client) \<Rightarrow> bool" where
  "setup_op (client_setEndpoint h p pt)"
| "setup_op (client_setCredentials k s)"
| "setup_op client_setDataEventCallback"

inductive client_step :: "ws_lib \<Rightarrow> client \<Rightarrow> client_event \<Rightarrow> client \<Rightarrow> bool" for L where
  configuring: "setup_op f \<Longrightarrow> client_step L c (CSetup f) (f c)"
| connecting: "client_step L c CConnect (client_connect c)"
| subscribing: "client_step L c (CSubscribe t) (client_subscribe t c)"
| unsubscribing: "client_step L c (CUnsubscribe t) (client_unsubscribe t c)"
| thread_ends: "client_step L c CThreadEnds (io_thread_ends c)"
| strand: "cl_session c = Some s \<Longrightarrow> on_strand e \<Longrightarrow> ws_step L s e s' \<Longrightarrow>
    client_step L c (CSession e) (c\<lparr>cl_session := Some s'\<rparr>)"

inductive client_reach :: "ws_lib \<Rightarrow> client \<Rightarrow> bool" for L where
  fresh: "client_reach L client_default"
| step: "client_reach L c \<Longrightarrow> client_step L c e c' \<Longrightarrow> client_reach L c'"

text \<open>A client that only subscribes, as that of the public stream manager; the reconnect timer fails
  only when it was cancelled.\<close>

inductive subscriber_reach :: "ws_lib \<Rightarrow> client \<Rightarrow> bool" for L where
  fresh: "subscriber_reach L client_default"
| step: "subscriber_reach L c \<Longrightarrow> client_step L c e c' \<Longrightarrow> e \<noteq> CConnect \<Longrightarrow>
    (\<forall>s ev. e = CSession ev \<and> cl_session c = Some s \<longrightarrow> orderly s ev) \<Longrightarrow> subscriber_reach L c'"

lemma client_run_session [simp]: "cl_session (client_run c) = cl_session c"
  by (simp add: client_run_def)

lemma setup_keeps_session: "setup_op f \<Longrightarrow> cl_session (f c) = cl_session c"
  by (auto simp: client_setEndpoint_def client_setCredentials_def client_setDataEventCallback_def elim: setup_op.cases)

lemma ensureSession_cases:
  "ensureSession c = (s, c') \<Longrightarrow> cl_session c' = Some s \<and> (cl_session c = Some s \<or> cl_session c = None \<and>
     (s = session_default \<or> (\<exists>k x. s = session_setCredentials k x session_default)))"
  by (auto simp: ensureSession_def Let_def split: option.splits if_splits)

lemma ensureSession_reach:
  assumes "ensureSession c = (s, c')" "\<And>s. cl_session c = Some s \<Longrightarrow> ws_reach L s"
  shows "ws_reach L s"
  using ensureSession_cases [OF assms(1)] assms(2)
  by (auto intro: ws_reach.fresh ws_reach.step [OF ws_reach.fresh ws_step.credentials])

lemma client_session_reach: "client_reach L c \<Longrightarrow> cl_session c = Some s \<Longrightarrow> ws_reach L s"
proof (induction arbitrary: s rule: client_reach.induct)
  case (step c e c')
  note IH = step.IH
  show ?case using step.hyps(2)
  proof (cases rule: client_step.cases)
    case (configuring f)
    then show ?thesis using step.prems IH by (simp add: setup_keeps_session)
  next
    case connecting
    obtain t d where t: "ensureSession c = (t, d)" by fastforce
    then show ?thesis using connecting step.prems ensureSession_reach [OF t IH]
      by (auto simp: client_connect_def intro: ws_reach.step [OF _ ws_step.running])
  next
    case (subscribing r)
    obtain t d where t: "ensureSession c = (t, d)" by fastforce
    then show ?thesis using subscribing step.prems ensureSession_reach [OF t IH]
      by (auto simp: client_subscribe_def Let_def intro: ws_reach.step [OF _ ws_step.running] ws_reach.step [OF _ ws_step.subscribing] split: if_splits)
  next
    case (unsubscribing r)
    then show ?thesis using step.prems IH
      by (auto simp: client_unsubscribe_def intro: ws_reach.step [OF _ ws_step.unsubscribing])
  next
    case thread_ends
    then show ?thesis using step.prems IH by (simp add: io_thread_ends_def)
  next
    case (strand t ev t')
    then show ?thesis using step.prems IH by (auto intro: ws_reach.step)
  qed
qed (simp add: client_default_def)

subsection \<open>A client that only subscribes runs its session once\<close>

lemma unstarted [simp]: "generation session_default = 0" "posted session_default = []"
  "generation (session_setCredentials k x s) = generation s" "posted (session_setCredentials k x s) = posted s"
  by (simp_all add: session_default_def session_setCredentials_def)

lemma orderly_credentials: "ws_orderly L (session_setCredentials k x session_default)"
  by (rule ws_orderly.step [OF ws_orderly.fresh _ ws_step.credentials]) simp

lemma orderly_fresh: "ensureSession c = (s, c') \<Longrightarrow> cl_session c = None \<Longrightarrow>
    ws_orderly L s \<and> generation s = 0 \<and> Start \<notin> set (posted s)"
  using ensureSession_cases [of c s c'] by (auto intro: ws_orderly.fresh orderly_credentials)

lemma subscriber_orderly: "subscriber_reach L c \<Longrightarrow> cl_session c = Some s \<Longrightarrow> ws_orderly L s"
proof (induction arbitrary: s rule: subscriber_reach.induct)
  case (step c e c')
  note IH = step.IH
  show ?case using step.hyps(2)
  proof (cases rule: client_step.cases)
    case (configuring f)
    then show ?thesis using step.prems IH by (simp add: setup_keeps_session)
  next
    case (subscribing r)
    obtain t d where t: "ensureSession c = (t, d)" by fastforce
    show ?thesis
    proof (cases "cl_session c")
      case None
      have "ws_orderly L (session_run h p pt r cb t)" for h p pt cb
        using orderly_fresh [OF t None, of L] ws_orderly.step [OF _ _ ws_step.running] by auto
      then show ?thesis using subscribing step.prems t None by (auto simp: client_subscribe_def Let_def)
    next
      case (Some u)
      then have "t = u" using t ensureSession_cases [OF t] by auto
      then have "ws_orderly L (session_subscribe r t)"
        using ws_orderly.step [OF IH [OF Some] _ ws_step.subscribing] by simp
      then show ?thesis using subscribing step.prems t Some by (auto simp: client_subscribe_def Let_def)
    qed
  next
    case (unsubscribing r)
    then show ?thesis using step.prems IH ws_orderly.step [OF _ _ ws_step.unsubscribing]
      by (auto simp: client_unsubscribe_def)
  next
    case thread_ends
    then show ?thesis using step.prems IH by (simp add: io_thread_ends_def)
  next
    case (strand t ev t')
    then show ?thesis using step.prems step.hyps(4) IH by (auto intro: ws_orderly.step)
  qed (use step.hyps(3) in simp)
qed (simp add: client_default_def)

text \<open>
  C26. The session of a client that only subscribes, as the public stream manager does, can not
  wedge: while it is not closed it always waits for its next attempt, its connection or its next
  message, and a scheduled reconnect has its timer.
\<close>

theorem subscriber_never_wedges:
  assumes "subscriber_reach L c" "cl_session c = Some s" "0 < generation s" "\<not> userClosed s"
  shows "(reconnectScheduled s \<longleftrightarrow> ReconnectWait (generation s) \<in> set (armed s)) \<and>
    (\<exists>q \<in> set (armed s). gen_of q = generation s \<and> (in_chain q \<or> q = ReconnectWait (generation s)))"
proof -
  have o: "ws_orderly L s" using subscriber_orderly [OF assms(1,2)] .
  have "\<exists>q \<in> set (armed s). gen_of q = generation s \<and>
    (if reconnectScheduled s then q = ReconnectWait (generation s) else is_pre q \<or> connected s \<and> q = Read (generation s))"
    using in_order_orderly [OF o] assms(3,4)
    by (auto simp: in_order_def held_def alive_def waits_def dialling_def intro: bexI [of _ "ReconnectWait (generation s)"]
        bexI [of _ "Read (generation s)"])
  then have "\<exists>q \<in> set (armed s). gen_of q = generation s \<and> (in_chain q \<or> q = ReconnectWait (generation s))"
    by (force split: if_splits)
  moreover have "reconnectScheduled s \<longleftrightarrow> ReconnectWait (generation s) \<in> set (armed s)"
    using in_order_orderly [OF o] by (simp add: in_order_def held_def waits_def)
  ultimately show ?thesis by blast
qed

theorem subscriber_never_wedges_witness:
  "\<exists>c s. subscriber_reach demo_lib c \<and> cl_session c = Some s \<and> generation s = 1 \<and> (\<exists>q \<in> set (armed s). gen_of q = 1)"
proof -
  define c1 where "c1 = client_subscribe (demo_topic ''a'') client_default"
  have r1: "subscriber_reach demo_lib c1" unfolding c1_def
    by (rule subscriber_reach.step [OF subscriber_reach.fresh client_step.subscribing]) simp_all
  obtain s1 where s1: "cl_session c1 = Some s1" "posted s1 = [Start]" "generation s1 = 0" "\<not> userClosed s1"
    by (simp add: c1_def client_subscribe_def ensureSession_def client_default_def client_run_def session_ops session_default_def demo_topic_def Let_def)
  define s2 where "s2 = startConnect (s1\<lparr>posted := []\<rparr>)"
  have st: "ws_step demo_lib s1 (RunJob fine) s2" using ws_step.job [of s1 Start "[]" demo_lib fine] s1(2) by (simp add: s2_def)
  have "client_step demo_lib c1 (CSession (RunJob fine)) (c1\<lparr>cl_session := Some s2\<rparr>)"
    by (rule client_step.strand [OF s1(1) _ st]) simp
  then have r2: "subscriber_reach demo_lib (c1\<lparr>cl_session := Some s2\<rparr>)"
    by (rule subscriber_reach.step [OF r1]) simp_all
  have g: "generation s2 = 1" "0 < generation s2" "\<not> userClosed s2" using s1 by (simp_all add: s2_def startConnect_def Let_def)
  have c: "cl_session (c1\<lparr>cl_session := Some s2\<rparr>) = Some s2" by simp
  have "\<exists>q \<in> set (armed s2). gen_of q = 1" using subscriber_never_wedges [OF r2 c g(2,3)] g(1) by metis
  then show ?thesis using r2 c g(1) by blast
qed

subsection \<open>The topics of a client\<close>

text \<open>\<open>client_wants L T c\<close>: the client can come into state \<open>c\<close> by calls that leave the topics \<open>T\<close> asked for.\<close>

definition topic_ok :: "json \<Rightarrow> bool" where
  "topic_ok t \<longleftrightarrow> exact t \<and> \<not> jempty t"

inductive client_wants :: "ws_lib \<Rightarrow> json set \<Rightarrow> client \<Rightarrow> bool" for L where
  fresh: "client_wants L {} client_default"
| want: "client_wants L T c \<Longrightarrow> topic_ok t \<Longrightarrow> client_wants L (insert t T) (client_subscribe t c)"
| drop: "client_wants L T c \<Longrightarrow> topic_ok t \<Longrightarrow> client_wants L (T - {t}) (client_unsubscribe t c)"
| other: "client_wants L T c \<Longrightarrow> client_step L c e c' \<Longrightarrow> (\<forall>t. e \<noteq> CSubscribe t \<and> e \<noteq> CUnsubscribe t) \<Longrightarrow>
    client_wants L T c'"

definition client_ok :: "client \<Rightarrow> bool" where
  "client_ok c \<longleftrightarrow> (\<forall>s. cl_session c = Some s \<longrightarrow> store_ok s)"

lemma store_default [simp]: "store_ok session_default" "topics session_default = []"
  by (simp_all add: store_ok_def topics_def session_default_def)

lemma store_ok_topics: "topics s' = topics s \<Longrightarrow> store_ok s' = store_ok s"
  by (simp add: store_ok_def)

lemma topics_calls:
  "topics (session_run h p pt JNull cb s) = topics s"
  "topics (session_setCredentials k x s) = topics s"
  "\<not> jempty t \<Longrightarrow> topics (session_run h p pt t cb s) = topics (addTopic t s)"
  "topics (session_subscribe t s) = topics (addTopic t s)"
  "topics (session_unsubscribe t s) = topics (snd (removeTopic t s))"
  by (auto simp: calls topics_def addTopic_def)

lemma client_subscribe_session:
  assumes "client_ok c" "topic_ok t" "cl_session (client_subscribe t c) = Some s'"
  shows "\<exists>s. store_ok s \<and> topics s' = topics (addTopic t s) \<and>
    topics s = (case cl_session c of None \<Rightarrow> [] | Some s \<Rightarrow> topics s)"
proof -
  obtain s d where e: "ensureSession c = (s, d)" by fastforce
  have "topics s = (case cl_session c of None \<Rightarrow> [] | Some s \<Rightarrow> topics s)"
    using ensureSession_cases [OF e] by (auto simp: topics_calls)
  moreover have "store_ok s" using ensureSession_cases [OF e] assms(1) store_ok_topics [OF topics_calls(2)]
    by (auto simp: client_ok_def)
  moreover have "topics s' = topics (addTopic t s)" using assms(2,3) e
    by (auto simp: client_subscribe_def topics_calls topic_ok_def split: if_splits)
  ultimately show ?thesis by blast
qed

definition client_topics :: "client \<Rightarrow> json list" where
  "client_topics c = (case cl_session c of None \<Rightarrow> [] | Some s \<Rightarrow> topics s)"

lemma client_isSubscribed_topics:
  "client_ok c \<Longrightarrow> exact t \<Longrightarrow> client_isSubscribed t c \<longleftrightarrow> t \<in> set (client_topics c)"
  by (auto simp: client_isSubscribed_def client_topics_def client_ok_def isSubscribed_topics split: option.splits)

lemma subscribe_session: "\<exists>s. cl_session (client_subscribe t c) = Some s"
  by (simp add: client_subscribe_def Let_def split: prod.split)

lemma client_subscribe_topics:
  assumes "client_ok c" "topic_ok t"
  shows "client_ok (client_subscribe t c) \<and> set (client_topics (client_subscribe t c)) = insert t (set (client_topics c))"
proof -
  obtain s' where s': "cl_session (client_subscribe t c) = Some s'" using subscribe_session by blast
  obtain s where s: "store_ok s" "topics s' = topics (addTopic t s)" "topics s = client_topics c"
    using client_subscribe_session [OF assms s'] by (auto simp: client_topics_def)
  have x: "exact t" using assms(2) by (simp add: topic_ok_def)
  have "store_ok s'" using store.inv_add [OF x s(1)] store_ok_topics [OF s(2)] by simp
  moreover have "set (topics s') = insert t (set (topics s))" using topics_addTopic [OF s(1) x] s(2) by auto
  ultimately show ?thesis using s' s(3) by (simp add: client_ok_def client_topics_def)
qed

lemma client_unsubscribe_topics:
  assumes "client_ok c" "topic_ok t"
  shows "client_ok (client_unsubscribe t c) \<and> set (client_topics (client_unsubscribe t c)) = set (client_topics c) - {t}"
proof (cases "cl_session c")
  case (Some s)
  have x: "exact t" and s: "store_ok s" using assms Some by (simp_all add: topic_ok_def client_ok_def)
  have "store_ok (session_unsubscribe t s)" using store.inv_remove [OF x s] store_ok_topics [OF topics_calls(5)] by simp
  then show ?thesis using Some topics_removeTopic [OF s x] topics_calls(5) [of t s]
    by (simp add: client_ok_def client_topics_def client_unsubscribe_def)
qed (simp add: client_ok_def client_topics_def client_unsubscribe_def)

lemma client_other_topics:
  assumes "client_ok c" "client_step L c e c'" "\<forall>t. e \<noteq> CSubscribe t \<and> e \<noteq> CUnsubscribe t"
  shows "client_ok c' \<and> client_topics c' = client_topics c"
  using assms(2)
proof (cases rule: client_step.cases)
  case (configuring f)
  then show ?thesis using assms(1) by (simp add: client_ok_def client_topics_def setup_keeps_session)
next
  case connecting
  obtain s d where e: "ensureSession c = (s, d)" by fastforce
  have "topics s = client_topics c" "store_ok s"
    using ensureSession_cases [OF e] assms(1) store_ok_topics [OF topics_calls(2)]
    by (auto simp: topics_calls client_topics_def client_ok_def)
  then show ?thesis using connecting e store_ok_topics [OF topics_calls(1)]
    by (auto simp: client_connect_def client_ok_def client_topics_def topics_calls)
next
  case thread_ends
  then show ?thesis using assms(1) by (simp add: io_thread_ends_def client_ok_def client_topics_def)
next
  case (strand s ev s')
  then have "store_ok s" "topic_requests ev = []" using assms(1) by (auto simp: client_ok_def elim: on_strand.elims)
  then have t: "topics s' = topics s" using topics_step [OF strand(5)] by simp
  have "store_ok s'" using store_ok_topics [OF t] \<open>store_ok s\<close> by simp
  then show ?thesis using strand t by (simp add: client_ok_def client_topics_def)
qed (use assms(3) in auto)

interpretation cl: topic_store client_subscribe client_unsubscribe client_isSubscribed topic_ok client_ok
proof
  fix t u :: json and c :: client
  assume t: "topic_ok t" and c: "client_ok c"
  show 1: "client_ok (client_subscribe t c)" "client_ok (client_unsubscribe t c)"
    using client_subscribe_topics [OF c t] client_unsubscribe_topics [OF c t] by simp_all
  assume "topic_ok u"
  then have u: "exact u" by (simp add: topic_ok_def)
  show "client_isSubscribed u (client_subscribe t c) \<longleftrightarrow> u = t \<or> client_isSubscribed u c"
    "client_isSubscribed u (client_unsubscribe t c) \<longleftrightarrow> u \<noteq> t \<and> client_isSubscribed u c"
    using client_subscribe_topics [OF c t] client_unsubscribe_topics [OF c t] 1 c u
    by (auto simp: client_isSubscribed_topics)
qed

text \<open>
  C27. Through the whole stack of client and session, whatever the network does: a topic is
  reported as subscribed exactly when it was asked for and not dropped since.
\<close>

theorem client_topics_as_requested:
  assumes "client_wants L T c" "topic_ok t"
  shows "client_isSubscribed t c \<longleftrightarrow> t \<in> T"
proof -
  have "client_ok c \<and> (\<forall>u. topic_ok u \<longrightarrow> (client_isSubscribed u c \<longleftrightarrow> u \<in> T))" using assms(1)
  proof (induction rule: client_wants.induct)
    case fresh
    then show ?case by (simp add: client_ok_def client_isSubscribed_def client_default_def)
  next
    case (want T c t)
    then show ?case using cl.inv_add [OF want.hyps(2)] cl.mem_add [OF want.hyps(2)] by auto
  next
    case (drop T c t)
    then show ?case using cl.inv_remove [OF drop.hyps(2)] cl.mem_remove [OF drop.hyps(2)] by auto
  next
    case (other T c e c')
    then have "client_ok c'" "client_topics c' = client_topics c" using client_other_topics by blast+
    then show ?case using other.IH client_isSubscribed_topics [of c] client_isSubscribed_topics [of c']
      by (auto simp: topic_ok_def)
  qed
  then show ?thesis using assms(2) by blast
qed

theorem client_topics_as_requested_witness:
  "client_isSubscribed (demo_topic ''b'') (client_subscribe (demo_topic ''b'') (client_unsubscribe (demo_topic ''a'')
     (client_subscribe (demo_topic ''a'') client_default))) \<and>
   \<not> client_isSubscribed (demo_topic ''a'') (client_subscribe (demo_topic ''b'') (client_unsubscribe (demo_topic ''a'')
     (client_subscribe (demo_topic ''a'') client_default)))"
proof -
  have ok: "topic_ok (demo_topic ''a'')" "topic_ok (demo_topic ''b'')" by (simp_all add: topic_ok_def demo_topic_def)
  have "client_wants demo_lib (insert (demo_topic ''b'') (insert (demo_topic ''a'') {} - {demo_topic ''a''}))
     (client_subscribe (demo_topic ''b'') (client_unsubscribe (demo_topic ''a'') (client_subscribe (demo_topic ''a'') client_default)))"
    by (intro client_wants.intros ok)
  from client_topics_as_requested [OF this ok(1)] client_topics_as_requested [OF this ok(2)] show ?thesis
    by (simp add: demo_topic_def)
qed

end
