(* ===== verification/Stream_Managers.thy ===== *)
theory Stream_Managers
  imports Ws_Client
begin

section \<open>The stream managers\<close>

text \<open>
  \<open>mexc_ws_stream_manager.cpp\<close> and \<open>mexc_ws_private_stream_manager.cpp\<close>: what the data callbacks of
  the two managers do with an event, the subscriptions the public one makes, and the reads of its caches.
  \<^item> The caches are maps from the symbol (and the interval) to the last event.
  \<^item> \<open>on_data_event\<close> returns the ticker that is handed to the update callback, if any. A reader that
    throws half way through an update leaves the cached ticker as far as it was read.
  \<^item> \<open>readEventTicker\<close> and \<open>readEventCandlestick\<close> look into a cache that other threads fill: the
    snapshots the tries see, and the timeout they see, are arguments.
  \<^item> \<open>dispatch\<close> hands the items of a personal push to its callback, and skips those that do not parse.
  \<^item> Logging is left out, and with it that the public manager throws when no log callback is set.
\<close>

subsection \<open>The public stream manager\<close>

record stream_manager =
  sm_client :: client
  sm_timeout :: int
  tickers :: "string \<Rightarrow> EventTicker option"
  candlesticks :: "string \<Rightarrow> (CandleInterval \<Rightarrow> EventCandlestick option) option"
  sm_tickerCB :: bool

definition stream_manager_default :: stream_manager where
  "stream_manager_default = \<lparr>sm_client = client_setDataEventCallback client_default, sm_timeout = 5,
     tickers = (\<lambda>_. None), candlesticks = (\<lambda>_. None), sm_tickerCB = False\<rparr>"

definition ticker_event :: "jlib \<Rightarrow> int \<Rightarrow> Event \<Rightarrow> stream_manager \<Rightarrow> EventTicker option \<times> stream_manager" where
  "ticker_event L nowMs event m =
    (case tickers m (ev_symbol event) of
       None \<Rightarrow>
         (case EventTicker_fromJson L (ev_data event) EventTicker_default of
            (Some e, t) \<Rightarrow> (None, m)
          | (None, t) \<Rightarrow>
              let t = t\<lparr>et_symbol := ev_symbol event, et_receivedTimestamp := nowMs\<rparr>
              in (Some t, m\<lparr>tickers := (tickers m)(ev_symbol event \<mapsto> t)\<rparr>))
     | Some cached \<Rightarrow>
         (case EventTicker_fromJson L (ev_data event) cached of
            (Some e, t) \<Rightarrow> (None, m\<lparr>tickers := (tickers m)(ev_symbol event \<mapsto> t)\<rparr>)
          | (None, t) \<Rightarrow>
              let t = t\<lparr>et_symbol := ev_symbol event, et_receivedTimestamp := nowMs\<rparr>
              in (Some t, m\<lparr>tickers := (tickers m)(ev_symbol event \<mapsto> t)\<rparr>)))"

definition kline_event :: "jlib \<Rightarrow> Event \<Rightarrow> stream_manager \<Rightarrow> stream_manager" where
  "kline_event L event m =
    (case fresh (EventCandlestick_fromJson L (ev_data event)) EventCandlestick_default of
       Inl e \<Rightarrow> m
     | Inr k \<Rightarrow>
         let byInterval = (case candlesticks m (ev_symbol event) of None \<Rightarrow> (\<lambda>_. None) | Some f \<Rightarrow> f)
         in m\<lparr>candlesticks := (candlesticks m)(ev_symbol event \<mapsto> byInterval(ek_interval k \<mapsto> k))\<rparr>)"

definition on_data_event :: "jlib \<Rightarrow> int \<Rightarrow> Event \<Rightarrow> stream_manager \<Rightarrow> EventTicker option \<times> stream_manager" where
  "on_data_event L nowMs event m =
    (if str_has (ev_channel event) ''push.ticker'' then
       (case ticker_event L nowMs event m of (merged, m) \<Rightarrow> (if sm_tickerCB m then merged else None, m))
     else if str_has (ev_channel event) ''push.kline'' then (None, kline_event L event m)
     else (None, m))"

definition ticker_request :: "string \<Rightarrow> json" where
  "ticker_request pair = WSSubscription_toJson
     \<lparr>ws_method = ''sub.ticker'', ws_parameters = WSSubscriptionParameters_default\<lparr>sp_symbol := pair\<rparr>\<rparr>"

definition subscribeTickerStream :: "string \<Rightarrow> stream_manager \<Rightarrow> stream_manager" where
  "subscribeTickerStream pair m =
    (let request = ticker_request pair;
         c = (if client_isSubscribed request (sm_client m) then sm_client m
              else client_subscribe request (sm_client m))
     in m\<lparr>sm_client := client_run c\<rparr>)"

definition unsubscribeTickerStream :: "string \<Rightarrow> stream_manager \<Rightarrow> stream_manager" where
  "unsubscribeTickerStream pair m =
     m\<lparr>sm_client := client_unsubscribe (ticker_request pair) (sm_client m),
       tickers := (tickers m)(pair := None)\<rparr>"

text \<open>\<open>enum_name\<close> of a value without an enumerator is the empty string.\<close>

definition kline_request :: "string \<Rightarrow> CandleInterval \<Rightarrow> json" where
  "kline_request pair interval = WSSubscription_toJson
     \<lparr>ws_method = ''sub.kline'', ws_parameters = WSSubscriptionParameters_default\<lparr>sp_symbol := pair,
       sp_interval := (case CandleInterval_name interval of Some n \<Rightarrow> n | None \<Rightarrow> [])\<rparr>\<rparr>"

definition subscribeCandlestickStream :: "string \<Rightarrow> CandleInterval \<Rightarrow> stream_manager \<Rightarrow> stream_manager" where
  "subscribeCandlestickStream pair interval m =
    (let request = kline_request pair interval;
         c = (if client_isSubscribed request (sm_client m) then sm_client m
              else client_subscribe request (sm_client m))
     in m\<lparr>sm_client := client_run c\<rparr>)"

definition setTickerUpdateCallback :: "stream_manager \<Rightarrow> stream_manager" where
  "setTickerUpdateCallback m = m\<lparr>sm_tickerCB := True\<rparr>"

definition setTimeout :: "int \<Rightarrow> stream_manager \<Rightarrow> stream_manager" where
  "setTimeout seconds m = m\<lparr>sm_timeout := seconds\<rparr>"

definition timeout :: "stream_manager \<Rightarrow> int" where
  "timeout m = sm_timeout m"

subsection \<open>Reading the caches\<close>

text \<open>\<open>static_cast<int>\<close> of a double truncates.\<close>

fun int_of_double :: "flt \<Rightarrow> int" where
  "int_of_double (Fin x) = (if 0 \<le> x then \<lfloor>x\<rfloor> else - \<lfloor>- x\<rfloor>)"
| "int_of_double a = 0"

definition maxNumTries :: "int \<Rightarrow> int" where
  "maxNumTries seconds = int_of_double (ddiv (whole seconds) (fl (1 / 100)))"

text \<open>
  The loop of the reads: \<open>look n\<close> is what the cache holds at try \<open>n\<close>, \<open>now n\<close> the timeout then. The result
  comes with the number of sleeps of 3 ms.
\<close>

function read_tries :: "(int \<Rightarrow> 'a option) \<Rightarrow> (int \<Rightarrow> int) \<Rightarrow> int \<Rightarrow> int \<Rightarrow> 'a option \<times> nat" where
  "read_tries look now maxTries numTries =
    (if numTries \<le> maxTries then
       if now numTries = 0 then (None, 0)
       else case look numTries of
         Some v \<Rightarrow> (Some v, 0)
       | None \<Rightarrow> (case read_tries look now maxTries (numTries + 1) of (r, n) \<Rightarrow> (r, Suc n))
     else (None, 0))"
  by pat_completeness auto
termination by (relation "measure (\<lambda>(look, now, maxTries, numTries). nat (maxTries + 1 - numTries))") auto

declare read_tries.simps [simp del]

definition readEventTicker ::
    "(int \<Rightarrow> string \<Rightarrow> EventTicker option) \<Rightarrow> (int \<Rightarrow> int) \<Rightarrow> string \<Rightarrow> stream_manager \<Rightarrow> EventTicker option \<times> nat" where
  "readEventTicker snapshots now pair m =
     read_tries (\<lambda>n. snapshots n pair) now (maxNumTries (sm_timeout m)) 0"

definition readEventCandlestick ::
    "(int \<Rightarrow> string \<Rightarrow> (CandleInterval \<Rightarrow> EventCandlestick option) option) \<Rightarrow> (int \<Rightarrow> int) \<Rightarrow> string \<Rightarrow>
     CandleInterval \<Rightarrow> stream_manager \<Rightarrow> EventCandlestick option \<times> nat" where
  "readEventCandlestick snapshots now pair interval m =
     read_tries (\<lambda>n. case snapshots n pair of None \<Rightarrow> None | Some f \<Rightarrow> f interval) now
       (maxNumTries (sm_timeout m)) 0"

subsection \<open>The private stream manager\<close>

record private_manager =
  pm_client :: client
  pm_orderCB :: bool
  pm_dealCB :: bool

definition private_manager_new :: "string \<Rightarrow> string \<Rightarrow> private_manager" where
  "private_manager_new key secret =
     \<lparr>pm_client = client_setCredentials key secret (client_setDataEventCallback client_default),
      pm_orderCB = False, pm_dealCB = False\<rparr>"

definition dispatch :: "(json \<Rightarrow> 'e result) \<Rightarrow> bool \<Rightarrow> Event \<Rightarrow> 'e list" where
  "dispatch fromJson cb event =
    (if \<not> cb then []
     else if is_array (ev_data event) then concat (map (\<lambda>item. case fromJson item of Inl e \<Rightarrow> [] | Inr v \<Rightarrow> [v]) (elements (ev_data event)))
     else if is_object (ev_data event) then (case fromJson (ev_data event) of Inl e \<Rightarrow> [] | Inr v \<Rightarrow> [v])
     else [])"

definition on_private_event :: "jlib \<Rightarrow> Event \<Rightarrow> private_manager \<Rightarrow> EventOrder list \<times> EventDeal list" where
  "on_private_event L event m =
    (if ev_channel event = ''push.personal.order'' then
       (dispatch (\<lambda>j. fresh (EventOrder_fromJson L j) EventOrder_default) (pm_orderCB m) event, [])
     else if ev_channel event = ''push.personal.order.deal'' then
       ([], dispatch (\<lambda>j. fresh (EventDeal_fromJson L j) EventDeal_default) (pm_dealCB m) event)
     else ([], []))"

definition private_connect :: "private_manager \<Rightarrow> private_manager" where
  "private_connect m = m\<lparr>pm_client := client_connect (pm_client m)\<rparr>"

definition private_isAuthenticated :: "private_manager \<Rightarrow> bool" where
  "private_isAuthenticated m = client_isAuthenticated (pm_client m)"

definition private_setOrderUpdateCallback :: "private_manager \<Rightarrow> private_manager" where
  "private_setOrderUpdateCallback m = m\<lparr>pm_orderCB := True\<rparr>"

definition private_setDealCallback :: "private_manager \<Rightarrow> private_manager" where
  "private_setDealCallback m = m\<lparr>pm_dealCB := True\<rparr>"

subsection \<open>The ticker cache\<close>

definition is_ticker :: "Event \<Rightarrow> bool" where
  "is_ticker e \<longleftrightarrow> str_has (ev_channel e) ''push.ticker''"

lemma on_data_event_other:
  "pair \<noteq> ev_symbol e \<or> \<not> is_ticker e \<Longrightarrow> tickers (snd (on_data_event L nowMs e m)) pair = tickers m pair"
  by (auto simp: on_data_event_def is_ticker_def ticker_event_def kline_event_def Let_def split: option.splits prod.splits sum.splits)

text \<open>
  Every ticker that the update callback gets is the one the cache holds from then on, carries the
  symbol of its event and the time it was received; a push touches no other symbol; and a push
  that does not parse calls nobody back.
\<close>

theorem ticker_callback_is_cache:
  assumes "is_ticker e" "on_data_event L nowMs e m = (cb, m')"
  shows "(case cb of
      Some t \<Rightarrow> tickers m' (ev_symbol e) = Some t \<and> et_symbol t = ev_symbol e \<and> et_receivedTimestamp t = nowMs
    | None \<Rightarrow> sm_tickerCB m \<longrightarrow>
        fst (EventTicker_fromJson L (ev_data e) (case tickers m (ev_symbol e) of None \<Rightarrow> EventTicker_default | Some t \<Rightarrow> t)) \<noteq> None) \<and>
    (\<forall>pair. pair \<noteq> ev_symbol e \<longrightarrow> tickers m' pair = tickers m pair) \<and> candlesticks m' = candlesticks m"
proof -
  have "\<forall>pair. pair \<noteq> ev_symbol e \<longrightarrow> tickers m' pair = tickers m pair"
    using on_data_event_other [of _ e L nowMs m] assms(2) by force
  moreover have "candlesticks m' = candlesticks m" using assms
    by (auto simp: on_data_event_def is_ticker_def ticker_event_def Let_def split: option.splits prod.splits)
  ultimately show ?thesis using assms
    by (auto simp: on_data_event_def is_ticker_def ticker_event_def Let_def split: option.splits prod.splits if_splits)
qed

theorem ticker_callback_is_cache_witness:
  "\<exists>t m'. on_data_event std_jlib 7 \<lparr>ev_channel = ''push.ticker'', ev_symbol = ''BTC_USDT'', ev_ts = 0,
       ev_data = JObj [(''ask1'', JFloat (Fin 2)), (''bid1'', JFloat (Fin 1))]\<rparr>
     (setTickerUpdateCallback stream_manager_default) = (Some t, m') \<and>
     tickers m' ''BTC_USDT'' = Some t \<and> et_bid1 t = Fin 1 \<and> et_receivedTimestamp t = 7"
proof -
  let ?e = "\<lparr>ev_channel = ''push.ticker'', ev_symbol = ''BTC_USDT'', ev_ts = 0,
       ev_data = JObj [(''ask1'', JFloat (Fin 2)), (''bid1'', JFloat (Fin 1))]\<rparr>"
  have "\<exists>t m'. on_data_event std_jlib 7 ?e (setTickerUpdateCallback stream_manager_default) = (Some t, m') \<and> et_bid1 t = Fin 1"
    by (simp add: on_data_event_def ticker_event_def setTickerUpdateCallback_def stream_manager_default_def
        EventTicker_fromJson_def EventTicker_default_def field_def std_jlib_simps Let_def)
  moreover have "is_ticker ?e" by (simp add: is_ticker_def)
  ultimately show ?thesis using ticker_callback_is_cache by fastforce
qed

subsection \<open>Subscriptions\<close>

lemma ticker_request_ok: "topic_ok (ticker_request pair)"
  by (simp add: topic_ok_def ticker_request_def WSSubscription_toJson_def WSSubscriptionParameters_toJson_def
      WSSubscriptionParameters_default_def Let_def)

lemma ticker_request_inj: "ticker_request p = ticker_request q \<longleftrightarrow> p = q"
  by (simp add: ticker_request_def WSSubscription_toJson_def WSSubscriptionParameters_toJson_def
      WSSubscriptionParameters_default_def Let_def)

lemma client_run_subscribed [simp]: "client_isSubscribed t (client_run c) = client_isSubscribed t c" "client_ok (client_run c) = client_ok c"
  by (simp_all add: client_isSubscribed_def client_ok_def)

text \<open>
  After subscribing the ticker of a pair its request is subscribed, however often it is called,
  and after unsubscribing it is not and no last value is kept; neither touches another pair.
\<close>

theorem ticker_subscriptions:
  assumes "client_ok (sm_client m)"
  shows "(client_isSubscribed (ticker_request q) (sm_client (subscribeTickerStream p m)) \<longleftrightarrow>
      q = p \<or> client_isSubscribed (ticker_request q) (sm_client m)) \<and>
    (client_isSubscribed (ticker_request q) (sm_client (unsubscribeTickerStream p m)) \<longleftrightarrow>
      q \<noteq> p \<and> client_isSubscribed (ticker_request q) (sm_client m)) \<and>
    tickers (unsubscribeTickerStream p m) q = (if q = p then None else tickers m q) \<and>
    client_topics (sm_client (subscribeTickerStream p (subscribeTickerStream p m))) = client_topics (sm_client (subscribeTickerStream p m))"
proof -
  have again: "client_isSubscribed (ticker_request p) (sm_client (subscribeTickerStream p m))"
    using cl.mem_add [OF ticker_request_ok ticker_request_ok assms] by (simp add: subscribeTickerStream_def Let_def)
  have "client_topics (client_run c) = client_topics c" for c by (simp add: client_topics_def)
  then have "client_topics (sm_client (subscribeTickerStream p (subscribeTickerStream p m))) = client_topics (sm_client (subscribeTickerStream p m))"
    using again by (simp add: subscribeTickerStream_def [of p "subscribeTickerStream p m"] Let_def)
  moreover have "client_isSubscribed (ticker_request q) (sm_client (subscribeTickerStream p m)) \<longleftrightarrow>
      q = p \<or> client_isSubscribed (ticker_request q) (sm_client m)"
    using cl.mem_add [OF ticker_request_ok ticker_request_ok assms]
    by (auto simp: subscribeTickerStream_def Let_def ticker_request_inj)
  ultimately show ?thesis using cl.mem_remove [OF ticker_request_ok ticker_request_ok assms]
    by (simp add: unsubscribeTickerStream_def ticker_request_inj)
qed

theorem ticker_subscriptions_witness:
  "client_isSubscribed (ticker_request ''BTC_USDT'') (sm_client (subscribeTickerStream ''BTC_USDT'' stream_manager_default)) \<and>
   \<not> client_isSubscribed (ticker_request ''ETH_USDT'') (sm_client (subscribeTickerStream ''BTC_USDT'' stream_manager_default))"
proof -
  have "client_ok (sm_client stream_manager_default)" "\<not> client_isSubscribed (ticker_request ''ETH_USDT'') (sm_client stream_manager_default)"
    by (simp_all add: client_ok_def client_isSubscribed_def stream_manager_default_def client_default_def client_setDataEventCallback_def)
  then show ?thesis
    using ticker_subscriptions [of stream_manager_default "''BTC_USDT''" "''BTC_USDT''"]
      ticker_subscriptions [of stream_manager_default "''ETH_USDT''" "''BTC_USDT''"] by simp
qed

subsection \<open>The reads return\<close>

lemma read_tries_bound:
  "read_tries look now maxTries n = (r, k) \<Longrightarrow> 0 \<le> n \<Longrightarrow> int k \<le> max 0 (maxTries + 1 - n)"
proof (induction look now maxTries n arbitrary: r k rule: read_tries.induct)
  case (1 look now maxTries n)
  then show ?case
    by (subst (asm) read_tries.simps) (fastforce split: if_splits option.splits prod.splits)
qed

lemma read_tries_found:
  assumes "look n = Some v" "n \<le> maxTries" "i \<le> n" "\<forall>j. i \<le> j \<and> j \<le> n \<longrightarrow> now j \<noteq> 0"
    "\<forall>j. i \<le> j \<and> j < n \<longrightarrow> look j = None"
  shows "read_tries look now maxTries i = (Some v, nat (n - i))"
  using assms
proof (induction "nat (n - i)" arbitrary: i)
  case 0
  then have "i = n" by simp
  then show ?case using 0 by (simp add: read_tries.simps [of look now maxTries n])
next
  case (Suc k)
  then have "i < n" by simp
  then have "look i = None" "now i \<noteq> 0" "i \<le> maxTries" using Suc.prems by auto
  moreover have "read_tries look now maxTries (i + 1) = (Some v, nat (n - (i + 1)))"
    by (rule Suc.hyps(1)) (use Suc.prems Suc.hyps(2) \<open>i < n\<close> in auto)
  ultimately show ?case using \<open>i < n\<close> by (simp add: read_tries.simps [of look now maxTries i])
qed

lemma hundredth: "\<exists>c. fl (1 / 100) = Fin c \<and> 1 / 100 \<le> c"
proof -
  have q: "quantum \<bar>1 / 100\<bar> = pow2 (- 59)"
    using expo_unique [of "1 / 100" "- 7"] by (simp add: quantum_def pow2_def)
  let ?y = "(1 / 100) / pow2 (- 59) :: rat"
  have "?y - 1 / 2 \<le> of_int (rne ?y)" using rne_err [of ?y] by linarith
  then have "of_int 5764607523034234 < (of_int (rne ?y) :: rat)" by (simp add: pow2_def)
  then have "5764607523034235 \<le> rne ?y" by (simp only: of_int_less_iff)
  then have "(of_int 5764607523034235 :: rat) \<le> of_int (rne ?y)" by (simp only: of_int_le_iff)
  then have 1: "of_int 5764607523034235 * pow2 (- 59) \<le> of_int (rne ?y) * pow2 (- 59)"
    by (rule mult_right_mono) (simp only: less_imp_le pow2_pos)
  have 2: "rnd64 (1 / 100) = of_int (rne ?y) * pow2 (- 59)" unfolding rnd64_def q by simp
  have "(1 / 100 :: rat) \<le> of_int 5764607523034235 * pow2 (- 59)" by (simp add: pow2_def)
  then have "1 / 100 \<le> rnd64 (1 / 100)" unfolding 2 using 1 by (rule order_trans)
  moreover have "fl (1 / 100) = Fin (rnd64 (1 / 100))" by (rule fl_abs_small) simp
  ultimately show ?thesis by blast
qed

lemma maxNumTries_bounds:
  assumes "0 \<le> t" "t < 2 ^ 31"
  shows "0 \<le> maxNumTries t \<and> maxNumTries t \<le> 100 * t"
proof -
  obtain c where c: "fl (1 / 100) = Fin c" "1 / 100 \<le> c" using hundredth by blast
  let ?x = "of_int t / c :: rat"
  have "(of_int t :: rat) * (1 / 100) \<le> of_int t * c" using c(2) assms(1) by (intro mult_left_mono) simp_all
  then have x: "0 \<le> ?x" "?x \<le> of_int (100 * t)" using assms(1) c(2) by (simp_all add: field_simps)
  have lim: "\<bar>100 * t\<bar> < 2 ^ 53" using assms by simp
  have "of_int (100 * t) \<le> (of_int (2 ^ 53 - 1) :: rat)" using lim by (simp only: of_int_le_iff)
  then have "fl ?x = Fin (rnd64 ?x)" using x by (intro fl_abs_small) simp
  moreover have "rnd64 ?x \<le> of_int (100 * t)" using rnd64_mono [OF x(2)] rnd64_of_int_small [OF lim] by simp
  moreover have "0 \<le> rnd64 ?x" using x(1) by (rule rnd64_nonneg)
  moreover have "ddiv (whole t) (fl (1 / 100)) = fl ?x" using c by (auto simp: whole_def)
  ultimately show ?thesis by (simp add: maxNumTries_def floor_le_iff)
qed

text \<open>
  Reading a ticker returns: it sleeps at most 100 t + 1 times 3 ms for a timeout of t seconds,
  which is less than the timeout; and a value that is in the cache by the try that fits is
  returned at its first try.
\<close>

theorem read_ticker_returns:
  assumes "0 < sm_timeout m" "sm_timeout m < 2 ^ 31" "\<forall>k. now k \<noteq> 0"
  shows "int (snd (readEventTicker look now pair m)) * 3 \<le> sm_timeout m * 1000 \<and>
    (\<forall>n t. 0 \<le> n \<and> n \<le> maxNumTries (sm_timeout m) \<and> look n pair = Some t \<and> (\<forall>j. 0 \<le> j \<and> j < n \<longrightarrow> look j pair = None) \<longrightarrow>
       readEventTicker look now pair m = (Some t, nat n))"
proof -
  obtain r k where rk: "readEventTicker look now pair m = (r, k)" by fastforce
  have "int k \<le> 100 * sm_timeout m + 1"
    using read_tries_bound [OF rk [unfolded readEventTicker_def]] maxNumTries_bounds [of "sm_timeout m"] assms by simp
  then have "int (snd (readEventTicker look now pair m)) * 3 \<le> sm_timeout m * 1000" using rk assms(1) by simp
  moreover have "readEventTicker look now pair m = (Some t, nat n)"
    if "0 \<le> n" "n \<le> maxNumTries (sm_timeout m)" "look n pair = Some t" "\<forall>j. 0 \<le> j \<and> j < n \<longrightarrow> look j pair = None" for n t
    using read_tries_found [of "\<lambda>n. look n pair" n t "maxNumTries (sm_timeout m)" 0 now] that assms(3)
    by (simp add: readEventTicker_def)
  ultimately show ?thesis by blast
qed

theorem read_ticker_returns_witness:
  "int (snd (readEventTicker (\<lambda>n pair. None) (\<lambda>n. 5) ''X'' stream_manager_default)) * 3 \<le> 5000"
  using read_ticker_returns [of stream_manager_default "\<lambda>n. 5" "\<lambda>n pair. None" "''X''"]
  by (simp add: stream_manager_default_def)

text \<open>
  A push that throws half way leaves a mixture in the cache: the new bid beside the old ask, under
  the old time stamp, and that is what a read returns.
\<close>

theorem failed_push_mixes_ticker:
  "\<exists>m1 m2 t. on_data_event std_jlib 1 \<lparr>ev_channel = ''push.ticker'', ev_symbol = ''X'', ev_ts = 0,
       ev_data = JObj [(''ask1'', JFloat (Fin 101)), (''bid1'', JFloat (Fin 100))]\<rparr>
       (setTickerUpdateCallback stream_manager_default) = (Some t, m1) \<and>
     on_data_event std_jlib 2 \<lparr>ev_channel = ''push.ticker'', ev_symbol = ''X'', ev_ts = 0,
       ev_data = JObj [(''ask1'', JStr ''n/a''), (''bid1'', JFloat (Fin 200))]\<rparr> m1 = (None, m2) \<and>
     (\<exists>r. readEventTicker (\<lambda>n. tickers m2) (\<lambda>n. 5) ''X'' m2 = (Some r, 0) \<and>
        et_bid1 r = Fin 200 \<and> et_ask1 r = Fin 101 \<and> et_receivedTimestamp r = 1)"
proof -
  have "0 \<le> maxNumTries 5" using maxNumTries_bounds [of 5] by simp
  then show ?thesis
    by (simp add: on_data_event_def ticker_event_def setTickerUpdateCallback_def stream_manager_default_def
        EventTicker_fromJson_def EventTicker_default_def field_def std_jlib_simps Let_def type_error_def
        readEventTicker_def read_tries.simps [of _ _ _ 0])
qed


end
