(* ===== verification/Gateway_Streams.thy ===== *)
theory Gateway_Streams
  imports Gateway_Fills Stream_Managers
begin

section \<open>The gateway on its streams\<close>

text \<open>
  The gateway and the two stream managers it owns, put together as its constructor does: a push of
  the public stream becomes a quote for the client, a personal push becomes the order events that
  \<open>on_order\<close> handles. The theorems follow a message from the wire to the client.
\<close>

definition gateway_public :: stream_manager where
  "gateway_public = setTickerUpdateCallback (setTimeout 1 stream_manager_default)"

definition gateway_private :: "string \<Rightarrow> string \<Rightarrow> private_manager" where
  "gateway_private key secret = private_setDealCallback (private_setOrderUpdateCallback (private_manager_new key secret))"

definition subscribeQuotes :: "string \<Rightarrow> stream_manager \<Rightarrow> stream_manager" where
  "subscribeQuotes symbol m = subscribeTickerStream symbol m"

definition unsubscribeQuotes :: "string \<Rightarrow> stream_manager \<Rightarrow> stream_manager" where
  "unsubscribeQuotes symbol m = unsubscribeTickerStream symbol m"

text \<open>A public push: the manager updates its cache and calls the gateway back, on the same thread.\<close>

definition public_push :: "jlib \<Rightarrow> int \<Rightarrow> Event \<Rightarrow> ('c, 'w) gw \<Rightarrow> stream_manager \<Rightarrow> out list \<times> stream_manager" where
  "public_push L nowMs event g m =
    (case on_data_event L nowMs event m of (cb, m) \<Rightarrow> (case cb of None \<Rightarrow> [] | Some t \<Rightarrow> on_ticker t g, m))"

text \<open>A personal push: each order event is handled before the next; deals are only logged.\<close>

fun on_orders :: "jlib \<Rightarrow> EventOrder list \<Rightarrow> ('c, 'w) gw \<Rightarrow> out list \<times> ('c, 'w) gw" where
  "on_orders L [] g = ([], g)"
| "on_orders L (event # events) g =
    (case on_order L event g of (a, g) \<Rightarrow> (case on_orders L events g of (b, g) \<Rightarrow> (a @ b, g)))"

definition private_push :: "jlib \<Rightarrow> private_manager \<Rightarrow> Event \<Rightarrow> ('c, 'w) gw \<Rightarrow> out list \<times> ('c, 'w) gw" where
  "private_push L m event g = on_orders L (fst (on_private_event L event m)) g"

fun private_pushes :: "jlib \<Rightarrow> private_manager \<Rightarrow> Event list \<Rightarrow> ('c, 'w) gw \<Rightarrow> out list \<times> ('c, 'w) gw" where
  "private_pushes L m [] g = ([], g)"
| "private_pushes L m (e # es) g =
    (case private_push L m e g of (a, g) \<Rightarrow> (case private_pushes L m es g of (b, g) \<Rightarrow> (a @ b, g)))"

lemma on_orders_append:
  "on_orders L (xs @ ys) g = (case on_orders L xs g of (a, g) \<Rightarrow> (case on_orders L ys g of (b, g) \<Rightarrow> (a @ b, g)))"
  by (induction xs arbitrary: g) (simp_all split: prod.split)

text \<open>
  C17. It does not matter whether the venue sends the updates of orders in one personal push with an
  array or one by one: the client gets the same fills and order updates in the same order, and
  the gateway ends in the same state.
\<close>

theorem batched_push_as_single:
  assumes "list_all is_object items"
  shows "private_push L m (e\<lparr>ev_data := JArr items\<rparr>) g = private_pushes L m (map (\<lambda>j. e\<lparr>ev_data := j\<rparr>) items) g"
  using assms
proof (induction items arbitrary: g)
  case Nil
  then show ?case by (simp add: private_push_def on_private_event_def dispatch_def)
next
  case (Cons j js)
  define items where "items d = fst (on_private_event L (e\<lparr>ev_data := d\<rparr>) m)" for d
  have "is_object j" using Cons.prems by simp
  then have "items (JArr (j # js)) = items j @ items (JArr js)"
    by (cases j) (auto simp: items_def on_private_event_def dispatch_def)
  then have "private_push L m (e\<lparr>ev_data := JArr (j # js)\<rparr>) g =
      (case on_orders L (items j) g of (a, g) \<Rightarrow> (case on_orders L (items (JArr js)) g of (b, g) \<Rightarrow> (a @ b, g)))"
    by (simp add: private_push_def on_orders_append flip: items_def)
  also have "\<dots> = private_pushes L m (map (\<lambda>j. e\<lparr>ev_data := j\<rparr>) (j # js)) g"
    using Cons by (simp add: private_push_def items_def split: prod.split)
  finally show ?case .
qed

definition order_push :: "int \<Rightarrow> int \<Rightarrow> json" where
  "order_push state vol = JObj [(''dealVol'', JInt vol), (''externalOid'', JStr ''leg1''), (''orderId'', JInt 7),
     (''state'', JInt state), (''symbol'', JStr ''BTC_USDT'')]"

theorem batched_push_as_single_witness:
  "private_push std_jlib (gateway_private ''k'' ''s'') (Event_default\<lparr>ev_channel := ''push.personal.order'',
      ev_data := JArr [order_push 2 4, order_push 3 10]\<rparr>) example_gw =
    private_pushes std_jlib (gateway_private ''k'' ''s'')
      [Event_default\<lparr>ev_channel := ''push.personal.order'', ev_data := order_push 2 4\<rparr>,
       Event_default\<lparr>ev_channel := ''push.personal.order'', ev_data := order_push 3 10\<rparr>] example_gw"
  using batched_push_as_single [of "[order_push 2 4, order_push 3 10]" std_jlib "gateway_private ''k'' ''s''"
      "Event_default\<lparr>ev_channel := ''push.personal.order''\<rparr>" example_gw]
  by (simp add: order_push_def)



end
