(* ===== verification/Exchange_Connector.thy ===== *)
theory Exchange_Connector
  imports Gateway
begin

section \<open>The exchange connector\<close>

text \<open>
  \<open>mexc_futures_exchange_connector.cpp\<close>: the adapter from the generic connector interface to the REST
  client. The types of that interface are declared in the submodule stonky-cpp-common; the records
  have the fields the connector reads or writes, the enumerations the enumerators it names and
  one constructor for the others.
  \<^item> \<open>dbl\<close>, a parameter, is \<open>convert_to<double>\<close> of a decimal number.
  \<^item> The pages of the funding history come from a loop that ends when the venue says so; not
    returning is \<open>None\<close>.
  \<^item> \<open>std::ranges::sort\<close> leaves open how entries with the same time are ordered; the model keeps
    their order.
\<close>

datatype common_interval =
    CI_1m | CI_5m | CI_15m | CI_30m | CI_1h | CI_4h | CI_8h | CI_1d | CI_1w | CI_1M
  | CI_other int

fun toMexcInterval :: "common_interval \<Rightarrow> CandleInterval result" where
  "toMexcInterval CI_1m = Inr I_1m"
| "toMexcInterval CI_5m = Inr I_5m"
| "toMexcInterval CI_15m = Inr I_15m"
| "toMexcInterval CI_30m = Inr I_30m"
| "toMexcInterval CI_1h = Inr I_60m"
| "toMexcInterval CI_4h = Inr I_4h"
| "toMexcInterval CI_8h = Inr I_8h"
| "toMexcInterval CI_1d = Inr I_1d"
| "toMexcInterval CI_1w = Inr I_1W"
| "toMexcInterval CI_1M = Inr I_1M"
| "toMexcInterval (CI_other n) = Inl (RuntimeError ''Unsupported candle interval for MEXC'')"

subsection \<open>Login and orders\<close>

text \<open>
  The connector owns one client, which \<open>login\<close> destroys before it looks at the credentials: a login
  that throws leaves the connector without one (\<open>None\<close>), and a call through the null pointer is
  undefined. The network and the JSON library are those of the program, the same for every client.
\<close>

record ('c, 'w) connector =
  cn_restClient :: "('c, 'w) rest option"

definition new_client :: "('c, 'w) net \<Rightarrow> jlib \<Rightarrow> string \<Rightarrow> string \<Rightarrow> ('c, 'w) rest" where
  "new_client N L key secret = \<lparr>rc_net = N, rc_lib = L, rc_cfg = session_config key secret\<rparr>"

definition connector_new :: "('c, 'w) net \<Rightarrow> jlib \<Rightarrow> ('c, 'w) connector" where
  "connector_new N L = \<lparr>cn_restClient = Some (new_client N L [] [])\<rparr>"

text \<open>
  The entry point of the library as a plugin. The global pointer is the argument and the second
  result; only the first call returns the factory, later ones return null.
\<close>

record ('c, 'w) module_factory =
  mf_id :: string
  mf_description :: string
  mf_classes :: "(string \<times> ('c, 'w) connector) list"

definition getModuleFactory ::
  "('c, 'w) net \<Rightarrow> jlib \<Rightarrow> ('c, 'w) module_factory option \<Rightarrow>
   ('c, 'w) module_factory option \<times> ('c, 'w) module_factory option" where
  "getModuleFactory N L g_moduleFactory =
    (case g_moduleFactory of
       None \<Rightarrow>
         let factory = \<lparr>mf_id = ''MEXCFutures'', mf_description = ''MEXC CEX - Futures'',
               mf_classes = [(''MEXCFutures'', connector_new N L)]\<rparr>
         in (Some factory, Some factory)
     | Some factory \<Rightarrow> (None, Some factory))"

definition login ::
  "('c, 'w) net \<Rightarrow> jlib \<Rightarrow> string \<Rightarrow> string \<Rightarrow> ('c, 'w) connector \<Rightarrow> unit result \<times> ('c, 'w) connector" where
  "login N L key secret c =
    (let c1 = c\<lparr>cn_restClient := None\<rparr>
     in if key = [] \<or> secret = []
        then (Inl (RuntimeError ''MEXC futures requires API key + secret (OpenAPI)''), c1)
        else (Inr (), c1\<lparr>cn_restClient := Some (new_client N L key secret)\<rparr>))"

definition through :: "('c, 'w) connector \<Rightarrow> (('c, 'w) rest \<Rightarrow> ('a, 'c, 'w) action) \<Rightarrow> ('a, 'c, 'w) action" where
  "through c f = (case cn_restClient c of Some R \<Rightarrow> f R | None \<Rightarrow> act_lift undefined_behaviour)"

datatype common_order_type = Market | Limit | OtherType int

datatype time_in_force = IOC | FOK | OtherTif int

record common_order =
  ord_symbol :: string
  ord_side :: Side
  ord_type :: common_order_type
  ord_quantity :: flt
  ord_price :: flt
  ord_timeInForce :: time_in_force
  ord_customData :: json

datatype trade_status = TradeNew | TradeRejected

record trade =
  tr_status :: trade_status
  tr_customData :: json

text \<open>A field of \<open>customData\<close>, read when it is there.\<close>

definition custom :: "json \<Rightarrow> string \<Rightarrow> (json \<Rightarrow> 'a result) \<Rightarrow> 'a \<Rightarrow> 'a result" where
  "custom data key get absent = (case jfind data key of None \<Rightarrow> Inr absent | Some v \<Rightarrow> get v)"

definition connector_side :: "Side \<Rightarrow> bool \<Rightarrow> OrderSide" where
  "connector_side side close =
    (let open_side = (if side = Buy then OpenLong else OpenShort)
     in if close then (if side = Buy then CloseShort else CloseLong) else open_side)"

definition connector_request :: "jlib \<Rightarrow> common_order \<Rightarrow> OrderRequest result" where
  "connector_request L order =
    (let data = ord_customData order;
         req0 = OrderRequest_default\<lparr>oq_symbol := ord_symbol order, oq_vol := ord_quantity order\<rparr>
     in rbind (custom data ''close'' (get_bool L) False) (\<lambda>close.
        let req1 = req0\<lparr>oq_side := connector_side (ord_side order) close\<rparr>;
            req2 = (case ord_type order of
                Market \<Rightarrow> req1\<lparr>oq_type := OT_Market\<rparr>
              | Limit \<Rightarrow> req1\<lparr>oq_type := OT_Limit, oq_price := ord_price order\<rparr>
              | OtherType n \<Rightarrow> req1\<lparr>oq_type := OT_Market\<rparr>);
            req3 = (case ord_timeInForce order of
                IOC \<Rightarrow> req2\<lparr>oq_type := OT_IOC\<rparr>
              | FOK \<Rightarrow> req2\<lparr>oq_type := OT_FOK\<rparr>
              | OtherTif n \<Rightarrow> req2)
        in rbind (custom data ''openType'' (\<lambda>v. rmap MarginType_of (get_i32 L v)) Cross) (\<lambda>openType.
           rbind (custom data ''leverage'' (get_i32 L) (oq_leverage req3)) (\<lambda>leverage.
           rbind (custom data ''positionId'' (get_i64 L) (oq_positionId req3)) (\<lambda>positionId.
             Inr (req3\<lparr>oq_openType := openType, oq_leverage := leverage, oq_positionId := positionId\<rparr>))))))"

definition trade_of :: "OrderResponse \<Rightarrow> trade" where
  "trade_of response =
    (if r_success response
     then \<lparr>tr_status = TradeNew, tr_customData = jset ''orderId'' (JInt (or_orderId response)) JNull\<rparr>
     else \<lparr>tr_status = TradeRejected, tr_customData = jset ''errorCode'' (JInt (r_code response)) JNull\<rparr>)"

definition placeOrder :: "('c, 'w) rest \<Rightarrow> common_order \<Rightarrow> (trade, 'c, 'w) action" where
  "placeOrder R order =
     act_bind (act_lift (connector_request (rc_lib R) order)) (\<lambda>req. act_map trade_of (submitOrder R req))"

subsection \<open>Market and account data\<close>

record common_ticker =
  ctk_bidPrice :: flt
  ctk_askPrice :: flt
  ctk_volume24h :: flt
  ctk_turnover24h :: flt
  ctk_time :: int

definition connector_getTickerPrice :: "(rat \<Rightarrow> flt) \<Rightarrow> ('c, 'w) rest \<Rightarrow> string \<Rightarrow> (common_ticker, 'c, 'w) action" where
  "connector_getTickerPrice dbl R symbol = act_map (\<lambda>t.
     \<lparr>ctk_bidPrice = dbl (tk_bid1 t), ctk_askPrice = dbl (tk_ask1 t), ctk_volume24h = dbl (tk_volume24 t),
      ctk_turnover24h = dbl (tk_amount24 t), ctk_time = tk_timestamp t\<rparr>) (getContractTicker R symbol)"

record common_balance =
  bal_balance :: flt
  bal_customData :: json

definition getAccountBalance :: "(rat \<Rightarrow> flt) \<Rightarrow> ('c, 'w) rest \<Rightarrow> string \<Rightarrow> (common_balance, 'c, 'w) action" where
  "getAccountBalance dbl R currency = act_map (\<lambda>wb.
     \<lparr>bal_balance = dbl (wb_equity wb),
      bal_customData = jset ''unrealized'' (JFloat (dbl (wb_unrealized wb)))
        (jset ''frozenBalance'' (JFloat (dbl (wb_frozenBalance wb)))
        (jset ''cashBalance'' (JFloat (dbl (wb_cashBalance wb)))
        (jset ''availableBalance'' (JFloat (dbl (wb_availableBalance wb))) JNull)))\<rparr>) (getWalletBalance R currency)"

record common_funding =
  cf_symbol :: string
  cf_fundingRate :: flt
  cf_fundingTime :: int

definition funding_of :: "(rat \<Rightarrow> flt) \<Rightarrow> FundingRate \<Rightarrow> common_funding" where
  "funding_of dbl fr = \<lparr>cf_symbol = fr_symbol fr, cf_fundingRate = dbl (fr_fundingRate fr), cf_fundingTime = fr_nextSettleTime fr\<rparr>"

definition getFundingRate :: "(rat \<Rightarrow> flt) \<Rightarrow> ('c, 'w) rest \<Rightarrow> string \<Rightarrow> (common_funding, 'c, 'w) action" where
  "getFundingRate dbl R symbol = act_map (funding_of dbl) (getContractFundingRate R symbol)"

definition getFundingRates :: "(rat \<Rightarrow> flt) \<Rightarrow> ('c, 'w) rest \<Rightarrow> (common_funding list, 'c, 'w) action" where
  "getFundingRates dbl R = act_map (map (funding_of dbl)) (getContractFundingRates R)"

record common_symbol =
  sy_symbol :: string
  sy_displayName :: string
  sy_baseAsset :: string
  sy_quoteAsset :: string
  sy_marginAsset :: string
  sy_contractSize :: flt
  sy_minVol :: int
  sy_maxVol :: int
  sy_volUnit :: int

definition getSymbolInfo :: "('c, 'w) rest \<Rightarrow> string \<Rightarrow> (common_symbol list, 'c, 'w) action" where
  "getSymbolInfo R symbol = act_map (map (\<lambda>d.
     \<lparr>sy_symbol = ct_symbol d, sy_displayName = ct_displayNameEn d, sy_baseAsset = ct_baseCoin d,
      sy_quoteAsset = ct_quoteCoin d, sy_marginAsset = ct_settleCoin d, sy_contractSize = ct_contractSize d,
      sy_minVol = ct_minVol d, sy_maxVol = ct_maxVol d, sy_volUnit = ct_volUnit d\<rparr>)) (getContractDetails R symbol)"

record common_position =
  cp_symbol :: string
  cp_side :: Side
  cp_size :: flt
  cp_avgPrice :: flt
  cp_value :: flt
  cp_createdTime :: int
  cp_updatedTime :: int
  cp_leverage :: flt

definition position_of :: "(rat \<Rightarrow> flt) \<Rightarrow> OpenPosition \<Rightarrow> common_position" where
  "position_of dbl pos =
    (let size = dbl (op_holdVol pos); avgPrice = dbl (op_openAvgPrice pos)
     in \<lparr>cp_symbol = op_symbol pos, cp_side = (if op_positionType pos = 1 then Buy else Sell), cp_size = size,
         cp_avgPrice = avgPrice, cp_value = dmul size avgPrice, cp_createdTime = op_createTime pos,
         cp_updatedTime = op_updateTime pos, cp_leverage = whole (op_leverage pos)\<rparr>)"

definition getPositionInfo :: "(rat \<Rightarrow> flt) \<Rightarrow> ('c, 'w) rest \<Rightarrow> string \<Rightarrow> (common_position list, 'c, 'w) action" where
  "getPositionInfo dbl R symbol = act_map (map (position_of dbl)) (getOpenPositions R symbol)"

definition connector_getServerTime :: "('c, 'w) rest \<Rightarrow> (int, 'c, 'w) action" where
  "connector_getServerTime R = getServerTime R"

subsection \<open>History\<close>

definition rates_in :: "(rat \<Rightarrow> flt) \<Rightarrow> int \<Rightarrow> int \<Rightarrow> HistoricalFundingRate list \<Rightarrow> common_funding list" where
  "rates_in dbl startTime endTime rates =
     map (\<lambda>rate. \<lparr>cf_symbol = hf_symbol rate, cf_fundingRate = dbl (hf_fundingRate rate), cf_fundingTime = hf_settleTime rate\<rparr>)
       (filter (\<lambda>rate. hf_settleTime rate \<ge> startTime \<and> hf_settleTime rate \<le> endTime) rates)"

partial_function (option) funding_pages ::
  "(int \<Rightarrow> (HistoricalFundingRates, 'c, 'w) action) \<Rightarrow> (rat \<Rightarrow> flt) \<Rightarrow> int \<Rightarrow> int \<Rightarrow> int \<Rightarrow> common_funding list \<Rightarrow>
   ev list \<Rightarrow> ('c, 'w) http_state \<Rightarrow> (common_funding list result \<times> ev list \<times> ('c, 'w) http_state) option" where
  "funding_pages fetch dbl startTime endTime pageNum retVal es s =
    (case fetch pageNum s of
       (Inl e, es', s') \<Rightarrow> Some (Inl e, es @ es', s')
     | (Inr page, es', s') \<Rightarrow>
        let retVal' = retVal @ rates_in dbl startTime endTime (hfs_resultList page)
        in if pageNum \<ge> hfs_totalPage page \<or> hfs_resultList page = [] then Some (Inr retVal', es @ es', s')
           else if hf_settleTime (last (hfs_resultList page)) < startTime then Some (Inr retVal', es @ es', s')
           else funding_pages fetch dbl startTime endTime (pageNum + 1) retVal' (es @ es') s')"

definition getHistoricalFundingRates ::
  "(rat \<Rightarrow> flt) \<Rightarrow> ('c, 'w) rest \<Rightarrow> string \<Rightarrow> int \<Rightarrow> int \<Rightarrow> ('c, 'w) http_state \<Rightarrow>
   (common_funding list result \<times> ev list \<times> ('c, 'w) http_state) option" where
  "getHistoricalFundingRates dbl R symbol startTime endTime s =
     map_option (\<lambda>(res, es, s'). (rmap (sort_key cf_fundingTime) res, es, s'))
       (funding_pages (\<lambda>pageNum. getContractFundingRateHistory R symbol pageNum 1000) dbl startTime endTime 1 [] [] s)"

record common_candle =
  cc_openTime :: int
  cc_open :: flt
  cc_high :: flt
  cc_low :: flt
  cc_close :: flt
  cc_volume :: flt

definition candle_of :: "(rat \<Rightarrow> flt) \<Rightarrow> Candle \<Rightarrow> common_candle" where
  "candle_of dbl c = \<lparr>cc_openTime = cd_openTime c, cc_open = dbl (cd_open c), cc_high = dbl (cd_high c),
     cc_low = dbl (cd_low c), cc_close = dbl (cd_close c), cc_volume = dbl (cd_volume c)\<rparr>"

definition getHistoricalCandles ::
  "(rat \<Rightarrow> flt) \<Rightarrow> ('c, 'w) rest \<Rightarrow> string \<Rightarrow> common_interval \<Rightarrow> int \<Rightarrow> int \<Rightarrow> ('c, 'w) http_state \<Rightarrow>
   (common_candle list result \<times> ev list \<times> ('c, 'w) http_state) option" where
  "getHistoricalCandles dbl R symbol interval startTime endTime s =
    (case toMexcInterval interval of
       Inl e \<Rightarrow> Some (Inl e, [], s)
     | Inr i \<Rightarrow> map_option (\<lambda>(res, written, es, s'). (rmap (map (candle_of dbl)) res, es, s'))
         (Rest_Client.getHistoricalPrices R symbol i (to_seconds startTime) (to_seconds endTime) s))"


subsection \<open>Orders placed through the connector\<close>

text \<open>The request is the order: side, quantity and type as asked, the close flag read from \<open>customData\<close>.\<close>

lemma connector_side_mexc: "connector_side side close = toMexcSide side close"
  by (simp add: connector_side_def toMexcSide_def)

lemma connector_request_as_asked:
  assumes "connector_request L order = Inr req"
  shows "oq_symbol req = ord_symbol order \<and> oq_vol req = ord_quantity order \<and>
    (\<exists>close. custom (ord_customData order) ''close'' (get_bool L) False = Inr close \<and>
       oq_side req = toMexcSide (ord_side order) close)"
  using assms
  by (cases "ord_type order"; cases "ord_timeInForce order") (auto simp: connector_request_def Let_def connector_side_mexc)

lemma handleMEXCResponse_success:
  "handleMEXCResponse L fromJson retVal response = Inr r \<Longrightarrow> r_success r"
  by (auto simp: handleMEXCResponse_def split: if_splits)

lemma post_endpoint_success:
  assumes "post_endpoint R path body fromJson retVal s = (Inr r, es, s')"
  shows "r_success r"
proof -
  obtain es' x where "Inr r = rbind x (\<lambda>response. rbind (checkResponse response) (handleMEXCResponse (rc_lib R) fromJson retVal))"
    by (rule post_endpoint_trace [OF assms]) blast
  from this [symmetric] obtain response where "handleMEXCResponse (rc_lib R) fromJson retVal response = Inr r" by auto
  then show ?thesis by (rule handleMEXCResponse_success)
qed

lemma placeOrder_cases:
  assumes "placeOrder R order s = (res, es, s')"
  obtains (bad) e where "connector_request (rc_lib R) order = Inl e" "res = Inl e" "es = []" "s' = s"
  | (sent) req r where "connector_request (rc_lib R) order = Inr req" "submitOrder R req s = (r, es, s')"
      "res = rmap trade_of r"
proof (cases "connector_request (rc_lib R) order")
  case (Inl e)
  show thesis by (rule bad [OF Inl]) (use assms Inl in \<open>simp_all add: placeOrder_def act_bind_def act_lift_def\<close>)
next
  case (Inr req)
  obtain r es' s2 where r: "submitOrder R req s = (r, es', s2)" by (metis prod_cases3)
  have "(res, es, s') = (rmap trade_of r, es', s2)"
    using assms Inr r by (cases r) (simp_all add: placeOrder_def act_map_def act_bind_def act_lift_def after_def)
  with r show thesis by (intro sent [OF Inr, of r]) simp_all
qed

text \<open>
  C32. An order placed through the connector goes out as asked, or not at all: every request sent POSTs
  the order with the symbol, quantity and side asked for, and a call that returns a trade returns a
  new one. A refusal of the venue is an exception: the branch that reports a rejected trade with
  the venue's error code is never taken, because the REST client throws first.
\<close>

theorem placed_order_never_rejected:
  assumes "placeOrder R order s = (res, es, s')"
  shows "(\<forall>q \<in> set (sents es). \<exists>req close. rq_method q = POST \<and>
        rq_target q = ''/api/v1/private/order/submit'' \<and> rq_body q = dump (rc_lib R) (OrderRequest_toJson req) \<and>
        oq_symbol req = ord_symbol order \<and> oq_vol req = ord_quantity order \<and>
        custom (ord_customData order) ''close'' (get_bool (rc_lib R)) False = Inr close \<and>
        oq_side req = toMexcSide (ord_side order) close) \<and>
    (\<forall>t. res = Inr t \<longrightarrow> tr_status t = TradeNew)"
  using assms
proof (cases rule: placeOrder_cases)
  case bad
  then show ?thesis by simp
next
  case (sent req r)
  note trace = post_endpoint_safe(3) [OF sent(2) [unfolded submitOrder_def]]
  have new: "tr_status t = TradeNew" if res: "res = Inr t" for t
  proof -
    obtain x where x: "r = Inr x" "t = trade_of x" using res sent(3) by (cases r) auto
    have "r_success x" using post_endpoint_success sent(2) x(1) unfolding submitOrder_def by metis
    then show ?thesis by (simp add: x(2) trade_of_def)
  qed
  show ?thesis using new trace connector_request_as_asked [OF sent(1)] unfolding plain_request_def by blast
qed

definition demo_order :: common_order where
  "demo_order = \<lparr>ord_symbol = ''BTC_USDT'', ord_side = Sell, ord_type = Limit, ord_quantity = Fin 2, ord_price = Fin 100,
     ord_timeInForce = OtherTif 0, ord_customData = JObj [(''close'', JBool True)]\<rparr>"

theorem placed_order_never_rejected_witness:
  "case placeOrder (canned_rest refused_once (parse_to accepted)) demo_order canned_start of (res, es, s') \<Rightarrow>
     length (sents es) = 2 \<and> (\<exists>t. res = Inr t \<and> tr_status t = TradeNew)"
proof -
  let ?R = "canned_rest refused_once (parse_to accepted)"
  obtain res es s' where run: "placeOrder ?R demo_order canned_start = (res, es, s')" by (metis prod_cases3)
  have "case placeOrder ?R demo_order canned_start of (res, es, s') \<Rightarrow> length (sents es) = 2 \<and> \<not> isl res" by code_simp
  then have "length (sents es) = 2" "\<not> isl res" using run by auto
  then show ?thesis using placed_order_never_rejected [OF run] run by (cases res) auto
qed


subsection \<open>The funding history\<close>

text \<open>
  The venue's documented listing: page \<open>n\<close> of the history holds the \<open>n\<close>-th of \<open>pages\<close> and tells how
  many there are; the rates run from the newest to the oldest, and only the last page may be empty.
\<close>

definition venue_lists ::
  "(int \<Rightarrow> (HistoricalFundingRates, 'c, 'w) action) \<Rightarrow> HistoricalFundingRate list list \<Rightarrow> bool" where
  "venue_lists fetch pages \<longleftrightarrow> pages \<noteq> [] \<and> [] \<notin> set (butlast pages) \<and>
    sorted_wrt (\<lambda>a b. hf_settleTime b \<le> hf_settleTime a) (concat pages) \<and>
    (\<forall>k < length pages. \<forall>s page es s'. fetch (int k + 1) s = (Inr page, es, s') \<longrightarrow>
       hfs_totalPage page = int (length pages) \<and> hfs_resultList page = pages ! k)"

lemma venue_listsD:
  assumes "venue_lists fetch pages" "k < length pages" "fetch (int k + 1) s = (Inr page, es, s')"
  shows "hfs_totalPage page = int (length pages)" "hfs_resultList page = pages ! k"
  using assms unfolding venue_lists_def by blast+

lemma rates_in_append: "rates_in dbl st en (xs @ ys) = rates_in dbl st en xs @ rates_in dbl st en ys"
  by (simp add: rates_in_def)

lemma rates_in_old: "\<forall>r \<in> set rates. hf_settleTime r < st \<Longrightarrow> rates_in dbl st en rates = []"
  by (auto simp: rates_in_def filter_empty_conv)

text \<open>Once a page ends before the start time, all that follows lies before it as well.\<close>

lemma older_pages:
  assumes "sorted_wrt (\<lambda>a b. hf_settleTime b \<le> hf_settleTime a) (concat pages)" and "k < length pages"
    and "pages ! k \<noteq> []" and "hf_settleTime (last (pages ! k)) < st"
  shows "\<forall>r \<in> set (concat (drop (Suc k) pages)). hf_settleTime r < st"
proof
  fix r assume r: "r \<in> set (concat (drop (Suc k) pages))"
  have "pages = take (Suc k) pages @ drop (Suc k) pages" by simp
  then have "concat pages = concat (take (Suc k) pages) @ concat (drop (Suc k) pages)" by (metis concat_append)
  moreover have "last (pages ! k) \<in> set (concat (take (Suc k) pages))"
    using assms(2,3) by (auto simp: take_Suc_conv_app_nth intro: last_in_set)
  ultimately have "hf_settleTime r \<le> hf_settleTime (last (pages ! k))"
    using assms(1) r by (metis sorted_wrt_append)
  with assms(4) show "hf_settleTime r < st" by simp
qed

lemma funding_pages_all:
  assumes venue: "venue_lists fetch pages"
  shows "k < length pages \<Longrightarrow> acc = rates_in dbl st en (concat (take k pages)) \<Longrightarrow>
    \<exists>res es' s'. funding_pages fetch dbl st en (int k + 1) acc es s = Some (res, es', s') \<and>
      (\<forall>l. res = Inr l \<longrightarrow> l = rates_in dbl st en (concat pages))"
proof (induction "length pages - k" arbitrary: k acc es s rule: less_induct)
  case less
  obtain r es1 s1 where f: "fetch (int k + 1) s = (r, es1, s1)" by (metis prod_cases3)
  show ?case
  proof (cases r)
    case (Inl e)
    then show ?thesis using f by (simp add: funding_pages.simps)
  next
    case (Inr page)
    note page = venue_listsD [OF venue less.prems(1) f [unfolded Inr]]
    let ?acc = "acc @ rates_in dbl st en (hfs_resultList page)"
    have acc: "?acc = rates_in dbl st en (concat (take (Suc k) pages))"
      using less.prems page(2) by (simp add: take_Suc_conv_app_nth rates_in_append)
    have split: "concat pages = concat (take (Suc k) pages) @ concat (drop (Suc k) pages)"
      by (metis append_take_drop_id concat_append)
    consider (final) "Suc k = length pages" | (older) "Suc k < length pages" "hf_settleTime (last (pages ! k)) < st"
      | (more) "Suc k < length pages" "st \<le> hf_settleTime (last (pages ! k))"
      using less.prems(1) by linarith
    then show ?thesis
    proof cases
      case final
      have "funding_pages fetch dbl st en (int k + 1) acc es s = Some (Inr ?acc, es @ es1, s1)"
        unfolding funding_pages.simps [of _ _ _ _ "int k + 1"] using f Inr page(1) final by (simp add: Let_def)
      then show ?thesis using acc final by simp
    next
      case older
      have "pages ! k \<noteq> []"
        using venue older(1) less.prems(1) unfolding venue_lists_def
        by (metis in_set_conv_nth length_butlast less_diff_conv nth_butlast Suc_eq_plus1)
      note old = rates_in_old [OF older_pages [OF _ less.prems(1) this older(2)]]
      have "rates_in dbl st en (concat (drop (Suc k) pages)) = []"
        using venue unfolding venue_lists_def by (intro old) blast
      then have "?acc = rates_in dbl st en (concat pages)" using acc split by (simp add: rates_in_append)
      moreover have "funding_pages fetch dbl st en (int k + 1) acc es s = Some (Inr ?acc, es @ es1, s1)"
        unfolding funding_pages.simps [of _ _ _ _ "int k + 1"] using f Inr page older by (simp add: Let_def)
      ultimately show ?thesis by simp
    next
      case more
      have "pages ! k \<noteq> []"
        using venue more(1) less.prems(1) unfolding venue_lists_def
        by (metis in_set_conv_nth length_butlast less_diff_conv nth_butlast Suc_eq_plus1)
      then have "funding_pages fetch dbl st en (int k + 1) acc es s
          = funding_pages fetch dbl st en (int (Suc k) + 1) ?acc (es @ es1) s1"
        unfolding funding_pages.simps [of _ _ _ _ "int k + 1"] using f Inr page more by (simp add: Let_def algebra_simps)
      moreover have "length pages - Suc k < length pages - k" using more(1) by linarith
      ultimately show ?thesis using less.hyps [OF _ more(1) acc, of "es @ es1" s1] by simp
    qed
  qed
qed


text \<open>
  C24. The funding history is complete and ordered: when the venue lists its rates page by page from the
  newest to the oldest, \<open>getHistoricalFundingRates\<close> returns, and unless a request fails the result is,
  in ascending order of time, exactly the rates of all the pages whose time lies in the range
  asked for: giving up at the first page that ends before the start loses nothing.
\<close>

theorem funding_history_complete:
  assumes "venue_lists (\<lambda>pageNum. getContractFundingRateHistory R symbol pageNum 1000) pages"
  shows "\<exists>res es s'. getHistoricalFundingRates dbl R symbol startTime endTime s = Some (res, es, s') \<and>
    (\<forall>l. res = Inr l \<longrightarrow> sorted (map cf_fundingTime l) \<and>
       mset l = mset (rates_in dbl startTime endTime (concat pages)) \<and>
       (\<forall>f \<in> set l. startTime \<le> cf_fundingTime f \<and> cf_fundingTime f \<le> endTime))"
proof -
  have "0 < length pages" using assms by (simp add: venue_lists_def)
  then obtain res es s' where
    run: "funding_pages (\<lambda>pageNum. getContractFundingRateHistory R symbol pageNum 1000) dbl startTime endTime 1 [] [] s
      = Some (res, es, s')"
    and ok: "\<forall>l. res = Inr l \<longrightarrow> l = rates_in dbl startTime endTime (concat pages)"
    using funding_pages_all [OF assms, of 0 "[]" dbl startTime endTime "[]" s] by (auto simp: rates_in_def)
  have "\<forall>f \<in> set (rates_in dbl startTime endTime (concat pages)). startTime \<le> cf_fundingTime f \<and> cf_fundingTime f \<le> endTime"
    by (auto simp: rates_in_def)
  then show ?thesis using run ok by (cases res) (auto simp: getHistoricalFundingRates_def)
qed

definition three_rates :: json where
  "three_rates = (let rate = (\<lambda>t. JObj [(''fundingRate'', JStr ''0''), (''settleTime'', JInt t), (''symbol'', JStr ''BTC_USDT'')])
     in JObj [(''data'', JObj [(''resultList'', JArr [rate 30, rate 20, rate 10]), (''totalPage'', JInt 1)]),
          (''success'', JBool True)])"

definition listed_rates :: "HistoricalFundingRate list" where
  "listed_rates = map (\<lambda>t. \<lparr>hf_symbol = ''BTC_USDT'', hf_fundingRate = 0, hf_settleTime = t\<rparr>) [30, 20, 10]"

lemma three_rates_parsed:
  "handleMEXCResponse (std_jlib\<lparr>parse := parse_to three_rates\<rparr>) HistoricalFundingRates_fromJson HistoricalFundingRates_default
     response = Inr page \<Longrightarrow> hfs_totalPage page = 1 \<and> hfs_resultList page = listed_rates"
proof -
  have "case fresh (HistoricalFundingRates_fromJson (std_jlib\<lparr>parse := parse_to three_rates\<rparr>) three_rates)
      HistoricalFundingRates_default of Inl e \<Rightarrow> False | Inr p \<Rightarrow> hfs_totalPage p = 1 \<and> hfs_resultList p = listed_rates"
    by code_simp
  then show "handleMEXCResponse (std_jlib\<lparr>parse := parse_to three_rates\<rparr>) HistoricalFundingRates_fromJson
     HistoricalFundingRates_default response = Inr page \<Longrightarrow> hfs_totalPage page = 1 \<and> hfs_resultList page = listed_rates"
    by (auto simp: handleMEXCResponse_def parse_to_def split: if_splits sum.splits)
qed

theorem funding_history_complete_witness:
  "case getHistoricalFundingRates (\<lambda>x. Fin x) (canned_rest (answer_with ''page'') (parse_to three_rates)) ''BTC_USDT'' 15 40
      canned_start of
     None \<Rightarrow> False
   | Some (res, es, s') \<Rightarrow> \<exists>l. res = Inr l \<and> sorted (map cf_fundingTime l) \<and>
       mset l = mset (rates_in (\<lambda>x. Fin x) 15 40 listed_rates)"
proof -
  let ?R = "canned_rest (answer_with ''page'') (parse_to three_rates)"
  let ?run = "getHistoricalFundingRates (\<lambda>x. Fin x) ?R ''BTC_USDT'' 15 40 canned_start"
  have "venue_lists (\<lambda>pageNum. getContractFundingRateHistory ?R ''BTC_USDT'' pageNum 1000) [listed_rates]"
    unfolding venue_lists_def
  proof (intro conjI allI impI)
    fix k s page es s'
    assume "k < length [listed_rates]" and
      run: "getContractFundingRateHistory ?R ''BTC_USDT'' (int k + 1) 1000 s = (Inr page, es, s')"
    then have k: "k = 0" by simp
    obtain r where "Inr page = rbind r (\<lambda>response. rbind (checkResponse response)
        (handleMEXCResponse (rc_lib ?R) HistoricalFundingRates_fromJson HistoricalFundingRates_default))"
      by (rule get_endpoint_trace [OF run [unfolded getContractFundingRateHistory_def]]) blast
    from this [symmetric] three_rates_parsed
    show "hfs_totalPage page = int (length [listed_rates])" "hfs_resultList page = [listed_rates] ! k"
      using k by auto
  qed (simp_all add: listed_rates_def)
  from funding_history_complete [OF this, of "\<lambda>x. Fin x" 15 40 canned_start]
  obtain res es s' where run: "?run = Some (res, es, s')"
    and ok: "\<forall>l. res = Inr l \<longrightarrow> sorted (map cf_fundingTime l) \<and> mset l = mset (rates_in (\<lambda>x. Fin x) 15 40 listed_rates)"
    by auto
  have "case getContractFundingRateHistory ?R ''BTC_USDT'' 1 1000 canned_start of
      (Inl e, es, s') \<Rightarrow> False | (Inr page, es, s') \<Rightarrow> hfs_totalPage page = 1" by code_simp
  then have "\<not> isl res"
    using run unfolding getHistoricalFundingRates_def funding_pages.simps [of _ _ _ _ 1]
    by (auto split: prod.splits sum.splits)
  then show ?thesis using run ok by (cases res) auto
qed

end
