(* ===== verification/Account_Tools.thy ===== *)
theory Account_Tools
  imports Exchange_Connector
begin

section \<open>The programs that flatten an account\<close>

text \<open>
  Two programs of \<open>src/test\<close> act on a real account: \<open>close_all_futures.cpp\<close> closes every open position,
  \<open>set_position_mode.cpp\<close> does so and then offers to switch the position mode.
  \<^item> A program is an action of the REST client; its result is the exit code.
  \<^item> The files and the standard input are lists of lines; the end of the list is the end of file.
  \<^item> \<open>dbl\<close> is \<open>convert_to<double>\<close> of a decimal number. What the programs print is left out.
\<close>

subsection \<open>Credentials and choices\<close>

definition is_blank :: "char \<Rightarrow> bool" where
  "is_blank c \<longleftrightarrow> c \<in> {CHR '' '', CHR 0x09, CHR 0x0D, CHR 0x0A}"

definition trim :: "string \<Rightarrow> string" where
  "trim s = rev (dropWhile is_blank (rev (dropWhile is_blank s)))"

fun readEnvFile :: "string list \<Rightarrow> string \<rightharpoonup> string" where
  "readEnvFile lines = foldl (\<lambda>env raw.
     let line = trim raw
     in if line = [] \<or> hd line = CHR ''#'' then env
        else if CHR ''='' \<in> set line
        then env(trim (takeWhile (\<lambda>c. c \<noteq> CHR ''='') line) \<mapsto> trim (tl (dropWhile (\<lambda>c. c \<noteq> CHR ''='') line)))
        else env) Map.empty lines"

text \<open>The first line that is 1 or 2 decides; the end of the input means 1, keep the mode.\<close>

fun readChoice :: "string list \<Rightarrow> int" where
  "readChoice [] = 1"
| "readChoice (line # rest) =
    (if trim line = ''1'' then 1 else if trim line = ''2'' then 2 else readChoice rest)"

subsection \<open>Closing positions\<close>

definition close_side :: "OpenPosition \<Rightarrow> OrderSide" where
  "close_side pos = (if op_positionType pos = 1 then CloseLong else CloseShort)"

text \<open>The request of \<open>close_all_futures.cpp\<close>, and that of \<open>set_position_mode.cpp\<close>.\<close>

definition cleanup_request :: "(rat \<Rightarrow> flt) \<Rightarrow> OpenPosition \<Rightarrow> OrderRequest" where
  "cleanup_request dbl pos = OrderRequest_default\<lparr>oq_symbol := op_symbol pos, oq_price := Fin 0, oq_vol := dbl (op_holdVol pos),
     oq_side := close_side pos, oq_type := OT_Market, oq_openType := Cross\<rparr>"

definition close_request :: "(rat \<Rightarrow> flt) \<Rightarrow> OpenPosition \<Rightarrow> OrderRequest" where
  "close_request dbl pos = OrderRequest_default\<lparr>oq_symbol := op_symbol pos, oq_price := Fin 0, oq_vol := dbl (op_holdVol pos),
     oq_side := close_side pos, oq_type := OT_Market, oq_openType := MarginType_of (op_openType pos),
     oq_positionId := op_positionId pos\<rparr>"

fun close_each ::
  "(OpenPosition \<Rightarrow> OrderRequest) \<Rightarrow> (rat \<Rightarrow> flt) \<Rightarrow> ('c, 'w) rest \<Rightarrow> OpenPosition list \<Rightarrow> (unit, 'c, 'w) action" where
  "close_each req dbl R [] s = (Inr (), [], s)"
| "close_each req dbl R (pos # positions) s =
    (if dle (dbl (op_holdVol pos)) (Fin 0) then close_each req dbl R positions s
     else case submitOrder R (req pos) s of (r, es, s') \<Rightarrow> after es (close_each req dbl R positions s'))"

text \<open>Up to ten queries, half a second apart, until the venue reports no position.\<close>

fun await_flat :: "nat \<Rightarrow> ('c, 'w) rest \<Rightarrow> (unit, 'c, 'w) action" where
  "await_flat 0 R s = (Inr (), [], s)"
| "await_flat (Suc n) R s =
    act_bind (getOpenPositions R []) (\<lambda>remaining s.
      if remaining = [] \<or> n = 0 then (Inr (), [], s)
      else after [Slept 500] (await_flat n R (pause (rc_net R) 500 s))) s"

definition closeAllPositions :: "(rat \<Rightarrow> flt) \<Rightarrow> ('c, 'w) rest \<Rightarrow> (unit, 'c, 'w) action" where
  "closeAllPositions dbl R =
     act_bind (getOpenPositions R []) (\<lambda>positions.
     act_bind (close_each (close_request dbl) dbl R positions) (\<lambda>_. await_flat 10 R))"

subsection \<open>The programs\<close>

text \<open>An exception of the outer \<open>try\<close> block ends a program with 1.\<close>

definition exit_code :: "(unit, 'c, 'w) action \<Rightarrow> (int, 'c, 'w) action" where
  "exit_code m s = (case m s of (r, es, s') \<Rightarrow> (Inr (if isl r then 1 else 0), es, s'))"

definition close_all_futures :: "('c, 'w) net \<Rightarrow> jlib \<Rightarrow> (rat \<Rightarrow> flt) \<Rightarrow> string list \<Rightarrow> (int, 'c, 'w) action" where
  "close_all_futures N L dbl envFile =
    (let env = readEnvFile envFile
     in case (env ''API_KEY'', env ''API_SECRET'') of
          (Some key, Some secret) \<Rightarrow>
            let R = new_client N L key secret
            in exit_code (act_bind (getOpenPositions R []) (\<lambda>positions.
                 act_bind (close_each (cleanup_request dbl) dbl R positions) (\<lambda>_.
                   act_map (\<lambda>after. ()) (getOpenPositions R []))))
        | _ \<Rightarrow> act_lift (Inr 1))"

definition other_mode :: "PositionMode \<Rightarrow> PositionMode" where
  "other_mode current = (if current = Hedge then OneWay else Hedge)"

text \<open>A switch that fails is logged, and the mode is read again all the same.\<close>

definition try_switch :: "('c, 'w) rest \<Rightarrow> PositionMode \<Rightarrow> (unit, 'c, 'w) action" where
  "try_switch R mode s = (case changePositionMode R mode s of
      (Inl e, es, s') \<Rightarrow> (Inr (), es, s')
    | (Inr u, es, s') \<Rightarrow> (Inr (), es @ [Slept 500], pause (rc_net R) 500 s'))"

definition set_position_mode ::
  "('c, 'w) net \<Rightarrow> jlib \<Rightarrow> (rat \<Rightarrow> flt) \<Rightarrow> string list \<Rightarrow> string list \<Rightarrow> (int, 'c, 'w) action" where
  "set_position_mode N L dbl args stdin =
    (case args of
       key # secret # _ \<Rightarrow>
         let R = new_client N L key secret
         in exit_code (act_bind (closeAllPositions dbl R) (\<lambda>_.
              act_bind (getPositionMode R) (\<lambda>current.
              act_bind (if readChoice stdin = 2 then try_switch R (other_mode current) else act_lift (Inr ())) (\<lambda>_.
                act_map (\<lambda>confirmed. ()) (getPositionMode R)))))
     | _ \<Rightarrow> act_lift (Inr 1))"

subsection \<open>What goes out\<close>

text \<open>
  An action sends orders and switches only as \<open>ok\<close> allows when every POST among its requests satisfies
  it; an action is put together from others, and so is what it posts.
\<close>

definition posts_only :: "(http_request \<Rightarrow> bool) \<Rightarrow> ev list \<Rightarrow> bool" where
  "posts_only ok es \<longleftrightarrow> (\<forall>q \<in> set (sents es). rq_method q = POST \<longrightarrow> ok q)"

lemma posts_only_simps [simp]:
  "posts_only ok []" "posts_only ok (es @ fs) \<longleftrightarrow> posts_only ok es \<and> posts_only ok fs"
  "posts_only ok (Slept d # es) = posts_only ok es"
  by (auto simp: posts_only_def)

lemma posts_only_mono: "posts_only ok es \<Longrightarrow> (\<And>q. ok q \<Longrightarrow> ok' q) \<Longrightarrow> posts_only ok' es"
  by (auto simp: posts_only_def)

lemma posts_bind:
  assumes "act_bind m f s = (res, es, s')"
    and "\<And>r es s'. m s = (r, es, s') \<Longrightarrow> posts_only ok es"
    and "\<And>a es1 s1 res es s'. m s = (Inr a, es1, s1) \<Longrightarrow> f a s1 = (res, es, s') \<Longrightarrow> posts_only ok es"
  shows "posts_only ok es"
  using assms(1) by (rule act_bind_cases) (use assms(2,3) in auto)

lemma posts_get: "get_endpoint R path ps pub fromJson retVal s = (res, es, s') \<Longrightarrow> posts_only ok es"
proof -
  assume "get_endpoint R path ps pub fromJson retVal s = (res, es, s')"
  then obtain k es' r where "es = Slot # es'" "ladder k (retryPacingHook (rc_cfg R)) GET 0 False r es'"
    and "\<And>q. k q \<Longrightarrow> plain_request GET (get_target path ps) [] q \<and> (pub \<or> signed_for (rc_net R) (rc_cfg R) (createQueryStr ps) q)"
    by (rule get_endpoint_trace) auto
  then show ?thesis using ladder_ok by (fastforce simp: posts_only_def plain_request_def)
qed

lemma posts_positions: "getOpenPositions R symbol s = (res, es, s') \<Longrightarrow> posts_only ok es"
  unfolding getOpenPositions_def by (drule act_map_events) (auto intro: posts_get)

lemma posts_mode: "getPositionMode R s = (res, es, s') \<Longrightarrow> posts_only ok es"
  unfolding getPositionMode_def by (drule act_map_events) (auto intro: posts_get)

text \<open>The POST that closes a position, and the POST that switches the mode.\<close>

definition closes :: "jlib \<Rightarrow> (OpenPosition \<Rightarrow> OrderRequest) \<Rightarrow> (rat \<Rightarrow> flt) \<Rightarrow> OpenPosition list \<Rightarrow> http_request \<Rightarrow> bool" where
  "closes L req dbl positions q \<longleftrightarrow> (\<exists>pos \<in> set positions. \<not> dle (dbl (op_holdVol pos)) (Fin 0) \<and>
     plain_request POST ''/api/v1/private/order/submit'' (dump L (OrderRequest_toJson (req pos))) q)"

lemma posts_close_each:
  "close_each req dbl R positions s = (res, es, s') \<Longrightarrow> posts_only (closes (rc_lib R) req dbl positions) es"
proof (induction positions arbitrary: s es)
  case (Cons pos positions)
  show ?case
  proof (cases "dle (dbl (op_holdVol pos)) (Fin 0)")
    case True
    then have "posts_only (closes (rc_lib R) req dbl positions) es" using Cons by simp
    then show ?thesis by (rule posts_only_mono) (auto simp: closes_def)
  next
    case False
    obtain r es1 s1 where sub: "submitOrder R (req pos) s = (r, es1, s1)" by (metis prod_cases3)
    obtain es2 where rest: "close_each req dbl R positions s1 = (res, es2, s')" and es: "es = es1 @ es2"
      using Cons.prems False sub by (auto simp: after_def split: prod.splits)
    have "posts_only (closes (rc_lib R) req dbl (pos # positions)) es1"
      using post_endpoint_safe(3) [OF sub [unfolded submitOrder_def]] False by (auto simp: posts_only_def closes_def)
    moreover have "posts_only (closes (rc_lib R) req dbl (pos # positions)) es2"
      using Cons.IH [OF rest] by (rule posts_only_mono) (auto simp: closes_def)
    ultimately show ?thesis by (simp add: es)
  qed
qed simp

lemma posts_await_flat: "await_flat n R s = (res, es, s') \<Longrightarrow> posts_only ok es"
proof (induction n arbitrary: s res es s')
  case (Suc n)
  from Suc.prems [unfolded await_flat.simps] show ?case
    by (rule posts_bind) (auto dest: posts_positions Suc.IH simp: after_def split: if_splits prod.splits)
qed simp

lemma posts_closeAllPositions:
  assumes "closeAllPositions dbl R s = (res, es, s')"
  shows "posts_only (\<lambda>q. \<exists>positions es1 s1. getOpenPositions R [] s = (Inr positions, es1, s1) \<and>
    closes (rc_lib R) (close_request dbl) dbl positions q) es"
  using assms unfolding closeAllPositions_def
proof (rule posts_bind)
  fix positions es1 s1 res es s'
  assume get: "getOpenPositions R [] s = (Inr positions, es1, s1)"
    and rest: "act_bind (close_each (close_request dbl) dbl R positions) (\<lambda>_. await_flat 10 R) s1 = (res, es, s')"
  have "posts_only (closes (rc_lib R) (close_request dbl) dbl positions) es"
    by (rule posts_bind [OF rest]) (auto intro: posts_close_each posts_await_flat)
  then show "posts_only (\<lambda>q. \<exists>positions es1 s1. getOpenPositions R [] s = (Inr positions, es1, s1) \<and>
      closes (rc_lib R) (close_request dbl) dbl positions q) es"
    by (rule posts_only_mono) (use get in blast)
qed (rule posts_positions)

definition switches :: "jlib \<Rightarrow> PositionMode \<Rightarrow> http_request \<Rightarrow> bool" where
  "switches L mode q \<longleftrightarrow> plain_request POST ''/api/v1/private/position/change_position_mode''
     (dump L (jset ''positionMode'' (JInt (PositionMode_int mode)) JNull)) q"

lemma posts_try_switch: "try_switch R mode s = (res, es, s') \<Longrightarrow> posts_only (switches (rc_lib R) mode) es"
proof -
  assume t: "try_switch R mode s = (res, es, s')"
  obtain r es1 s1 where c: "changePositionMode R mode s = (r, es1, s1)" by (metis prod_cases3)
  obtain r' where "post_endpoint R ''/api/v1/private/position/change_position_mode''
      (dump (rc_lib R) (jset ''positionMode'' (JInt (PositionMode_int mode)) JNull)) Response_fromJson Response_default s
      = (r', es1, s1)"
    using act_map_events [OF c [unfolded changePositionMode_def]] by blast
  then have "posts_only (switches (rc_lib R) mode) es1"
    using post_endpoint_safe(3) by (fastforce simp: posts_only_def switches_def)
  then show ?thesis using t c by (auto simp: try_switch_def split: sum.splits)
qed


text \<open>The second half of the tool: read the mode, switch it when asked to, read it again.\<close>

definition choose_mode :: "('c, 'w) rest \<Rightarrow> string list \<Rightarrow> (unit, 'c, 'w) action" where
  "choose_mode R stdin =
     act_bind (getPositionMode R) (\<lambda>current.
     act_bind (if readChoice stdin = 2 then try_switch R (other_mode current) else act_lift (Inr ())) (\<lambda>_.
       act_map (\<lambda>confirmed. ()) (getPositionMode R)))"

lemma posts_choose_mode:
  assumes "choose_mode R stdin s = (res, es, s')"
  shows "posts_only (\<lambda>q. readChoice stdin = 2 \<and> (\<exists>current es1 s1.
    getPositionMode R s = (Inr current, es1, s1) \<and> switches (rc_lib R) (other_mode current) q)) es"
  (is "posts_only ?ok es")
  using assms unfolding choose_mode_def
proof (rule posts_bind)
  fix current es1 s1 res es s'
  assume mode: "getPositionMode R s = (Inr current, es1, s1)"
    and rest: "act_bind (if readChoice stdin = 2 then try_switch R (other_mode current) else act_lift (Inr ())) (\<lambda>_.
      act_map (\<lambda>confirmed. ()) (getPositionMode R)) s1 = (res, es, s')"
  show "posts_only ?ok es"
  proof (rule posts_bind [OF rest])
    fix r es s'
    assume t: "(if readChoice stdin = 2 then try_switch R (other_mode current) else act_lift (Inr ())) s1 = (r, es, s')"
    show "posts_only ?ok es"
    proof (cases "readChoice stdin = 2")
      case True
      then have "try_switch R (other_mode current) s1 = (r, es, s')" using t by simp
      from posts_try_switch [OF this] show ?thesis by (rule posts_only_mono) (use mode True in blast)
    qed (use t in \<open>simp add: act_lift_def\<close>)
  qed (auto dest!: act_map_events intro: posts_mode)
qed (rule posts_mode)

lemma set_position_mode_choose:
  "set_position_mode N L dbl (key # secret # rest) stdin =
     (let R = new_client N L key secret in exit_code (act_bind (closeAllPositions dbl R) (\<lambda>_. choose_mode R stdin)))"
  by (simp add: set_position_mode_def choose_mode_def)

subsection \<open>Properties\<close>


definition one_position :: json where
  "one_position = JObj [(''data'', JArr [JObj [(''openType'', JInt 1), (''positionId'', JInt 7), (''positionType'', JInt 2),
     (''symbol'', JStr ''BTC_USDT'')]]), (''success'', JBool True)]"

definition demo_json :: jlib where
  "demo_json = std_jlib\<lparr>parse := parse_to one_position, rd_dec := \<lambda>j k. Inr 3\<rparr>"


end
