(* ===== verification/Spot_Models.thy ===== *)
theory Spot_Models
  imports Json
begin

section \<open>The spot data models\<close>

text \<open>
  Namespace \<open>spot\<close> of \<open>mexc_models.h\<close> and \<open>mexc_models.cpp\<close>: every struct is a record that extends
  \<open>spot_Response\<close>, every \<open>fromJson\<close> a reader of its fields in the order of the source. The venue's
  \<open>code\<close> is read as a string and converted with \<open>std::stoi\<close>. The \<open>toJson\<close> functions only throw.
\<close>

subsection \<open>std::stoi\<close>

definition in_i32 :: "int \<Rightarrow> bool" where
  "in_i32 n \<longleftrightarrow> - (2 ^ 31) \<le> n \<and> n < 2 ^ 31"

definition stoi :: "string \<Rightarrow> int result" where
  "stoi s = (let (neg, t) = take_sign (dropWhile is_space s); ds = takeWhile is_digit t;
       n = (if neg then - read_digits 0 ds else read_digits 0 ds)
     in if ds = [] then Inl (OtherError ''stoi: invalid_argument'')
        else if in_i32 n then Inr n else Inl (OtherError ''stoi: out_of_range''))"

subsection \<open>The models\<close>

record spot_Response =
  sr_code :: int
  sr_msg :: string
  sr_data :: json

definition spot_Response_default :: spot_Response where
  "spot_Response_default = \<lparr>sr_code = 0, sr_msg = [], sr_data = JNull\<rparr>"

definition spot_Response_fromJson :: "jlib \<Rightarrow> json \<Rightarrow> ('x spot_Response_scheme) reader" where
  "spot_Response_fromJson L j r =
    (case rd_str L j ''code'' [] of
       Inl e \<Rightarrow> (Some e, r)
     | Inr codeStr \<Rightarrow>
        run_reads [
          field (rd_str L j ''msg'') sr_msg sr_msg_update,
          (\<lambda>r. if codeStr = [] then (None, r) else field (\<lambda>_. stoi codeStr) sr_code sr_code_update r)] r)"

record spot_ServerTime = spot_Response +
  sst_serverTime :: int

definition spot_ServerTime_default :: spot_ServerTime where
  "spot_ServerTime_default = \<lparr>sr_code = 0, sr_msg = [], sr_data = JNull, sst_serverTime = 0\<rparr>"

definition spot_ServerTime_fromJson :: "jlib \<Rightarrow> json \<Rightarrow> spot_ServerTime reader" where
  "spot_ServerTime_fromJson L j = run_reads [
     spot_Response_fromJson L j,
     field (rd_i64 L j ''serverTime'') sst_serverTime sst_serverTime_update]"

record spot_Candle = spot_Response +
  sc_openTime :: int
  sc_closeTime :: int
  sc_open :: rat
  sc_high :: rat
  sc_low :: rat
  sc_close :: rat
  sc_volume :: rat
  sc_quoteAssetVolume :: rat

definition spot_Candle_default :: spot_Candle where
  "spot_Candle_default = \<lparr>sr_code = 0, sr_msg = [], sr_data = JNull, sc_openTime = 0, sc_closeTime = 0, sc_open = 0,
     sc_high = 0, sc_low = 0, sc_close = 0, sc_volume = 0, sc_quoteAssetVolume = 0\<rparr>"

text \<open>\<open>json[i]\<close> converted to an integer, and \<open>assign(json[i].get<std::string>())\<close>.\<close>

definition item_i64 :: "jlib \<Rightarrow> json \<Rightarrow> nat \<Rightarrow> int result" where
  "item_i64 L j i = rbind (jindex j i) (get_i64 L)"

definition item_dec :: "jlib \<Rightarrow> json \<Rightarrow> nat \<Rightarrow> rat result" where
  "item_dec L j i = rbind (jindex j i) (\<lambda>v. rbind (get_str L v) (dec_assign L))"

definition spot_Candle_fromJson :: "jlib \<Rightarrow> json \<Rightarrow> spot_Candle reader" where
  "spot_Candle_fromJson L j = run_reads [
     spot_Response_fromJson L j,
     field (\<lambda>_. item_i64 L j 0) sc_openTime sc_openTime_update,
     field (\<lambda>_. item_dec L j 1) sc_open sc_open_update,
     field (\<lambda>_. item_dec L j 2) sc_high sc_high_update,
     field (\<lambda>_. item_dec L j 3) sc_low sc_low_update,
     field (\<lambda>_. item_dec L j 4) sc_close sc_close_update,
     field (\<lambda>_. item_dec L j 5) sc_volume sc_volume_update,
     field (\<lambda>_. item_i64 L j 6) sc_closeTime sc_closeTime_update,
     field (\<lambda>_. item_dec L j 7) sc_quoteAssetVolume sc_quoteAssetVolume_update]"

record spot_TickerPrice = spot_Response +
  stp_symbol :: string
  stp_price :: rat

definition spot_TickerPrice_default :: spot_TickerPrice where
  "spot_TickerPrice_default = \<lparr>sr_code = 0, sr_msg = [], sr_data = JNull, stp_symbol = [], stp_price = 0\<rparr>"

definition spot_TickerPrice_fromJson :: "jlib \<Rightarrow> json \<Rightarrow> spot_TickerPrice reader" where
  "spot_TickerPrice_fromJson L j = run_reads [
     spot_Response_fromJson L j,
     field (rd_str L j ''symbol'') stp_symbol stp_symbol_update,
     field (\<lambda>_. rbind (jat j ''price'') (\<lambda>v. rbind (get_str L v) (dec_assign L))) stp_price stp_price_update]"

record spot_ListenKey = spot_Response +
  slk_listenKey :: string

definition spot_ListenKey_default :: spot_ListenKey where
  "spot_ListenKey_default = \<lparr>sr_code = 0, sr_msg = [], sr_data = JNull, slk_listenKey = []\<rparr>"

definition spot_ListenKey_fromJson :: "jlib \<Rightarrow> json \<Rightarrow> spot_ListenKey reader" where
  "spot_ListenKey_fromJson L j = run_reads [
     spot_Response_fromJson L j,
     field (rd_str L j ''listenKey'') slk_listenKey slk_listenKey_update]"

record spot_ListenKeys = spot_Response +
  slks_available :: int
  slks_total :: int
  slks_listenKeys :: "string list"

definition spot_ListenKeys_default :: spot_ListenKeys where
  "spot_ListenKeys_default = \<lparr>sr_code = 0, sr_msg = [], sr_data = JNull, slks_available = 0, slks_total = 0,
     slks_listenKeys = []\<rparr>"

text \<open>The conversion of a JSON value to a vector of strings: an array, every item a string.\<close>

definition get_strs :: "jlib \<Rightarrow> json \<Rightarrow> string list result" where
  "get_strs L v = (case v of JArr xs \<Rightarrow> rtraverse (get_str L) xs | _ \<Rightarrow> type_error)"

definition spot_ListenKeys_fromJson :: "jlib \<Rightarrow> json \<Rightarrow> spot_ListenKeys reader" where
  "spot_ListenKeys_fromJson L j = run_reads [
     spot_Response_fromJson L j,
     field (rd_i32 L j ''available'') slks_available slks_available_update,
     field (rd_i32 L j ''total'') slks_total slks_total_update,
     field (\<lambda>_. rbind (jat j ''listenKey'') (get_strs L)) slks_listenKeys slks_listenKeys_update]"

subsection \<open>Conversions that are not implemented\<close>

definition spot_Response_toJson :: "spot_Response \<Rightarrow> json result" where
  "spot_Response_toJson self = unimplemented ''Unimplemented: Response::toJson()''"

definition spot_ServerTime_toJson :: "spot_ServerTime \<Rightarrow> json result" where
  "spot_ServerTime_toJson self = unimplemented ''Unimplemented: ServerTime::toJson()''"

definition spot_Candle_toJson :: "spot_Candle \<Rightarrow> json result" where
  "spot_Candle_toJson self = unimplemented ''Unimplemented: Candle::toJson()''"

definition spot_TickerPrice_toJson :: "spot_TickerPrice \<Rightarrow> json result" where
  "spot_TickerPrice_toJson self = unimplemented ''Unimplemented: TickerPrice::toJson()''"

definition spot_ListenKey_toJson :: "spot_ListenKey \<Rightarrow> json result" where
  "spot_ListenKey_toJson self = unimplemented ''Unimplemented: ListenKey::toJson()''"

definition spot_ListenKeys_toJson :: "spot_ListenKeys \<Rightarrow> json result" where
  "spot_ListenKeys_toJson self = unimplemented ''Unimplemented: ListenKey::toJson()''"

end
