(* ===== verification/Spot_Client.thy ===== *)
theory Spot_Client
  imports Spot_Models Rest_Client Rate_Limiter
begin

section \<open>The spot HTTP session and REST client\<close>

text \<open>
  \<open>mexc_http_spot_session.cpp\<close> and \<open>mexc_spot_rest_client.cpp\<close>. The session opens a connection for
  every request, never retries, and signs a private request by adding \<open>timestamp\<close> and
  \<open>signature\<close> to its parameters. The client has a rate limiter of its own (\<open>Rate_Limiter\<close>) and pages
  backwards through the candles.
  \<^item> The network is the parameter \<open>net\<close> of \<open>Http_Session\<close>: \<open>connect\<close> is resolve, connect and TLS
    handshake, \<open>exchange\<close> is write and read, \<open>wall_ms\<close> the system clock. The TLS shutdown ignores its error.
  \<^item> The state of a client is its limiter's deque and the world.
  \<^item> The pagination ends when the venue says so; not returning is \<open>None\<close>.
  \<^item> \<open>responseJson.type() == json::object()\<close> compares the empty value of the type with the empty object,
    and so tests the type.
\<close>

subsection \<open>The session\<close>

record spot_config =
  sp_apiKey :: string
  sp_apiSecret :: string
  sp_uri :: string
  sp_receiveWindow :: int

definition spot_session :: "string \<Rightarrow> string \<Rightarrow> spot_config" where
  "spot_session key secret =
     \<lparr>sp_apiKey = key, sp_apiSecret = secret, sp_uri = ''api.mexc.com'', sp_receiveWindow = 25000\<rparr>"

record 'w spot_state =
  sp_requestTimes :: "int list"
  sp_world :: 'w

definition spot_createQueryStr :: "(string \<times> string) list \<Rightarrow> string" where
  "spot_createQueryStr parameters =
    (let queryStr = concat (map (\<lambda>(k, v). k @ ''='' @ v @ ''&'') parameters)
     in if queryStr = [] then [] else butlast queryStr)"

definition spot_sign ::
  "('c, 'w) net \<Rightarrow> spot_config \<Rightarrow> int \<Rightarrow> (string \<times> string) list \<Rightarrow> (string \<times> string) list" where
  "spot_sign N cfg ts parameters =
    (let stamped = put ''timestamp'' (int_str ts) parameters
     in put ''signature'' (hmac_hex N (sp_apiSecret cfg) (spot_createQueryStr stamped)) stamped)"

definition createRequest ::
  "('c, 'w) net \<Rightarrow> spot_config \<Rightarrow> verb \<Rightarrow> string \<Rightarrow> (string \<times> string) list \<Rightarrow> bool \<Rightarrow> 'w \<Rightarrow> http_request \<times> 'w" where
  "createRequest N cfg method path parameters isPublic w =
    (let (signed, w') = (if isPublic then (parameters, w)
           else (case wall_ms N w of (ts, w1) \<Rightarrow> (spot_sign N cfg ts parameters, w1)));
         queryString = spot_createQueryStr signed;
         finalPath = (if queryString = [] then path else path @ ''?'' @ queryString);
         req = \<lparr>rq_method = method, rq_target = finalPath, rq_headers = [], rq_body = []\<rparr>
     in (if isPublic then req else set_header ''X-MEXC-APIKEY'' (sp_apiKey cfg) req, w'))"

definition spot_request :: "('c, 'w) net \<Rightarrow> spot_config \<Rightarrow> http_request \<Rightarrow> 'w \<Rightarrow> http_response result \<times> ev list \<times> 'w" where
  "spot_request N cfg req w =
    (let req1 = set_header ''User-Agent'' (user_agent N) (set_header ''Host'' (sp_uri cfg) req)
     in case connect N w of
          (Inl e, w1) \<Rightarrow> (Inl e, [Connected False], w1)
        | (Inr c, w1) \<Rightarrow>
            let req2 = (if rq_method req1 = POST then set_header ''Content-Type'' ''application/json'' req1 else req1)
            in (case exchange N c req2 w1 of
                  (Inl e, w2) \<Rightarrow> (Inl e, [Connected True, Sent req2, Lost], w2)
                | (Inr response, w2) \<Rightarrow> (Inr response, [Connected True, Sent req2, Reply response], w2)))"

definition spot_method ::
  "verb \<Rightarrow> ('c, 'w) net \<Rightarrow> spot_config \<Rightarrow> string \<Rightarrow> (string \<times> string) list \<Rightarrow> bool \<Rightarrow>
   (http_response, 'w spot_state) doing" where
  "spot_method method N cfg path parameters isPublic s =
    (case createRequest N cfg method path parameters isPublic (sp_world s) of (req, w) \<Rightarrow>
     case spot_request N cfg req w of (r, es, w') \<Rightarrow> (r, es, s\<lparr>sp_world := w'\<rparr>))"

abbreviation spot_methodGet where "spot_methodGet \<equiv> spot_method GET"
abbreviation spot_methodPost where "spot_methodPost \<equiv> spot_method POST"
abbreviation spot_methodPut where "spot_methodPut \<equiv> spot_method PUT"
abbreviation spot_methodDelete where "spot_methodDelete \<equiv> spot_method DELETE"

subsection \<open>The client\<close>

record ('c, 'w) spot_rest =
  sr_net :: "('c, 'w) net"
  sr_lib :: jlib
  sr_cfg :: spot_config

definition spot_setCredentials :: "string \<Rightarrow> string \<Rightarrow> ('c, 'w) spot_rest \<Rightarrow> ('c, 'w) spot_rest" where
  "spot_setCredentials key secret R = R\<lparr>sr_cfg := spot_session key secret\<rparr>"

definition spot_limiter :: "('c, 'w) spot_rest \<Rightarrow> (unit, 'w spot_state) doing" where
  "spot_limiter R s =
    (case wall_ms (sr_net R) (sp_world s) of (now, w) \<Rightarrow>
     case spot_wait now (sp_requestTimes s) of (slept, q) \<Rightarrow>
       if slept > 0 then (Inr (), [Slot, Slept slept], \<lparr>sp_requestTimes = q, sp_world = sleep_ms (sr_net R) slept w\<rparr>)
       else (Inr (), [Slot], \<lparr>sp_requestTimes = q, sp_world = w\<rparr>))"

definition spot_checkResponse :: "http_response \<Rightarrow> http_response result" where
  "spot_checkResponse response =
    (if rs_status response \<noteq> 200
     then Inl (RuntimeError (c_str (''Bad response, code '' @ int_str (rs_status response) @ '', msg: '' @ rs_body response)))
     else Inr response)"

definition spot_handleMEXCResponse ::
  "jlib \<Rightarrow> (jlib \<Rightarrow> json \<Rightarrow> ('x spot_Response_scheme) reader) \<Rightarrow> 'x spot_Response_scheme \<Rightarrow> http_response \<Rightarrow>
   ('x spot_Response_scheme) result" where
  "spot_handleMEXCResponse L fromJson retVal response =
     rbind (parse L (rs_body response)) (\<lambda>j.
     rbind (fresh (fromJson L j) retVal) (\<lambda>r.
       if sr_code r \<noteq> 0 then Inl (api_error (sr_code r) (sr_msg r)) else Inr r))"

text \<open>A slot of the limiter, the request, the check of the status, and what the endpoint makes of the body.\<close>

definition spot_endpoint ::
  "('c, 'w) spot_rest \<Rightarrow> verb \<Rightarrow> string \<Rightarrow> (string \<times> string) list \<Rightarrow> bool \<Rightarrow> (http_response \<Rightarrow> 'a result) \<Rightarrow>
   ('a, 'w spot_state) doing" where
  "spot_endpoint R method path parameters isPublic handle =
     act_bind (spot_limiter R) (\<lambda>_.
     act_bind (spot_method method (sr_net R) (sr_cfg R) path parameters isPublic) (\<lambda>response.
       act_lift (rbind (spot_checkResponse response) handle)))"

definition read_candles :: "jlib \<Rightarrow> http_response \<Rightarrow> spot_Candle list result" where
  "read_candles L response = rbind (parse L (rs_body response)) (\<lambda>j.
     rtraverse (\<lambda>el. fresh (spot_Candle_fromJson L el) spot_Candle_default) (elements j))"

definition spot_klines ::
  "('c, 'w) spot_rest \<Rightarrow> string \<Rightarrow> CandleInterval \<Rightarrow> int \<Rightarrow> int \<Rightarrow> int \<Rightarrow> (spot_Candle list, 'w spot_state) doing" where
  "spot_klines R symbol interval startTime endTime limit =
    (let p0 = put ''interval'' (candleIntervalToSpotString interval) (put ''symbol'' symbol []);
         p1 = (if startTime > 0 then put ''startTime'' (int_str startTime) p0 else p0);
         p2 = put ''endTime'' (int_str endTime) p1;
         p3 = (if limit \<noteq> 500 then put ''limit'' (int_str limit) p2 else p2)
     in spot_endpoint R GET ''/api/v3/klines'' p3 True (read_candles (sr_lib R)))"

definition spot_getServerTime :: "('c, 'w) spot_rest \<Rightarrow> (int, 'w spot_state) doing" where
  "spot_getServerTime R = spot_endpoint R GET ''/api/v3/time'' [] True (\<lambda>response.
     rbind (parse (sr_lib R) (rs_body response)) (\<lambda>j.
       rmap sst_serverTime (fresh (spot_ServerTime_fromJson (sr_lib R) j) spot_ServerTime_default)))"

definition spot_getTickerPrice :: "('c, 'w) spot_rest \<Rightarrow> string \<Rightarrow> (spot_TickerPrice list, 'w spot_state) doing" where
  "spot_getTickerPrice R symbol =
    (let L = sr_lib R; read = (\<lambda>j. fresh (spot_TickerPrice_fromJson L j) spot_TickerPrice_default)
     in spot_endpoint R GET ''/api/v3/ticker/price'' (put ''symbol'' symbol []) True (\<lambda>response.
          rbind (parse L (rs_body response)) (\<lambda>responseJson.
            if is_object responseJson then rmap (\<lambda>t. [t]) (read responseJson)
            else if is_array responseJson then rtraverse read (elements responseJson)
            else Inr [])))"

definition getListenKey :: "('c, 'w) spot_rest \<Rightarrow> (string, 'w spot_state) doing" where
  "getListenKey R = act_map slk_listenKey (spot_endpoint R POST ''/api/v3/userDataStream'' [] False
     (spot_handleMEXCResponse (sr_lib R) spot_ListenKey_fromJson spot_ListenKey_default))"

definition getListenKeys :: "('c, 'w) spot_rest \<Rightarrow> (spot_ListenKeys, 'w spot_state) doing" where
  "getListenKeys R = spot_endpoint R GET ''/api/v3/userDataStream'' [] False
     (spot_handleMEXCResponse (sr_lib R) spot_ListenKeys_fromJson spot_ListenKeys_default)"

definition renewListenKey :: "('c, 'w) spot_rest \<Rightarrow> string \<Rightarrow> (string, 'w spot_state) doing" where
  "renewListenKey R listenKey = act_map slk_listenKey
     (spot_endpoint R PUT ''/api/v3/userDataStream'' (put ''listenKey'' listenKey []) False
       (spot_handleMEXCResponse (sr_lib R) spot_ListenKey_fromJson spot_ListenKey_default))"

definition closeListenKey :: "('c, 'w) spot_rest \<Rightarrow> string \<Rightarrow> (string, 'w spot_state) doing" where
  "closeListenKey R listenKey = act_map slk_listenKey
     (spot_endpoint R DELETE ''/api/v3/userDataStream'' (put ''listenKey'' listenKey []) False
       (spot_handleMEXCResponse (sr_lib R) spot_ListenKey_fromJson spot_ListenKey_default))"

subsection \<open>Historical candles\<close>

text \<open>
  The loop of \<open>getHistoricalPrices\<close> over the function that fetches one batch; the batches handed to
  the writer are returned with the result. \<open>spot_history\<close> is the whole method but for that function.
\<close>

definition candle_limit :: int where
  "candle_limit = 1000"

partial_function (option) spot_batches ::
  "(int \<Rightarrow> int \<Rightarrow> (spot_Candle list, 's) doing) \<Rightarrow> int \<Rightarrow> int \<Rightarrow> spot_Candle list \<Rightarrow> spot_Candle list \<Rightarrow>
   spot_Candle list list \<Rightarrow> ev list \<Rightarrow> 's \<Rightarrow>
   (spot_Candle list result \<times> spot_Candle list list \<times> ev list \<times> 's) option" where
  "spot_batches fetch intervalMs startTime candles retVal written es s =
    (if candles = [] then Some (Inr retVal, written, es, s)
     else
       let currentEndTime = sc_openTime (hd candles) - intervalMs;
           written' = written @ [candles];
           retVal' = candles @ retVal
       in if startTime \<le> currentEndTime then
            (case fetch (max startTime (currentEndTime - candle_limit * intervalMs)) currentEndTime s of
               (Inl e, es', s') \<Rightarrow> Some (Inl e, written', es @ es', s')
             | (Inr candles', es', s') \<Rightarrow>
                 spot_batches fetch intervalMs startTime candles' retVal' written' (es @ es') s')
          else Some (Inr retVal', written', es, s))"

definition spot_history ::
  "(int \<Rightarrow> int \<Rightarrow> (spot_Candle list, 's) doing) \<Rightarrow> int \<Rightarrow> int \<Rightarrow> int \<Rightarrow> 's \<Rightarrow>
   (spot_Candle list result \<times> spot_Candle list list \<times> ev list \<times> 's) option" where
  "spot_history fetch intervalMs startTime endTime s =
    (if startTime \<le> endTime then
       (case fetch (if endTime - startTime > candle_limit * intervalMs then 0 else startTime) endTime s of
          (Inl e, es, s') \<Rightarrow> Some (Inl e, [], es, s')
        | (Inr candles, es, s') \<Rightarrow> spot_batches fetch intervalMs startTime candles [] [] es s')
     else Some (Inr [], [], [], s))"

definition spot_getHistoricalPrices ::
  "('c, 'w) spot_rest \<Rightarrow> string \<Rightarrow> CandleInterval \<Rightarrow> int \<Rightarrow> int \<Rightarrow> 'w spot_state \<Rightarrow>
   (spot_Candle list result \<times> spot_Candle list list \<times> ev list \<times> 'w spot_state) option" where
  "spot_getHistoricalPrices R symbol interval startTime endTime =
     spot_history (\<lambda>st en. spot_klines R symbol interval st en candle_limit)
       (numberOfMsForCandleInterval interval) startTime endTime"


subsection \<open>Pagination returns, in order\<close>

text \<open>
  What the loop relies on: the batch that ends at \<open>en\<close> has its candles oldest first, none of them later
  than \<open>en\<close>. \<open>E\<close> holds the end times that can occur; it is closed under going back one interval from
  a candle.
\<close>

definition batches_end ::
  "(int \<Rightarrow> int \<Rightarrow> (spot_Candle list, 's) doing) \<Rightarrow> int set \<Rightarrow> int \<Rightarrow> int \<Rightarrow> bool" where
  "batches_end fetch E i startTime \<longleftrightarrow>
    (\<forall>en \<in> E. startTime \<le> en \<longrightarrow> (\<forall>s cs es s'.
       fetch (max startTime (en - candle_limit * i)) en s = (Inr cs, es, s') \<longrightarrow>
         sorted_wrt (<) (map sc_openTime cs) \<and> (\<forall>c \<in> set cs. sc_openTime c \<le> en \<and> sc_openTime c - i \<in> E)))"

lemma batches_endD:
  assumes "batches_end fetch E i startTime" "en \<in> E" "startTime \<le> en"
    "fetch (max startTime (en - candle_limit * i)) en s = (Inr cs, es, s')"
  shows "sorted_wrt (<) (map sc_openTime cs)" "\<forall>c \<in> set cs. sc_openTime c \<le> en \<and> sc_openTime c - i \<in> E"
  using assms unfolding batches_end_def by blast+

lemma spot_batches_return:
  assumes law: "batches_end fetch E i startTime" and i: "0 < i"
  shows "sorted_wrt (<) (map sc_openTime candles) \<Longrightarrow> \<forall>c \<in> set candles. sc_openTime c \<le> X \<and> sc_openTime c - i \<in> E \<Longrightarrow>
    sorted_wrt (<) (map sc_openTime retVal) \<Longrightarrow> \<forall>c \<in> set retVal. X < sc_openTime c \<Longrightarrow>
    retVal = concat (rev written) \<Longrightarrow>
    \<exists>res written' es' s'. spot_batches fetch i startTime candles retVal written es s = Some (res, written', es', s') \<and>
      (\<forall>e. res = Inl e \<longrightarrow> (\<exists>en \<in> E. \<exists>s. fst (fetch (max startTime (en - candle_limit * i)) en s) = Inl e)) \<and>
      (\<forall>cs. res = Inr cs \<longrightarrow> sorted_wrt (<) (map sc_openTime cs) \<and> cs = concat (rev written') \<and>
         (\<exists>older. cs = older @ candles @ retVal \<and> (\<forall>c \<in> set older. sc_openTime c \<le> X)))"
proof (induction "nat (X - startTime)" arbitrary: X candles retVal written es s rule: less_induct)
  case less
  show ?case
  proof (cases "candles = []")
    case True
    then show ?thesis using less.prems by (simp add: spot_batches.simps)
  next
    case False
    let ?en = "sc_openTime (hd candles) - i" and ?ret = "candles @ retVal" and ?wr = "written @ [candles]"
    have hd: "hd candles \<in> set candles" using False by simp
    then have en: "?en \<in> E" "?en < X" using less.prems(2) i by force+
    have ret: "sorted_wrt (<) (map sc_openTime ?ret)"
      using sorted_join [OF less.prems(1,3), of X] less.prems(2,4) by blast
    have wr: "?ret = concat (rev ?wr)" using less.prems(5) by simp
    have above: "\<forall>c \<in> set ?ret. ?en < sc_openTime c"
    proof
      fix c assume "c \<in> set ?ret"
      moreover have "sc_openTime (hd candles) \<le> sc_openTime c" if "c \<in> set candles"
        using less.prems(1) that False by (cases candles) (auto simp: less_imp_le)
      ultimately show "?en < sc_openTime c" using less.prems(4) en(2) i by fastforce
    qed
    show ?thesis
    proof (cases "startTime \<le> ?en")
      case stop: False
      have "spot_batches fetch i startTime candles retVal written es s = Some (Inr ?ret, ?wr, es, s)"
        using False stop by (simp add: spot_batches.simps Let_def)
      then show ?thesis using ret wr less.prems(2) by auto
    next
      case go: True
      obtain r es1 s1 where f: "fetch (max startTime (?en - candle_limit * i)) ?en s = (r, es1, s1)"
        by (metis prod_cases3)
      show ?thesis
      proof (cases r)
        case (Inl e)
        then have "fst (fetch (max startTime (?en - candle_limit * i)) ?en s) = Inl e" using f by simp
        with en(1) have "\<exists>en \<in> E. \<exists>s. fst (fetch (max startTime (en - candle_limit * i)) en s) = Inl e" by blast
        moreover have "spot_batches fetch i startTime candles retVal written es s = Some (Inl e, ?wr, es @ es1, s1)"
          using False go f Inl by (simp add: spot_batches.simps Let_def)
        ultimately show ?thesis by simp
      next
        case (Inr cs1)
        note page = batches_endD [OF law en(1) go f [unfolded Inr]]
        have dec: "nat (?en - startTime) < nat (X - startTime)" using go en(2) by linarith
        have step: "spot_batches fetch i startTime candles retVal written es s
            = spot_batches fetch i startTime cs1 ?ret ?wr (es @ es1) s1"
          using False go f Inr by (subst spot_batches.simps) (simp add: Let_def)
        obtain res written' es' s' where
          run: "spot_batches fetch i startTime cs1 ?ret ?wr (es @ es1) s1 = Some (res, written', es', s')"
          and bad: "\<forall>e. res = Inl e \<longrightarrow> (\<exists>en \<in> E. \<exists>s. fst (fetch (max startTime (en - candle_limit * i)) en s) = Inl e)"
          and ok: "\<forall>cs. res = Inr cs \<longrightarrow> sorted_wrt (<) (map sc_openTime cs) \<and> cs = concat (rev written') \<and>
             (\<exists>older. cs = older @ cs1 @ ?ret \<and> (\<forall>c \<in> set older. sc_openTime c \<le> ?en))"
          using less.hyps [OF dec page ret above wr, of "es @ es1" s1] by (elim exE conjE) (rule that)
        have "\<exists>older. cs = older @ candles @ retVal \<and> (\<forall>c \<in> set older. sc_openTime c \<le> X)" if "res = Inr cs" for cs
        proof -
          obtain older where o: "cs = older @ cs1 @ ?ret" "\<forall>c \<in> set older. sc_openTime c \<le> ?en" using ok \<open>res = Inr cs\<close> by blast
          have "cs = (older @ cs1) @ candles @ retVal" using o(1) by simp
          moreover have "\<forall>c \<in> set (older @ cs1). sc_openTime c \<le> X" using o(2) page(2) en(2) by fastforce
          ultimately show ?thesis by blast
        qed
        then show ?thesis using run step bad ok by simp
      qed
    qed
  qed
qed

text \<open>The venue's documented behaviour: candles oldest first, none later than the end time asked for.\<close>

definition spot_venue_window :: "(int \<Rightarrow> int \<Rightarrow> (spot_Candle list, 's) doing) \<Rightarrow> int \<Rightarrow> bool" where
  "spot_venue_window fetch startTime \<longleftrightarrow>
    (\<forall>st en s cs es s'. fetch st en s = (Inr cs, es, s') \<longrightarrow> startTime \<le> en \<longrightarrow>
       sorted_wrt (<) (map sc_openTime cs) \<and> (\<forall>c \<in> set cs. sc_openTime c \<le> en))"

text \<open>
  C34. Downloading spot candles terminates and is ordered: if the venue answers every batch oldest
  candle first and with none later than the end asked for, \<open>getHistoricalPrices\<close> returns; unless a
  request fails, the result is in strictly ascending order of time, none later than the end time, and it is the batches
  given to the writer, last batch first. Nothing is removed at the end.
\<close>

theorem spot_candles_ordered:
  assumes "spot_venue_window (\<lambda>st en. spot_klines R symbol interval st en candle_limit) startTime"
    and "named_interval interval"
  shows "\<exists>res written es s'. spot_getHistoricalPrices R symbol interval startTime endTime s = Some (res, written, es, s') \<and>
    (\<forall>cs. res = Inr cs \<longrightarrow> sorted_wrt (<) (map sc_openTime cs) \<and> cs = concat (rev written) \<and>
       (\<forall>c \<in> set cs. sc_openTime c \<le> endTime))"
proof (cases "startTime \<le> endTime")
  case False
  then show ?thesis by (simp add: spot_getHistoricalPrices_def spot_history_def)
next
  case True
  let ?i = "numberOfMsForCandleInterval interval"
  let ?fetch = "\<lambda>st en. spot_klines R symbol interval st en candle_limit"
  have i: "0 < ?i" using numberOfMs_pos [OF assms(2)] by simp
  have law: "batches_end ?fetch UNIV ?i startTime" using assms(1) unfolding batches_end_def spot_venue_window_def by fast
  obtain r es s1 where page: "?fetch (if endTime - startTime > candle_limit * ?i then 0 else startTime) endTime s = (r, es, s1)"
    by (metis prod_cases3)
  show ?thesis
  proof (cases r)
    case (Inl e)
    then show ?thesis using True page by (simp add: spot_getHistoricalPrices_def spot_history_def)
  next
    case (Inr candles)
    have w: "sorted_wrt (<) (map sc_openTime candles)"
      and le: "\<forall>c \<in> set candles. sc_openTime c \<le> endTime \<and> sc_openTime c - ?i \<in> UNIV"
      using assms(1) page Inr True unfolding spot_venue_window_def by fast+
    obtain res written es' s' where
      run: "spot_batches ?fetch ?i startTime candles [] [] es s1 = Some (res, written, es', s')"
      and ok: "\<forall>cs. res = Inr cs \<longrightarrow> sorted_wrt (<) (map sc_openTime cs) \<and> cs = concat (rev written) \<and>
         (\<exists>older. cs = older @ candles \<and> (\<forall>c \<in> set older. sc_openTime c \<le> endTime))"
      using spot_batches_return [OF law i w le, of "[]" "[]" es s1] by auto
    then have "\<forall>cs. res = Inr cs \<longrightarrow> sorted_wrt (<) (map sc_openTime cs) \<and> cs = concat (rev written) \<and>
         (\<forall>c \<in> set cs. sc_openTime c \<le> endTime)"
      using le by fastforce
    then show ?thesis using run True page Inr by (simp add: spot_getHistoricalPrices_def spot_history_def)
  qed
qed


definition spot_canned :: "json \<Rightarrow> (unit, nat) spot_rest" where
  "spot_canned j = \<lparr>sr_net = (canned_net (answer_with ''page''))\<lparr>hmac_hex := \<lambda>k m. int_str (int (length k + length m))\<rparr>,
     sr_lib = std_jlib\<lparr>parse := parse_to j\<rparr>,
     sr_cfg = spot_session ''key'' ''secret''\<rparr>"

definition spot_start :: "nat spot_state" where
  "spot_start = \<lparr>sp_requestTimes = [], sp_world = 0\<rparr>"

definition one_spot_candle :: json where
  "one_spot_candle = (let x = JStr ''1'' in JArr [JArr [JInt 120000, x, x, x, x, x, JInt 179999, x]])"

lemma spot_endpoint_Inr:
  assumes "spot_endpoint R method path parameters isPublic handle s = (Inr a, es, s')"
  obtains response where "handle response = Inr a"
  using assms
  by (auto simp: spot_endpoint_def act_bind_def act_lift_def after_def spot_checkResponse_def
      split: prod.splits sum.splits if_splits)

lemma one_spot_candle_page:
  assumes "spot_klines (spot_canned one_spot_candle) symbol interval st en limit s = (Inr cs, es, s')"
  shows "map sc_openTime cs = [120000]"
proof -
  have "case read_candles (std_jlib\<lparr>parse := parse_to one_spot_candle\<rparr>) response of
      Inl e \<Rightarrow> False | Inr cs \<Rightarrow> map sc_openTime cs = [120000]" for response
    by (simp add: read_candles_def parse_to_def one_spot_candle_def Let_def) code_simp
  note parsed = this
  obtain response where "read_candles (sr_lib (spot_canned one_spot_candle)) response = Inr cs"
    using assms unfolding spot_klines_def Let_def by (elim spot_endpoint_Inr)
  then show ?thesis using parsed [of response] by (simp add: spot_canned_def)
qed

theorem spot_candles_ordered_witness:
  "case spot_getHistoricalPrices (spot_canned one_spot_candle) ''BTCUSDT'' I_1m 120000 300000 spot_start of
     None \<Rightarrow> False
   | Some (res, written, es, s') \<Rightarrow> \<exists>cs. res = Inr cs \<and> sorted_wrt (<) (map sc_openTime cs) \<and> cs = concat (rev written)"
proof -
  let ?R = "spot_canned one_spot_candle"
  have "spot_venue_window (\<lambda>st en. spot_klines ?R ''BTCUSDT'' I_1m st en candle_limit) 120000"
    unfolding spot_venue_window_def
  proof (intro allI impI)
    fix st en s cs es s'
    assume "spot_klines ?R ''BTCUSDT'' I_1m st en candle_limit s = (Inr cs, es, s')" and "(120000::int) \<le> en"
    with one_spot_candle_page have "map sc_openTime cs = [120000]" "120000 \<le> en" by blast+
    then show "sorted_wrt (<) (map sc_openTime cs) \<and> (\<forall>c \<in> set cs. sc_openTime c \<le> en)"
      by (auto simp: map_eq_Cons_conv)
  qed
  from spot_candles_ordered [OF this, of 300000 spot_start]
  obtain res written es s' where run: "spot_getHistoricalPrices ?R ''BTCUSDT'' I_1m 120000 300000 spot_start = Some (res, written, es, s')"
    and ok: "\<forall>cs. res = Inr cs \<longrightarrow> sorted_wrt (<) (map sc_openTime cs) \<and> cs = concat (rev written)"
    by (auto simp: named_interval_def)
  have "case spot_klines ?R ''BTCUSDT'' I_1m 120000 300000 1000 spot_start of
      (Inl e, es, s') \<Rightarrow> False | (Inr cs, es, s') \<Rightarrow> map sc_openTime cs = [120000]" by code_simp
  then have "\<not> isl res"
    using run unfolding spot_getHistoricalPrices_def spot_history_def spot_batches.simps [of _ _ _ _ "[]"]
    by (auto simp: candle_limit_def map_eq_Cons_conv Let_def split: prod.splits sum.splits)
  then show ?thesis using run ok by (cases res) auto
qed


subsection \<open>The candle between two batches\<close>

text \<open>
  The behaviour of the venue that the comments of \<open>getHistoricalPrices\<close> state: with a start time it
  returns the first 1000 candles from there forward, without one the newest 1000 up to the end.
  The market traded in every interval, so that there is a candle at every multiple of \<open>i\<close>.
\<close>

definition grid :: "int \<Rightarrow> int \<Rightarrow> int \<Rightarrow> int list" where
  "grid i a b = map (\<lambda>k. k * i) [a..b]"

definition venue_forward :: "(int \<Rightarrow> int \<Rightarrow> (spot_Candle list, 's) doing) \<Rightarrow> int \<Rightarrow> bool" where
  "venue_forward fetch i \<longleftrightarrow> (\<forall>a b s. \<exists>cs es s'. fetch (a * i) (b * i) s = (Inr cs, es, s') \<and>
     map sc_openTime cs = (if a \<le> 0 then grid i (b - (candle_limit - 1)) b else take (nat candle_limit) (grid i a b)))"

lemma grid_sorted: "0 < i \<Longrightarrow> sorted_wrt (<) (grid i a b)"
  by (auto simp: grid_def sorted_wrt_map intro: sorted_wrt_mono_rel [where P = "(<)"])

lemma take_upto: "0 \<le> n \<Longrightarrow> n \<le> b - a + 1 \<Longrightarrow> take (nat n) [a..b] = [a..a + n - 1]"
  by (rule nth_equalityI) auto

lemma take_grid: "take (nat candle_limit) (grid i (b - candle_limit) b) = grid i (b - candle_limit) (b - 1)"
  using take_upto [of candle_limit b "b - candle_limit"] by (simp add: grid_def candle_limit_def take_map)

lemma venue_forward_page:
  assumes "venue_forward fetch i" "0 < i" "fetch (a * i) (b * i) s = (r, es, s')"
  obtains cs where "r = Inr cs" "sorted_wrt (<) (map sc_openTime cs)" "\<forall>c \<in> set cs. \<exists>k \<le> b. sc_openTime c = k * i"
    "map sc_openTime cs = (if a \<le> 0 then grid i (b - (candle_limit - 1)) b else take (nat candle_limit) (grid i a b))"
proof -
  obtain cs where cs: "r = Inr cs"
    "map sc_openTime cs = (if a \<le> 0 then grid i (b - (candle_limit - 1)) b else take (nat candle_limit) (grid i a b))"
    using assms(1,3) unfolding venue_forward_def by (metis prod.inject)
  have sorted: "sorted_wrt (<) (map sc_openTime cs)" using grid_sorted [OF assms(2)] by (simp add: cs(2) sorted_wrt_take)
  have "\<exists>k \<le> b. sc_openTime c = k * i" if "c \<in> set cs" for c
  proof -
    have "sc_openTime c \<in> set (map sc_openTime cs)" using that by simp
    then show ?thesis using assms(2) unfolding cs(2) by (auto simp: grid_def dest!: in_set_takeD split: if_splits)
  qed
  then show thesis using cs sorted by (intro that) simp_all
qed


lemma venue_forward_batches:
  assumes "venue_forward fetch i" "0 < i"
  shows "batches_end fetch (range (\<lambda>k. k * i)) i (a * i)"
  unfolding batches_end_def
proof (intro ballI allI impI)
  fix en s cs es s'
  assume "en \<in> range (\<lambda>k. k * i)" and f: "fetch (max (a * i) (en - candle_limit * i)) en s = (Inr cs, es, s')"
  then obtain k where en: "en = k * i" by blast
  have start: "max (a * i) (k * i - candle_limit * i) = max a (k - candle_limit) * i"
    using assms(2) by (simp add: max_def left_diff_distrib [symmetric])
  obtain cs' where "(Inr cs :: spot_Candle list result) = Inr cs'" "sorted_wrt (<) (map sc_openTime cs')"
    "\<forall>c \<in> set cs'. \<exists>l \<le> k. sc_openTime c = l * i"
    by (rule venue_forward_page [OF assms f [unfolded en start]])
  moreover have "l * i - i = (l - 1) * i" for l by (simp add: algebra_simps)
  ultimately show "sorted_wrt (<) (map sc_openTime cs) \<and>
      (\<forall>c \<in> set cs. sc_openTime c \<le> en \<and> sc_openTime c - i \<in> range (\<lambda>k. k * i))"
    using assms(2) by (auto simp: en)
qed

lemma venue_forward_answers:
  assumes "venue_forward fetch i" "0 < i"
  shows "fst (fetch (max (a * i) (k * i - candle_limit * i)) (k * i) s) \<noteq> Inl e"
proof -
  have "max (a * i) (k * i - candle_limit * i) = max a (k - candle_limit) * i"
    using assms(2) by (simp add: max_def left_diff_distrib [symmetric])
  then show ?thesis using assms(1) unfolding venue_forward_def by (metis fst_conv sum.distinct(1))
qed

lemma grid_of:
  assumes "map sc_openTime cs = grid i a b" "a \<le> b"
  shows "cs \<noteq> []" "sc_openTime (hd cs) = a * i" "sc_openTime (last cs) = b * i"
    "0 < i \<Longrightarrow> \<forall>c \<in> set cs. a * i \<le> sc_openTime c \<and> sc_openTime c \<le> b * i \<and> (\<exists>k. sc_openTime c = k * i)"
proof -
  show ne: "cs \<noteq> []" using assms by (auto simp: grid_def)
  have "hd (map sc_openTime cs) = a * i" unfolding assms(1) using assms(2) by (simp add: grid_def upto_rec1 [of a b])
  moreover have "last (map sc_openTime cs) = b * i" unfolding assms(1) using assms(2) by (simp add: grid_def upto_rec2 [of a b])
  ultimately show "sc_openTime (hd cs) = a * i" "sc_openTime (last cs) = b * i" using ne by (simp_all add: hd_map last_map)
  show "\<forall>c \<in> set cs. a * i \<le> sc_openTime c \<and> sc_openTime c \<le> b * i \<and> (\<exists>k. sc_openTime c = k * i)" if "0 < i"
  proof
    fix c assume "c \<in> set cs"
    then have "sc_openTime c \<in> set (grid i a b)" unfolding assms(1) [symmetric] by simp
    then show "a * i \<le> sc_openTime c \<and> sc_openTime c \<le> b * i \<and> (\<exists>k. sc_openTime c = k * i)"
      using that by (auto simp: grid_def)
  qed
qed

text \<open>The first two batches of a long download: the newest 1000 candles, and the 1000 that end two intervals before.\<close>

lemma first_two_batches:
  assumes venue: "venue_forward fetch i" and i: "0 < i" and ab: "0 < a" "a + 2 * candle_limit \<le> b"
  obtains cs1 cs2 es s' where
    "spot_history fetch i (a * i) (b * i) s = spot_batches fetch i (a * i) cs2 cs1 [cs1] es s'"
    "map sc_openTime cs1 = grid i (b - candle_limit + 1) b"
    "map sc_openTime cs2 = grid i (b - 2 * candle_limit) (b - candle_limit - 1)"
proof -
  have lim: "candle_limit = 1000" by (simp add: candle_limit_def)
  obtain cs1 es1 s1 where f1: "fetch (0 * i) (b * i) s = (Inr cs1, es1, s1)"
    and t1: "map sc_openTime cs1 = grid i (b - candle_limit + 1) b"
    using venue unfolding venue_forward_def by (metis (no_types, lifting) diff_diff_eq2 diff_add_eq order_refl)
  let ?b2 = "b - candle_limit"
  obtain cs2 es2 s2 where f2: "fetch ((?b2 - candle_limit) * i) (?b2 * i) s1 = (Inr cs2, es2, s2)"
    and "map sc_openTime cs2 = (if ?b2 - candle_limit \<le> 0 then grid i (?b2 - (candle_limit - 1)) ?b2
      else take (nat candle_limit) (grid i (?b2 - candle_limit) ?b2))"
    using venue unfolding venue_forward_def by blast
  then have t2: "map sc_openTime cs2 = grid i (?b2 - candle_limit) (?b2 - 1)"
    using ab by (simp only: take_grid) (simp add: lim)
  have first: "cs1 \<noteq> []" "sc_openTime (hd cs1) - i = ?b2 * i"
    using grid_of [OF t1] by (simp_all add: lim algebra_simps)
  have "max (a * i) (?b2 * i - candle_limit * i) = (?b2 - candle_limit) * i" "candle_limit * i < b * i - a * i" "a * i \<le> ?b2 * i" "a * i \<le> b * i"
    using ab i by (simp_all add: lim max_def left_diff_distrib [symmetric])
  then have "spot_history fetch i (a * i) (b * i) s = spot_batches fetch i (a * i) cs2 cs1 [cs1] (es1 @ es2) s2"
    using f1 f2 first by (simp add: spot_history_def spot_batches.simps [of fetch i "a * i" cs1] Let_def)
  moreover have "?b2 - candle_limit = b - 2 * candle_limit" by simp
  ultimately show thesis using that t1 t2 by metis
qed

text \<open>The check that the manual test \<open>main_spot.cpp\<close> makes of a download: every candle follows the one before.\<close>

definition gap_free :: "int \<Rightarrow> spot_Candle list \<Rightarrow> bool" where
  "gap_free mSecs candles \<longleftrightarrow> candles \<noteq> [] \<and> successively (\<lambda>c d. sc_openTime d - sc_openTime c = mSecs) candles"

definition checkCandles :: "spot_Candle list \<Rightarrow> CandleInterval \<Rightarrow> bool" where
  "checkCandles candles interval = gap_free (numberOfMsForCandleInterval interval) candles"

text \<open>Two batches that leave out the candle between them.\<close>

lemma gap_between:
  assumes "0 < i" "map sc_openTime cs1 = grid i (b - candle_limit + 1) b"
    and "map sc_openTime cs2 = grid i (b - 2 * candle_limit) (b - candle_limit - 1)"
    and "\<forall>c \<in> set before. sc_openTime c \<le> (b - candle_limit - 1) * i"
  shows "(b - candle_limit) * i \<notin> sc_openTime ` set (before @ cs2 @ cs1)" "\<not> gap_free i (before @ cs2 @ cs1)"
proof -
  have lim: "candle_limit = 1000" by (simp add: candle_limit_def)
  note g1 = grid_of [OF assms(2), unfolded lim, simplified] and g2 = grid_of [OF assms(3), unfolded lim, simplified]
  have mid: "(b - candle_limit - 1) * i < (b - candle_limit) * i" "(b - candle_limit) * i < (b - candle_limit + 1) * i"
    using assms(1) by simp_all
  have "\<forall>c \<in> set cs1. (b - candle_limit) * i < sc_openTime c" using g1(4) [OF assms(1)] mid(2) by (fastforce simp: lim)
  moreover have "\<forall>c \<in> set (before @ cs2). sc_openTime c < (b - candle_limit) * i"
    using g2(4) [OF assms(1)] assms(4) mid(1) by (fastforce simp: lim)
  ultimately have "\<forall>c \<in> set (before @ cs2 @ cs1). sc_openTime c \<noteq> (b - candle_limit) * i"
    unfolding set_append by (metis UnE UnI1 UnI2 less_irrefl)
  then show "(b - candle_limit) * i \<notin> sc_openTime ` set (before @ cs2 @ cs1)" by (metis imageE)
  have "sc_openTime (hd cs1) - sc_openTime (last cs2) = i + i" using g1(2) g2(3) by (simp add: algebra_simps)
  then show "\<not> gap_free i (before @ cs2 @ cs1)"
    using g1(1) g2(1) assms(1) by (simp add: gap_free_def successively_append_iff)
qed

text \<open>
  C38. A long spot download loses candles: when the venue answers as the comments of the code say and
  every request succeeds, a download of more than 2000 intervals returns, and the candle 1000
  intervals before the end is not in the result, nor given to the writer, although the venue has it
  and it lies inside the range; the gap check of the repository's own test program rejects the result.
  The window of a batch, from 1000 intervals before its end to its end,
  holds 1001 candles, and the venue returns the first 1000 of them.
\<close>

theorem spot_history_gap:
  assumes venue: "venue_forward fetch i" and i: "0 < i" and ab: "0 < a" "a + 2 * candle_limit \<le> b"
  shows "\<exists>cs written es s'. spot_history fetch i (a * i) (b * i) s = Some (Inr cs, written, es, s') \<and>
    cs = concat (rev written) \<and> (b - candle_limit) * i \<notin> sc_openTime ` set cs \<and>
    a * i \<le> (b - candle_limit) * i \<and> (b - candle_limit) * i \<le> b * i \<and> \<not> gap_free i cs"
proof -
  have lim: "candle_limit = 1000" by (simp add: candle_limit_def)
  obtain cs1 cs2 es1 s1 where
    run: "spot_history fetch i (a * i) (b * i) s = spot_batches fetch i (a * i) cs2 cs1 [cs1] es1 s1"
    and t1: "map sc_openTime cs1 = grid i (b - candle_limit + 1) b"
    and t2: "map sc_openTime cs2 = grid i (b - 2 * candle_limit) (b - candle_limit - 1)"
    by (rule first_two_batches [OF assms])
  note g1 = grid_of [OF t1, unfolded lim, simplified] and g2 = grid_of [OF t2, unfolded lim, simplified]
  have mid: "(b - candle_limit - 1) * i < (b - candle_limit) * i" "(b - candle_limit) * i < (b - candle_limit + 1) * i"
    using i by simp_all
  have newer: "\<forall>c \<in> set cs1. (b - candle_limit) * i < sc_openTime c"
    using g1(4) [OF i] mid(2) by (fastforce simp: lim)
  have one_back: "k * i - i = (k - 1) * i" for k by (simp add: algebra_simps)
  have older: "\<forall>c \<in> set cs2. sc_openTime c \<le> (b - candle_limit - 1) * i \<and> sc_openTime c - i \<in> range (\<lambda>k. k * i)"
    using g2(4) [OF i] one_back by (fastforce simp: lim)
  obtain res written es s' where
    fin: "spot_batches fetch i (a * i) cs2 cs1 [cs1] es1 s1 = Some (res, written, es, s')"
    and bad: "\<forall>e. res = Inl e \<longrightarrow> (\<exists>en \<in> range (\<lambda>k. k * i). \<exists>s. fst (fetch (max (a * i) (en - candle_limit * i)) en s) = Inl e)"
    and ok: "\<forall>cs. res = Inr cs \<longrightarrow> sorted_wrt (<) (map sc_openTime cs) \<and> cs = concat (rev written) \<and>
       (\<exists>before. cs = before @ cs2 @ cs1 \<and> (\<forall>c \<in> set before. sc_openTime c \<le> (b - candle_limit - 1) * i))"
    using spot_batches_return [OF venue_forward_batches [OF venue i] i _ older, of cs1 "[cs1]" a es1 s1]
      grid_sorted [OF i] newer mid by (fastforce simp: t1 t2)
  obtain cs where cs: "res = Inr cs"
    using bad venue_forward_answers [OF venue i] by (cases res) auto
  then obtain before where parts: "cs = before @ cs2 @ cs1" "\<forall>c \<in> set before. sc_openTime c \<le> (b - candle_limit - 1) * i"
    and wr: "cs = concat (rev written)" using ok by blast
  note gap = gap_between [OF i t1 t2 parts(2), folded parts(1)]
  have "a * i \<le> (b - candle_limit) * i" "(b - candle_limit) * i \<le> b * i"
    by (rule mult_right_mono; use ab i in \<open>simp add: lim\<close>)+
  moreover have "spot_history fetch i (a * i) (b * i) s = Some (Inr cs, written, es, s')" using run fin cs by simp
  ultimately show ?thesis using wr gap by blast
qed

text \<open>A venue with a candle for every minute, as the comments describe it.\<close>

definition minute_venue :: "int \<Rightarrow> int \<Rightarrow> (spot_Candle list, unit) doing" where
  "minute_venue st en s =
    (let a = st div 60000; b = en div 60000;
         times = (if a \<le> 0 then grid 60000 (b - (candle_limit - 1)) b else take (nat candle_limit) (grid 60000 a b))
     in (Inr (map (\<lambda>t. spot_Candle_default\<lparr>sc_openTime := t\<rparr>) times), [], s))"

theorem spot_history_gap_witness:
  "\<exists>cs written es s'. spot_history minute_venue (numberOfMsForCandleInterval I_1m) 60000 180000000 () = Some (Inr cs, written, es, s') \<and>
     120000000 \<notin> sc_openTime ` set cs"
proof -
  have venue: "venue_forward minute_venue (numberOfMsForCandleInterval I_1m)"
    by (simp add: venue_forward_def minute_venue_def Let_def comp_def)
  have "0 < numberOfMsForCandleInterval I_1m" "(0::int) < 1" "1 + 2 * candle_limit \<le> 3000"
    by (simp_all add: candle_limit_def)
  note gap = spot_history_gap [OF venue this, of "()"]
  then obtain cs written es s' where
    "spot_history minute_venue (numberOfMsForCandleInterval I_1m) (1 * numberOfMsForCandleInterval I_1m)
       (3000 * numberOfMsForCandleInterval I_1m) () = Some (Inr cs, written, es, s')"
    "(3000 - candle_limit) * numberOfMsForCandleInterval I_1m \<notin> sc_openTime ` set cs"
    by (elim exE conjE) (rule that)
  then have "spot_history minute_venue (numberOfMsForCandleInterval I_1m) 60000 180000000 () = Some (Inr cs, written, es, s')"
    "120000000 \<notin> sc_openTime ` set cs" by (simp_all add: candle_limit_def)
  then show ?thesis by blast
qed


subsection \<open>Query strings read back\<close>

text \<open>How the other side takes a query string apart: at every \<open>&\<close>, and each part at its first \<open>=\<close>.\<close>

fun split_on :: "char \<Rightarrow> string \<Rightarrow> string list" where
  "split_on c [] = [[]]"
| "split_on c (x # xs) = (if x = c then [] # split_on c xs
     else (case split_on c xs of [] \<Rightarrow> [[x]] | p # ps \<Rightarrow> (x # p) # ps))"

definition read_pair :: "string \<Rightarrow> string \<times> string" where
  "read_pair s = (takeWhile (\<lambda>c. c \<noteq> CHR ''='') s, drop 1 (dropWhile (\<lambda>c. c \<noteq> CHR ''='') s))"

definition read_query :: "string \<Rightarrow> (string \<times> string) list" where
  "read_query s = (if s = [] then [] else map read_pair (split_on CHR ''&'' s))"

definition plain_params :: "(string \<times> string) list \<Rightarrow> bool" where
  "plain_params ps \<longleftrightarrow> list_all (\<lambda>(k, v). CHR ''='' \<notin> set k \<and> CHR ''&'' \<notin> set k \<and> CHR ''&'' \<notin> set v) ps"

lemma plain_params_simps [simp]:
  "plain_params []"
  "plain_params ((k, v) # ps) \<longleftrightarrow>
     CHR ''='' \<notin> set k \<and> CHR ''&'' \<notin> set k \<and> CHR ''&'' \<notin> set v \<and> plain_params ps"
  by (simp_all add: plain_params_def)

lemma plain_params_put: "plain_params ps \<Longrightarrow> plain_params [(k, v)] \<Longrightarrow> plain_params (put k v ps)"
  by (induction k v ps rule: put.induct) auto

lemma split_on_plain: "c \<notin> set p \<Longrightarrow> split_on c p = [p]"
  by (induction p) auto

lemma split_on_append: "c \<notin> set p \<Longrightarrow> split_on c (p @ c # rest) = p # split_on c rest"
  by (induction p) auto

lemma read_pair_plain: "CHR ''='' \<notin> set k \<Longrightarrow> read_pair (k @ ''='' @ v) = (k, v)"
proof -
  assume "CHR ''='' \<notin> set k"
  then have "\<forall>x \<in> set k. x \<noteq> CHR ''=''" by auto
  then show ?thesis by (simp add: read_pair_def takeWhile_append2 dropWhile_append2)
qed

lemma createQueryStr_Nil [simp]: "createQueryStr [] = []"
  by (simp add: createQueryStr_def)

lemma createQueryStr_Cons:
  "createQueryStr ((k, v) # ps) = k @ ''='' @ v @ (if ps = [] then [] else CHR ''&'' # createQueryStr ps)"
  by (cases ps) (auto simp: createQueryStr_def Let_def butlast_append)

lemma spot_createQueryStr_same: "spot_createQueryStr = createQueryStr"
  by (simp add: fun_eq_iff spot_createQueryStr_def createQueryStr_def)

lemma read_createQueryStr: "plain_params ps \<Longrightarrow> read_query (createQueryStr ps) = ps"
proof (induction ps)
  case (Cons e ps)
  obtain k v where e: "e = (k, v)" by fastforce
  have plain: "CHR ''='' \<notin> set k" "CHR ''&'' \<notin> set (k @ ''='' @ v)" and rest: "plain_params ps"
    using Cons.prems by (auto simp: e)
  show ?case
  proof (cases "ps = []")
    case True
    then show ?thesis
      using plain split_on_plain [OF plain(2)] read_pair_plain [of k v]
      by (simp add: e createQueryStr_Cons read_query_def)
  next
    case False
    have "split_on CHR ''&'' (createQueryStr (e # ps)) = (k @ ''='' @ v) # split_on CHR ''&'' (createQueryStr ps)"
      using split_on_append [OF plain(2), of "createQueryStr ps"] False by (simp add: e createQueryStr_Cons)
    moreover have "createQueryStr ps \<noteq> []" "createQueryStr (e # ps) \<noteq> []"
      using False by (cases ps; auto simp: e createQueryStr_Cons)+
    ultimately show ?thesis
      using Cons.IH [OF rest] read_pair_plain [OF plain(1), of v] by (simp add: e read_query_def)
  qed
qed (simp add: read_query_def)




subsection \<open>Signed requests\<close>

text \<open>
  The venue's documented check of a private spot request: the \<open>signature\<close> parameter is the HMAC, under
  the secret, of the query string of the other parameters.
\<close>

definition venue_accepts :: "('c, 'w) net \<Rightarrow> string \<Rightarrow> string \<Rightarrow> bool" where
  "venue_accepts N secret query =
    (let ps = read_query query
     in map_of ps ''signature'' = Some (hmac_hex N secret (createQueryStr (filter (\<lambda>(k, v). k \<noteq> ''signature'') ps))))"

lemma put_not_Nil: "put k v es \<noteq> []"
  by (induction k v es rule: put.induct) auto

lemma filter_put: "k \<notin> fst ` set es \<Longrightarrow> filter (\<lambda>(k', v). k' \<noteq> k) (put k v es) = es"
proof (induction k v es rule: put.induct)
  case (2 k v k' v' es)
  have "filter (\<lambda>(k', v). k' \<noteq> k) es = es" using "2.prems" by (force simp: filter_id_conv)
  then show ?case using 2 by auto
qed simp

lemma int_str_plain [simp]: "CHR ''&'' \<notin> set (int_str n)"
proof -
  have "CHR ''&'' \<notin> set (digits n)" if "0 \<le> n" for n
    using digits_ok [OF that] by (auto simp: list_all_iff is_digit_def)
  then show ?thesis by (simp add: int_str_def)
qed

lemma spot_sign_accepted:
  assumes "plain_params ps" "obj_sorted ps" "''signature'' \<notin> fst ` set ps"
    and hex: "\<And>secret text. CHR ''&'' \<notin> set (hmac_hex N secret text)"
  shows "venue_accepts N (sp_apiSecret cfg) (spot_createQueryStr (spot_sign N cfg ts ps))"
proof -
  let ?stamped = "put ''timestamp'' (int_str ts) ps"
  let ?sig = "hmac_hex N (sp_apiSecret cfg) (createQueryStr ?stamped)"
  have sorted: "obj_sorted ?stamped" using assms(2) by (rule obj_sorted_put)
  have fresh: "''signature'' \<notin> fst ` set ?stamped" using assms(3) by (simp add: put_keys)
  have "plain_params ?stamped" using assms(1) by (simp add: plain_params_put int_str_plain)
  then have "plain_params (put ''signature'' ?sig ?stamped)" using hex by (simp add: plain_params_put)
  from read_createQueryStr [OF this] show ?thesis
    using fresh by (simp add: venue_accepts_def spot_sign_def spot_createQueryStr_same Let_def map_of_put [OF sorted] filter_put)
qed

lemma spot_endpoint_sends:
  assumes "spot_endpoint R method path ps False handle s = (res, es, s')"
  shows "sents es = [] \<or> (\<exists>q ts. sents es = [q] \<and> rq_method q = method \<and> rq_body q = [] \<and>
    rq_target q = path @ ''?'' @ spot_createQueryStr (spot_sign (sr_net R) (sr_cfg R) ts ps) \<and>
    header q ''X-MEXC-APIKEY'' = Some (sp_apiKey (sr_cfg R)))"
proof -
  have ne: "spot_createQueryStr (spot_sign N cfg ts ps) \<noteq> []" for N :: "('c, 'w) net" and cfg ts
  proof -
    have "spot_sign N cfg ts ps \<noteq> []"
      by (simp add: spot_sign_def Let_def put_not_Nil)
    then show ?thesis by (cases "spot_sign N cfg ts ps") (auto simp: spot_createQueryStr_same createQueryStr_Cons)
  qed
  show ?thesis
    using assms ne
    by (auto simp: spot_endpoint_def act_bind_def act_lift_def after_def spot_limiter_def spot_method_def createRequest_def
        spot_request_def Let_def sents_def split: prod.splits sum.splits if_splits)
qed

text \<open>
  C33. Private spot requests are signed and never repeated: an endpoint with private parameters sends
  at most one request, with the method asked for, an empty body and the key in its header; and the
  venue, reading the query of its target, finds the signature to be the HMAC of the other
  parameters. The HMAC is hexadecimal text.
\<close>

theorem spot_requests_signed:
  assumes "spot_endpoint R method path ps False handle s = (res, es, s')"
    and "plain_params ps" "obj_sorted ps" "''signature'' \<notin> fst ` set ps"
    and "\<And>secret text. CHR ''&'' \<notin> set (hmac_hex (sr_net R) secret text)"
  shows "length (sents es) \<le> 1 \<and> (\<forall>q \<in> set (sents es). rq_method q = method \<and> rq_body q = [] \<and>
    header q ''X-MEXC-APIKEY'' = Some (sp_apiKey (sr_cfg R)) \<and>
    (\<exists>query. rq_target q = path @ ''?'' @ query \<and> venue_accepts (sr_net R) (sp_apiSecret (sr_cfg R)) query))"
  using spot_endpoint_sends [OF assms(1)] spot_sign_accepted [OF assms(2-5)] by auto

theorem spot_requests_signed_witness:
  "case spot_endpoint (spot_canned accepted) PUT ''/api/v3/userDataStream'' [(''listenKey'', ''abc'')] False (\<lambda>response. Inr ())
      spot_start of (res, es, s') \<Rightarrow>
     length (sents es) = 1 \<and> (\<forall>q \<in> set (sents es). \<exists>query. rq_target q = ''/api/v3/userDataStream?'' @ query \<and>
       venue_accepts (sr_net (spot_canned accepted)) ''secret'' query)"
proof -
  let ?R = "spot_canned accepted" and ?h = "\<lambda>response. Inr ()"
  let ?run = "spot_endpoint ?R PUT ''/api/v3/userDataStream'' [(''listenKey'', ''abc'')] False ?h spot_start"
  obtain res es s' where run: "?run = (res, es, s')" by (metis prod_cases3)
  have "case ?run of (res, es, s') \<Rightarrow> length (sents es) = 1" by code_simp
  then have one: "length (sents es) = 1" using run by simp
  have "plain_params [(''listenKey'', ''abc'')]" "obj_sorted [(''listenKey'', ''abc'')]"
    "''signature'' \<notin> fst ` set [(''listenKey'', ''abc'')]"
    "\<And>secret text. CHR ''&'' \<notin> set (hmac_hex (sr_net ?R) secret text)"
    by (simp_all add: obj_sorted_def spot_canned_def canned_net_def)
  from spot_requests_signed [OF run this] one run show ?thesis by (simp add: spot_canned_def spot_session_def)
qed

end
