(* ===== verification/Tls.thy ===== *)
theory Tls
  imports Spot_Client
begin

section \<open>TLS: who the requests are sent to\<close>

text \<open>
  \<open>tls_verify.h\<close> and the part of the two HTTP sessions that opens a connection: \<open>freshConn\<close> of
  \<open>mexc_http_futures_session.cpp\<close> and the first half of \<open>request\<close> of \<open>mexc_http_spot_session.cpp\<close>. In
  \<open>Http_Session\<close> and \<open>Spot_Client\<close> this is the parameter \<open>connect\<close>; here it is put together from the calls
  of Boost.Asio and OpenSSL, which are the parameter \<open>transport\<close>.
  \<^item> \<open>ssl_context\<close> is what the code sets on an \<open>ssl::context\<close>, which Asio makes with \<open>verify_none\<close>;
    \<open>tls_stream\<close> is an \<open>ssl::stream\<close> with its certificate callback, its SNI name and its socket.
  \<^item> \<open>handshake\<close> returns the secured channel, the connection type of \<open>net\<close>. What the code relies on is
    \<open>authenticates\<close>: on a stream whose context has \<open>verify_peer\<close> and whose callback is
    \<open>host_name_verification\<close> of a name, OpenSSL completes the handshake only with that host.
  \<^item> The Windows branch imports the certificates of the system store; \<open>d2i\<close> decodes one.

  \<open>impostors_get_nothing\<close> says that both sessions stay clear of connections that are not authenticated:
  whatever would happen on one, their behaviour is the same.
\<close>

subsection \<open>The context\<close>

datatype verify_mode = verify_none | verify_peer

record 'x ssl_context =
  verifyMode :: verify_mode
  defaultPaths :: bool
  certStore :: "'x list"

definition ssl_context_new :: "'x ssl_context" where
  "ssl_context_new = \<lparr>verifyMode = verify_none, defaultPaths = False, certStore = []\<rparr>"

text \<open>The system the library is built for; on Windows the certificates in the ROOT store, if it opens.\<close>

datatype 'd platform = Posix | Windows "'d list option"

record ('x, 's) tls_stream =
  sslContext :: "'x ssl_context"
  verifyHost :: "string option"
  sniHost :: "string option"
  nextLayer :: "'s option"

record ('d, 'x, 'e, 's, 'k, 'w) transport =
  platform_of :: "'d platform"
  d2i :: "'d \<Rightarrow> 'x option"
  set_default_verify_paths :: "'w \<Rightarrow> unit result \<times> 'w"
  set_tlsext_host_name :: "string \<Rightarrow> 'w \<Rightarrow> unit result \<times> 'w"
  resolve :: "string \<Rightarrow> string \<Rightarrow> 'w \<Rightarrow> 'e list result \<times> 'w"
  tcp_connect :: "'e list \<Rightarrow> 'w \<Rightarrow> 's result \<times> 'w"
  handshake :: "('x, 's) tls_stream \<Rightarrow> 'w \<Rightarrow> 'k result \<times> 'w"

text \<open>A sequence of calls ends with the first that throws.\<close>

definition wbind :: "('w \<Rightarrow> 'a result \<times> 'w) \<Rightarrow> ('a \<Rightarrow> 'w \<Rightarrow> 'b result \<times> 'w) \<Rightarrow> 'w \<Rightarrow> 'b result \<times> 'w" where
  "wbind m f w = (case m w of (Inl e, w') \<Rightarrow> (Inl e, w') | (Inr a, w') \<Rightarrow> f a w')"

lemma wbind_Inr_iff [simp]: "wbind m f w = (Inr b, w') \<longleftrightarrow> (\<exists>a w1. m w = (Inr a, w1) \<and> f a w1 = (Inr b, w'))"
  by (auto simp: wbind_def split: prod.splits sum.splits)

text \<open>A certificate that does not decode is passed over; adding one a second time changes nothing.\<close>

fun import_roots :: "('d \<Rightarrow> 'x option) \<Rightarrow> 'd list \<Rightarrow> 'x ssl_context \<Rightarrow> 'x ssl_context" where
  "import_roots dec [] ctx = ctx"
| "import_roots dec (der # ders) ctx = import_roots dec ders
     (case dec der of None \<Rightarrow> ctx | Some x \<Rightarrow> ctx\<lparr>certStore := List.insert x (certStore ctx)\<rparr>)"

definition enableTlsPeerVerification ::
  "('d, 'x, 'e, 's, 'k, 'w) transport \<Rightarrow> 'x ssl_context \<Rightarrow> 'w \<Rightarrow> 'x ssl_context result \<times> 'w" where
  "enableTlsPeerVerification T ctx =
    wbind (set_default_verify_paths T) (\<lambda>_ w.
      let ctx1 = ctx\<lparr>defaultPaths := True\<rparr>;
          ctx2 = (case platform_of T of
                    Windows (Some store) \<Rightarrow> import_roots (d2i T) store ctx1
                  | _ \<Rightarrow> ctx1)
      in (Inr (ctx2\<lparr>verifyMode := verify_peer\<rparr>), w))"

subsection \<open>A fresh connection\<close>

definition freshConn :: "('d, 'x, 'e, 's, 'k, 'w) transport \<Rightarrow> string \<Rightarrow> 'w \<Rightarrow> 'k result \<times> 'w" where
  "freshConn T hostname =
    wbind (enableTlsPeerVerification T ssl_context_new) (\<lambda>ctx.
      let stream = \<lparr>sslContext = ctx, verifyHost = Some hostname, sniHost = None, nextLayer = None\<rparr>
      in wbind (set_tlsext_host_name T hostname) (\<lambda>_.
         wbind (resolve T hostname ''443'') (\<lambda>results.
         wbind (tcp_connect T results) (\<lambda>socket.
           handshake T (stream\<lparr>sniHost := Some hostname, nextLayer := Some socket\<rparr>)))))"

definition spot_open :: "('d, 'x, 'e, 's, 'k, 'w) transport \<Rightarrow> spot_config \<Rightarrow> 'w \<Rightarrow> 'k result \<times> 'w" where
  "spot_open T cfg =
    wbind (enableTlsPeerVerification T ssl_context_new) (\<lambda>ctx.
      let stream = \<lparr>sslContext = ctx, verifyHost = Some (sp_uri cfg), sniHost = None, nextLayer = None\<rparr>
      in wbind (set_tlsext_host_name T (sp_uri cfg)) (\<lambda>_.
         wbind (resolve T (sp_uri cfg) ''443'') (\<lambda>results.
         wbind (tcp_connect T results) (\<lambda>socket.
           handshake T (stream\<lparr>sniHost := Some (sp_uri cfg), nextLayer := Some socket\<rparr>)))))"

subsection \<open>What they set up\<close>

lemma import_roots_keeps [simp]:
  "verifyMode (import_roots dec ders ctx) = verifyMode ctx"
  "defaultPaths (import_roots dec ders ctx) = defaultPaths ctx"
  by (induction ders arbitrary: ctx) (simp_all split: option.split)

lemma import_roots_store:
  "set (certStore (import_roots dec ders ctx)) = set (certStore ctx) \<union> {x. \<exists>der \<in> set ders. dec der = Some x}"
  by (induction ders arbitrary: ctx) (auto split: option.split)

lemma import_roots_distinct:
  "distinct (certStore ctx) \<Longrightarrow> distinct (certStore (import_roots dec ders ctx))"
  by (induction ders arbitrary: ctx) (simp_all split: option.split)

lemma enable_verifies:
  assumes "enableTlsPeerVerification T ctx w = (Inr ctx', w')"
  shows "verifyMode ctx' = verify_peer" "defaultPaths ctx'"
    "platform_of T = Windows (Some store) \<Longrightarrow>
       set (certStore ctx') = set (certStore ctx) \<union> {x. \<exists>der \<in> set store. d2i T der = Some x}"
  using assms
  by (auto simp: enableTlsPeerVerification_def Let_def import_roots_store split: platform.splits option.splits)

definition authenticates :: "(string \<Rightarrow> 'k \<Rightarrow> bool) \<Rightarrow> ('d, 'x, 'e, 's, 'k, 'w) transport \<Rightarrow> bool" where
  "authenticates genuine T \<longleftrightarrow> (\<forall>st h w k w'. verifyMode (sslContext st) = verify_peer \<longrightarrow> verifyHost st = Some h \<longrightarrow>
     handshake T st w = (Inr k, w') \<longrightarrow> genuine h k)"

lemma freshConn_genuine:
  assumes "authenticates genuine T" "freshConn T hostname w = (Inr k, w')" shows "genuine hostname k"
proof -
  obtain ctx w1 results w2 socket w3 where "enableTlsPeerVerification T ssl_context_new w = (Inr ctx, w1)"
    and hs: "handshake T \<lparr>sslContext = ctx, verifyHost = Some hostname, sniHost = Some hostname, nextLayer = Some socket\<rparr> w3 = (Inr k, w')"
    using assms(2) by (auto simp: freshConn_def)
  then have "verifyMode ctx = verify_peer" by (blast dest: enable_verifies(1))
  then show ?thesis using assms(1) hs unfolding authenticates_def by (metis tls_stream.select_convs(1,2))
qed

lemma spot_open_freshConn: "spot_open T cfg = freshConn T (sp_uri cfg)"
  by (simp add: spot_open_def freshConn_def)


subsection \<open>The life of the futures session\<close>

text \<open>Any sequence of GETs and POSTs of one session object, each with its result and trace.\<close>

datatype http_call = CallGet string "(string \<times> string) list" bool | CallPost string string

fun do_call :: "('c, 'w) net \<Rightarrow> http_config \<Rightarrow> http_call \<Rightarrow> (http_response, 'c, 'w) action" where
  "do_call N cfg (CallGet path parameters isPublic) = methodGet N cfg path parameters isPublic"
| "do_call N cfg (CallPost path jsonBody) = methodPost N cfg path jsonBody"

fun do_calls :: "('c, 'w) net \<Rightarrow> http_config \<Rightarrow> http_call list \<Rightarrow> ('c, 'w) http_state \<Rightarrow>
    (http_response result \<times> ev list) list \<times> ('c, 'w) http_state" where
  "do_calls N cfg [] s = ([], s)"
| "do_calls N cfg (c # cs) s =
    (case do_call N cfg c s of (r, es, s1) \<Rightarrow>
     case do_calls N cfg cs s1 of (outs, s2) \<Rightarrow> ((r, es) # outs, s2))"

definition pool_ok :: "('c \<Rightarrow> bool) \<Rightarrow> ('c, 'w) http_state \<Rightarrow> bool" where
  "pool_ok ok s \<longleftrightarrow> (\<forall>cn \<in> set (pool s). ok (stream cn))"

text \<open>
  \<open>careful ok N x\<close>: new connections are \<open>ok\<close>, and the network \<open>x\<close> does what that of \<open>N\<close> does on those.
\<close>

definition careful ::
  "('c \<Rightarrow> bool) \<Rightarrow> ('c, 'w) net \<Rightarrow> ('c \<Rightarrow> http_request \<Rightarrow> 'w \<Rightarrow> http_response result \<times> 'w) \<Rightarrow> bool" where
  "careful ok N x \<longleftrightarrow> (\<forall>w k w'. connect N w = (Inr k, w') \<longrightarrow> ok k) \<and> (\<forall>c q w. ok c \<longrightarrow> x c q w = exchange N c q w)"

lemma takeConn_ok:
  assumes "takeConn now (pool s) = (r, rest)" "pool_ok ok s"
  shows "case r of Some cn \<Rightarrow> ok (stream cn) | None \<Rightarrow> True" "\<forall>cn \<in> set rest. ok (stream cn)"
  using takeConn_spec [OF assms(1)] assms(2) by (auto simp: pool_ok_def split: option.splits)

lemma performOnce_careful:
  assumes "careful ok N x" "pool_ok ok s"
  shows "performOnce (N\<lparr>exchange := x\<rparr>) req s = performOnce N req s \<and> pool_ok ok (snd (performOnce N req s))"
proof -
  obtain now w0 where t: "steady_now N (world s) = (now, w0)" by fastforce
  obtain r rest where tk: "takeConn now (pool s) = (r, rest)" by fastforce
  note rest = takeConn_ok(2) [OF tk assms(2)]
  define opened where "opened = (case r of Some cn \<Rightarrow> (Inr (stream cn), [], w0)
       | None \<Rightarrow> (case connect N w0 of (r, w) \<Rightarrow> (r, [Connected (\<not> isl r)], w)))"
  obtain c es w1 where op: "opened = (c, es, w1)" by (cases opened)
  have open': "(case r of Some cn \<Rightarrow> (Inr (stream cn), [], w0)
       | None \<Rightarrow> (case connect N w0 of (r, w) \<Rightarrow> (r, [Connected (\<not> isl r)], w))) = (c, es, w1)"
    using op by (simp add: opened_def)
  have open'': "(case r of Some cn \<Rightarrow> (Inr (stream cn), [], w0)
       | None \<Rightarrow> (case connect (N\<lparr>exchange := x\<rparr>) w0 of (r, w) \<Rightarrow> (r, [Connected (\<not> isl r)], w))) = (c, es, w1)"
    using open' by (cases r) simp_all
  show ?thesis
  proof (cases c)
    case (Inl e)
    then show ?thesis using rest by (simp add: performOnce_def t tk open' open'' pool_ok_def)
  next
    case (Inr k)
    have k: "ok k"
      using open' Inr takeConn_ok(1) [OF tk assms(2)] assms(1)
      by (auto simp: careful_def split: option.splits prod.splits)
    then have x: "x k req w1 = exchange N k req w1" using assms(1) by (simp add: careful_def)
    obtain a w2 where e: "exchange N k req w1 = (a, w2)" by fastforce
    show ?thesis using rest k
      by (cases a) (auto simp: performOnce_def t tk open' open'' Inr x e pool_ok_def returnConn_def split: prod.split)
  qed
qed

lemma prepare_retry_careful:
  "prepare_retry (N\<lparr>exchange := x\<rparr>) cfg reauth n req s = prepare_retry N cfg reauth n req s"
  "pool (snd (snd (prepare_retry N cfg reauth n req s))) = pool s"
  by (auto simp: prepare_retry_def Let_def split: prod.splits option.splits)

lemma request_loop_careful:
  assumes "careful ok N x" "pool_ok ok s"
  shows "request_loop (N\<lparr>exchange := x\<rparr>) cfg reauth n stale req s = request_loop N cfg reauth n stale req s \<and>
    pool_ok ok (snd (snd (request_loop N cfg reauth n stale req s)))"
  using assms(2)
proof (induction "MAX_RETRIES - n + (if stale then 0 else 1 :: nat)" arbitrary: n stale req s rule: less_induct)
  case less
  obtain req' es s1 where prep: "prepare_retry N cfg reauth n req s = (req', es, s1)" by (metis prod_cases3)
  have "pool_ok ok s1" using prepare_retry_careful(2) [of N cfg reauth n req s] less.prems prep by (simp add: pool_ok_def)
  note once = performOnce_careful [OF assms(1) this, of req']
  obtain a s2 where perf: "performOnce N req' s1 = (a, s2)" by fastforce
  have ok2: "pool_ok ok s2" "pool_ok ok (pause N d s2)" for d using once perf by (simp_all add: pause_def pool_ok_def)
  have p: "pause (N\<lparr>exchange := x\<rparr>) d s2 = pause N d s2" for d by (simp add: pause_def)
  have IH: "request_loop (N\<lparr>exchange := x\<rparr>) cfg reauth (n + 1) stale' req' t = request_loop N cfg reauth (n + 1) stale' req' t \<and>
      pool_ok ok (snd (snd (request_loop N cfg reauth (n + 1) stale' req' t)))"
    if "stale' = stale \<and> n < MAX_RETRIES \<or> stale' \<and> \<not> stale" "pool_ok ok t" for stale' t
    using that by (intro less.hyps) (auto simp: MAX_RETRIES_def)
  have af: "snd (snd (after es r)) = snd (snd r)" for es and r :: "http_response result \<times> ev list \<times> ('a, 'b) http_state"
    by (simp add: after_def split: prod.split)
  have perf': "performOnce (N\<lparr>exchange := x\<rparr>) req' s1 = (a, s2)" using once perf by simp
  note step = request_loop.simps [of N cfg reauth n stale req s, unfolded prep prod.case perf]
    request_loop.simps [of "N\<lparr>exchange := x\<rparr>" cfg reauth n stale req s,
      unfolded prepare_retry_careful(1) prep prod.case perf']
  show ?case
  proof (cases "outcome a")
    case (Inl e)
    then show ?thesis using IH [OF _ ok2(1), of True] IH [OF _ ok2(2), of stale] ok2
      by (simp add: step p af Let_def not_le)
  next
    case (Inr response)
    then show ?thesis using IH [OF _ ok2(2), of stale] ok2
      by (simp add: step p af Let_def not_le)
  qed
qed

lemma do_call_careful:
  assumes "careful ok N x" "pool_ok ok s"
  shows "do_call (N\<lparr>exchange := x\<rparr>) cfg c s = do_call N cfg c s \<and> pool_ok ok (snd (snd (do_call N cfg c s)))"
proof -
  have auth: "authenticateGet (N\<lparr>exchange := x\<rparr>) = authenticateGet N" "authenticatePost (N\<lparr>exchange := x\<rparr>) = authenticatePost N"
    by (simp_all add: fun_eq_iff authenticateGet_def authenticatePost_def authenticate_def sign_def)
  have req: "request (N\<lparr>exchange := x\<rparr>) cfg reauth q t = request N cfg reauth q t \<and>
      pool_ok ok (snd (snd (request N cfg reauth q t)))" if "pool_ok ok t" for reauth q t
    using request_loop_careful [OF assms(1) that] by (simp add: request_def)
  have w: "pool_ok ok (s\<lparr>world := v\<rparr>)" for v using assms(2) by (simp add: pool_ok_def)
  note reqs = req [OF assms(2), THEN conjunct1] req [OF assms(2), THEN conjunct2]
    req [OF w, THEN conjunct1] req [OF w, THEN conjunct2]
  obtain now v where ck: "wall_ms N (world s) = (now, v)" by fastforce
  show ?thesis
  proof (cases c)
    case (CallGet path ps pub)
    then show ?thesis by (simp add: methodGet_def Let_def auth ck reqs)
  next
    case (CallPost path body)
    then show ?thesis by (simp add: methodPost_def Let_def auth ck reqs)
  qed
qed

lemma do_calls_careful:
  assumes "careful ok N x" "pool_ok ok s"
  shows "do_calls (N\<lparr>exchange := x\<rparr>) cfg cs s = do_calls N cfg cs s \<and> pool_ok ok (snd (do_calls N cfg cs s))"
  using assms(2)
proof (induction cs arbitrary: s)
  case (Cons c cs)
  obtain r es s1 where c: "do_call N cfg c s = (r, es, s1)" by (metis prod_cases3)
  obtain outs s2 where cs: "do_calls N cfg cs s1 = (outs, s2)" by fastforce
  have "do_call (N\<lparr>exchange := x\<rparr>) cfg c s = (r, es, s1)" "pool_ok ok s1"
    using do_call_careful [OF assms(1) Cons.prems, of cfg c] c by simp_all
  then show ?case using Cons.IH [of s1] by (simp add: c cs)
qed simp

lemma spot_method_careful:
  assumes "careful ok N x"
  shows "spot_method m (N\<lparr>exchange := x\<rparr>) cfg path parameters isPublic s = spot_method m N cfg path parameters isPublic s"
proof -
  have "createRequest (N\<lparr>exchange := x\<rparr>) = createRequest N"
    by (simp add: fun_eq_iff createRequest_def spot_sign_def)
  moreover have "spot_request (N\<lparr>exchange := x\<rparr>) cfg q w = spot_request N cfg q w" for q w
  proof -
    obtain r w1 where c: "connect N w = (r, w1)" by fastforce
    have "x k q' w1 = exchange N k q' w1" if "r = Inr k" for k q'
      using assms c that unfolding careful_def by blast
    then show ?thesis by (cases r) (simp_all add: spot_request_def c Let_def)
  qed
  ultimately show ?thesis by (simp add: spot_method_def)
qed

text \<open>
  C9. No request, key or signature goes to a host that is not authenticated: over the whole life of a
  futures session, and in every request of a spot session, what a connection to an impostor would
  do has no influence on anything the session does or returns, and the pool never holds one.
\<close>

theorem impostors_get_nothing:
  assumes "authenticates genuine T"
    and "connect N = freshConn T (uri cfg)" and "pool s = []"
    and "\<And>c q w. genuine (uri cfg) c \<Longrightarrow> x c q w = exchange N c q w"
    and "connect M = spot_open T scfg" and "\<And>c q w. genuine (sp_uri scfg) c \<Longrightarrow> y c q w = exchange M c q w"
  shows "do_calls (N\<lparr>exchange := x\<rparr>) cfg cs s = do_calls N cfg cs s \<and>
    (\<forall>cn \<in> set (pool (snd (do_calls N cfg cs s))). genuine (uri cfg) (stream cn)) \<and>
    spot_method m (M\<lparr>exchange := y\<rparr>) scfg path parameters isPublic t = spot_method m M scfg path parameters isPublic t"
proof -
  have "careful (genuine (uri cfg)) N x" "careful (genuine (sp_uri scfg)) M y"
    using assms(2,4,5,6) freshConn_genuine [OF assms(1)] by (auto simp: careful_def spot_open_freshConn)
  moreover have "pool_ok (genuine (uri cfg)) s" using assms(3) by (simp add: pool_ok_def)
  ultimately show ?thesis using do_calls_careful [of "genuine (uri cfg)" N x s cfg cs] spot_method_careful
    by (auto simp: pool_ok_def)
qed

text \<open>
  A world that counts attempts. The first handshake meets an impostor, which a checked stream refuses;
  an exchange with the impostor would end the request with what it says.
\<close>

definition demo_transport :: "(string, string, string, string, bool, nat) transport" where
  "demo_transport = \<lparr>platform_of = Windows (Some [''root'', ''junk'', ''root'']),
     d2i = (\<lambda>der. if der = ''junk'' then None else Some der),
     set_default_verify_paths = (\<lambda>w. (Inr (), w)), set_tlsext_host_name = (\<lambda>h w. (Inr (), w)),
     resolve = (\<lambda>h p w. (Inr [h], w)), tcp_connect = (\<lambda>es w. (Inr (hd es), w)),
     handshake = (\<lambda>st w. if w = 0 \<and> verifyMode (sslContext st) = verify_peer \<and> verifyHost st \<noteq> None
       then (Inl (RuntimeError ''certificate verify failed''), w + 1) else (Inr (w \<noteq> 0), w + 1))\<rparr>"

definition demo_tls_net :: "string \<Rightarrow> (bool, nat) net" where
  "demo_tls_net h = \<lparr>connect = freshConn demo_transport h,
     exchange = (\<lambda>c q w. (Inr \<lparr>rs_status = 200, rs_body = ''ok'', rs_keep_alive = True\<rparr>, w)),
     steady_now = (\<lambda>w. (0, w)), wall_ms = (\<lambda>w. (0, w)), sleep_ms = (\<lambda>d w. w), limiter_wait = (\<lambda>w. w),
     user_agent = ''ua'', hmac_hex = (\<lambda>k t. ''sig'')\<rparr>"

definition impostor :: "bool \<Rightarrow> http_request \<Rightarrow> nat \<Rightarrow> http_response result \<times> nat" where
  "impostor c q w = (Inr \<lparr>rs_status = 200, rs_body = (if c then ''ok'' else ''stolen''), rs_keep_alive = True\<rparr>, w)"

definition demo_tls_cfg :: http_config where
  "demo_tls_cfg = \<lparr>apiKey = ''key'', apiSecret = ''secret'', uri = ''contract.mexc.com'', retryPacingHook = False\<rparr>"

lemma demo_genuine: "authenticates (\<lambda>h c. c) demo_transport"
  by (auto simp: authenticates_def demo_transport_def split: if_splits)

theorem impostors_get_nothing_witness:
  "(case do_calls ((demo_tls_net ''contract.mexc.com'')\<lparr>exchange := impostor\<rparr>) demo_tls_cfg
      [CallGet ''/ping'' [] True, CallPost ''/order'' ''{}''] \<lparr>pool = [], world = 0\<rparr> of (outs, s) \<Rightarrow>
      map (rmap rs_body \<circ> fst) outs = [Inr ''ok'', Inr ''ok''] \<and> Connected False \<in> set (snd (hd outs)) \<and>
      map stream (pool s) = [True]) \<and>
   rmap rs_body (fst (spot_method GET ((demo_tls_net ''api.mexc.com'')\<lparr>exchange := impostor\<rparr>) (spot_session ''k'' ''s'')
      ''/time'' [] True \<lparr>sp_requestTimes = [], sp_world = 1\<rparr>)) = Inr ''ok''"
proof -
  have ev: "case do_calls (demo_tls_net ''contract.mexc.com'') demo_tls_cfg
      [CallGet ''/ping'' [] True, CallPost ''/order'' ''{}''] \<lparr>pool = [], world = 0\<rparr> of (outs, s) \<Rightarrow>
      map (rmap rs_body \<circ> fst) outs = [Inr ''ok'', Inr ''ok''] \<and> Connected False \<in> set (snd (hd outs)) \<and>
      map stream (pool s) = [True]"
    "rmap rs_body (fst (spot_method GET (demo_tls_net ''api.mexc.com'') (spot_session ''k'' ''s'')
      ''/time'' [] True \<lparr>sp_requestTimes = [], sp_world = 1\<rparr>)) = Inr ''ok''"
    by code_simp+
  have "connect (demo_tls_net ''contract.mexc.com'') = freshConn demo_transport (uri demo_tls_cfg)"
    "connect (demo_tls_net ''api.mexc.com'') = spot_open demo_transport (spot_session ''k'' ''s'')"
    "c \<Longrightarrow> impostor c q w = exchange (demo_tls_net h) c q w" for c q w h
    by (simp_all add: demo_tls_net_def demo_tls_cfg_def spot_open_freshConn spot_session_def impostor_def)
  note same = impostors_get_nothing [OF demo_genuine this(1) _ this(3) this(2) this(3)]
  have "do_calls ((demo_tls_net ''contract.mexc.com'')\<lparr>exchange := impostor\<rparr>) demo_tls_cfg cs \<lparr>pool = [], world = 0\<rparr>
      = do_calls (demo_tls_net ''contract.mexc.com'') demo_tls_cfg cs \<lparr>pool = [], world = 0\<rparr>" for cs
    by (rule same [THEN conjunct1]) simp
  moreover have "spot_method GET ((demo_tls_net ''api.mexc.com'')\<lparr>exchange := impostor\<rparr>) (spot_session ''k'' ''s'') path ps pub t
      = spot_method GET (demo_tls_net ''api.mexc.com'') (spot_session ''k'' ''s'') path ps pub t" for path ps pub t
    by (rule same [THEN conjunct2, THEN conjunct2, of "\<lparr>pool = [], world = 0\<rparr>"]) simp
  ultimately show ?thesis using ev by (simp del: do_calls.simps do_call.simps)
qed

end
