(* ===== verification/Spec2Isabelle.thy ===== *)
theory Spec2Isabelle
  imports Gateway_Orders Rate_Limiter Ws_Faults Ws_Login Gateway_Streams Account_Tools Tls
begin

text \<open>
  A model of mexc-cpp-api, a C++ client library for the MEXC exchange, and what makes it correct.

  \<^bold>\<open>The program.\<close> A trading bot talks to the library through the execution gateway
  (\<open>mexc_execution_gateway.cpp\<close>). The gateway submits and cancels orders through the futures REST client
  (\<open>mexc_futures_rest_client.cpp\<close>), which takes a slot of a process-wide rate limiter and sends a signed request
  through the HTTP session (\<open>mexc_http_futures_session.cpp\<close>) with its connection pool and retries. Quotes
  and order events come back over two WebSocket streams: the stream managers
  (\<open>mexc_ws_stream_manager.cpp\<close>, \<open>mexc_ws_private_stream_manager.cpp\<close>) own a client
  (\<open>mexc_futures_ws_client.cpp\<close>) that owns a session (\<open>mexc_futures_ws_session.cpp\<close>), the state machine that
  connects, logs in, subscribes, pings and reconnects. Beside the gateway stand the exchange
  connector (\<open>mexc_futures_exchange_connector.cpp\<close>), an adapter of the REST client, and the spot REST
  client with its own session (\<open>mexc_spot_rest_client.cpp\<close>, \<open>mexc_http_spot_session.cpp\<close>).

  \<^bold>\<open>Which theory models what.\<close>
  \<^item> \<open>Prelude\<close>: exceptions as values (\<open>exn + 'a\<close>), clock readings, lists.
  \<^item> \<open>Binary64\<close>, \<open>Doubles\<close>: the C++ \<open>double\<close> as a rational with round to nearest even, infinities and
    NaN; a locale for floor division over any such rounding.
  \<^item> \<open>Strings\<close>, \<open>Json\<close>: the standard-library string functions and the JSON values the sources use; the
    operations of the JSON, decimal and format libraries are the parameter \<open>jlib\<close>.
  \<^item> \<open>Enums\<close>, \<open>Futures_Models\<close>, \<open>Event_Models\<close>, \<open>Spot_Models\<close>: \<open>mexc_enums.h\<close>, \<open>mexc.cpp\<close>, \<open>mexc_models\<close>,
    \<open>mexc_event_models\<close>: a record per struct, a constructor per enumerator, a field reader per \<open>fromJson\<close>.
  \<^item> \<open>Pacing\<close>, \<open>Rate_Limiter\<close>, \<open>Order_Lane\<close>: the contract of state that grants requests at a pace (a
    locale), the limiters of the two REST clients, and the gateway's lane for order requests.
  \<^item> \<open>Http_Session\<close>, \<open>Rest_Client\<close>: the pool, the signature, the retry loop; every endpoint. \<open>ladder\<close> is the
    specification of the traces of a request that the retry loop is shown to follow.
  \<^item> \<open>Reject_Kinds\<close>, \<open>Order_Sizing\<close>, \<open>Fill_Ledger\<close>: parts of the gateway: what a reject means, how price
    and volume are rounded, and how cumulative volumes become fills (a locale and its implementation).
  \<^item> \<open>Gateway\<close>: the state \<open>gw\<close> and all operations of the gateway. \<open>Gateway_Fills\<close> follows any
    interleaving of order events and reconciliations, \<open>Gateway_Orders\<close> the submits and cancels,
    \<open>Gateway_Streams\<close> a message from the streams to the client.
  \<^item> \<open>Ws_Topics\<close>: subscription requests and the contract \<open>topic_store\<close>. \<open>Ws_Session\<close>: the members of
    \<open>WebSocketSession::P\<close> as the record \<open>session\<close> and every handler. \<open>Ws_Runs\<close>: \<open>ws_step\<close>, one operation of a caller,
    posted job or completion, \<open>ws_reach\<close>, and the invariant \<open>sound\<close> of outstanding operations. \<open>Ws_Moves\<close>: the
    handlers as sequences of elementary moves. \<open>Ws_Safety\<close>: delays, close, topics. \<open>Ws_Orderly\<close> and
    \<open>Ws_Replay\<close>: a session that is run once keeps trying, and what it sends after an outage.
    \<open>Ws_Login\<close>: what goes out before the login. \<open>Ws_Faults\<close>: the runs in which it does not keep its promises.
  \<^item> \<open>Ws_Client\<close>, \<open>Stream_Managers\<close>: the client over a state of the session model, the event
    callbacks, caches and reads of the managers.
  \<^item> \<open>Exchange_Connector\<close>, \<open>Spot_Client\<close>: the adapter; the spot session and client.
  \<^item> \<open>Tls\<close>: \<open>tls_verify.h\<close>, and how the two HTTP sessions open a connection (\<open>freshConn\<close>).
  \<^item> \<open>Account_Tools\<close>: \<open>close_all_futures.cpp\<close> and \<open>set_position_mode.cpp\<close> of \<open>src/test\<close>, the two programs
    that act on an account.

  \<^bold>\<open>State and effects.\<close> A C++ object is a record of its members. A method is a function that returns the
  record updated; one that may throw returns \<open>Inl\<close> of the exception. HTTP operations also return
  what they did (\<open>ev list\<close>: slots taken, requests sent, replies, sleeps), so that theorems can speak of
  the wire. The network, the clocks and the HMAC are the record \<open>net\<close> over an arbitrary world. The
  handlers of the WebSocket session get what a completion brings (error, clock readings, frame) as an
  argument and record their effects in the state: \<open>armed\<close> (operations outstanding), \<open>posted\<close> (jobs of the
  strand), \<open>did\<close> (what went out). The strand makes each handler one step; callers on other threads
  interleave between steps.

  \<^bold>\<open>What the lemmas show.\<close>
  \<^item> Orders: no blind resend, orders as asked, exact order volume in binary64, paced submits, a
    throttle closes the lane, rejects classified, an order's JSON well typed.
  \<^item> Fills: credited once over any interleaving, before the order update, and before an order is
    reported gone; batched pushes as single ones.
  \<^item> REST: the limiter's window, slots for every attempt, signatures, a query string determines its
    parameters, a young and small pool, nothing sent to a host that is not authenticated, candles and
    funding rates complete, ordered and terminating.
  \<^item> Streams: one write and one read at a time, back off of 1 to 30 seconds, close is final, topics as
    requested, replayed after an outage, and nothing but the login, pings and take-backs before the
    login is accepted; the session of the public stream
    never wedges; the caches hold what the callbacks were given.
  \<^item> Tools: nothing is sent but closes of listed positions and a switch the user asked for.
  \<^item> Faults of the code, as theorems: a second run wedges a reconnecting session, a topic dropped
    and asked for again is lost, a failed push mixes two tickers, a late event is credited again, a
    long spot download loses a candle per batch, a rejected trade is never returned, a code is matched
    as a prefix of longer ones.

  \<^bold>\<open>Bounds and fuel.\<close> No fuel is used: the retry loop terminates by \<open>MAX_RETRIES\<close> (4) plus one stale
  retry, the cached reads by their number of tries. The pagination loops and the limiter's wait may not
  end; they are \<open>partial_function (option)\<close>, and theorems show that they return under the venue's
  documented behaviour. Identifiers and time stamps are mathematical integers where the code has
  \<open>int64_t\<close>; they are milliseconds or seconds since the epoch and order ids, far from the bounds.
  Casts to 32 bits are written out (\<open>to_i32\<close>).

  \<^bold>\<open>Not modelled.\<close>
  \<^item> The other programs of \<open>src/test\<close>, which call the library against the live venue and print; of
    \<open>main_spot.cpp\<close> only the check of a download for gaps.
  \<^item> Logging, destructors, and the constants \<open>name\<close>, \<open>exchangeId\<close> and \<open>version\<close>. Data races on members the
    code does not guard are outside a model whose steps are the critical sections.
  \<^item> Boost, OpenSSL, nlohmann::json, fmt, magic_enum and the submodule stonky-cpp-common, which are
    not part of the repository; they are parameters.
\<close>

end
